theory Spec2Isabelle
  imports Main
begin

section \<open>Strings, exceptions and the logger\<close>

text \<open>
  A Python \<open>str\<close> is a sequence of Unicode code points; the stop-word list of
  \<open>config.py\<close> holds Cyrillic words, so a string is a list of code points here.
  \<open>lit\<close> turns an ASCII literal into such a string.
\<close>

type_synonym str = "nat list"

definition lit :: "string \<Rightarrow> str" where
  "lit s = map of_char s"

text \<open>
  \<open>str.lower()\<close> is the full lowercase mapping of the Unicode character database, as
  CPython applies it (\<open>do_lower\<close> in \<open>unicodeobject.c\<close>; the tables are those of
  Unicode 14.0, which CPython 3.11 ships). Every code point with a lowercase mapping goes to
  it; U+0130 goes to the two code points U+0069 U+0307, so the length can change; and
  U+03A3, the capital sigma, goes to the final form U+03C2 where it ends a word and to
  U+03C3 elsewhere.

  The mapping of single code points is a table of runs \<open>(a, b, step, t)\<close>: the code
  points \<open>a, a + step, ..\<close> up to \<open>b\<close> go to \<open>t, t + step, ..\<close>; a code point in no run
  is its own image.
\<close>

definition lower_ranges :: "(nat \<times> nat \<times> nat \<times> nat) list" where
  "lower_ranges =
    [(192, 214, 1, 224), (216, 222, 1, 248), (256, 302, 2, 257), (306, 310, 2, 307),
     (313, 327, 2, 314), (330, 374, 2, 331), (376, 376, 1, 255), (377, 381, 2, 378),
     (385, 385, 1, 595), (386, 388, 2, 387), (390, 390, 1, 596), (391, 391, 1, 392),
     (393, 394, 1, 598), (395, 395, 1, 396), (398, 398, 1, 477), (399, 399, 1, 601),
     (400, 400, 1, 603), (401, 401, 1, 402), (403, 403, 1, 608), (404, 404, 1, 611),
     (406, 406, 1, 617), (407, 407, 1, 616), (408, 408, 1, 409), (412, 412, 1, 623),
     (413, 413, 1, 626), (415, 415, 1, 629), (416, 420, 2, 417), (422, 422, 1, 640),
     (423, 423, 1, 424), (425, 425, 1, 643), (428, 428, 1, 429), (430, 430, 1, 648),
     (431, 431, 1, 432), (433, 434, 1, 650), (435, 437, 2, 436), (439, 439, 1, 658),
     (440, 440, 1, 441), (444, 444, 1, 445), (452, 452, 1, 454), (453, 453, 1, 454),
     (455, 455, 1, 457), (456, 456, 1, 457), (458, 458, 1, 460), (459, 475, 2, 460),
     (478, 494, 2, 479), (497, 497, 1, 499), (498, 500, 2, 499), (502, 502, 1, 405),
     (503, 503, 1, 447), (504, 542, 2, 505), (544, 544, 1, 414), (546, 562, 2, 547),
     (570, 570, 1, 11365), (571, 571, 1, 572), (573, 573, 1, 410), (574, 574, 1, 11366),
     (577, 577, 1, 578), (579, 579, 1, 384), (580, 580, 1, 649), (581, 581, 1, 652),
     (582, 590, 2, 583), (880, 882, 2, 881), (886, 886, 1, 887), (895, 895, 1, 1011),
     (902, 902, 1, 940), (904, 906, 1, 941), (908, 908, 1, 972), (910, 911, 1, 973),
     (913, 929, 1, 945), (931, 939, 1, 963), (975, 975, 1, 983), (984, 1006, 2, 985),
     (1012, 1012, 1, 952), (1015, 1015, 1, 1016), (1017, 1017, 1, 1010), (1018, 1018, 1, 1019),
     (1021, 1023, 1, 891), (1024, 1039, 1, 1104), (1040, 1071, 1, 1072), (1120, 1152, 2, 1121),
     (1162, 1214, 2, 1163), (1216, 1216, 1, 1231), (1217, 1229, 2, 1218), (1232, 1326, 2, 1233),
     (1329, 1366, 1, 1377), (4256, 4293, 1, 11520), (4295, 4295, 1, 11559),
     (4301, 4301, 1, 11565), (5024, 5103, 1, 43888), (5104, 5109, 1, 5112),
     (7312, 7354, 1, 4304), (7357, 7359, 1, 4349), (7680, 7828, 2, 7681), (7838, 7838, 1, 223),
     (7840, 7934, 2, 7841), (7944, 7951, 1, 7936), (7960, 7965, 1, 7952), (7976, 7983, 1, 7968),
     (7992, 7999, 1, 7984), (8008, 8013, 1, 8000), (8025, 8031, 2, 8017), (8040, 8047, 1, 8032),
     (8072, 8079, 1, 8064), (8088, 8095, 1, 8080), (8104, 8111, 1, 8096), (8120, 8121, 1, 8112),
     (8122, 8123, 1, 8048), (8124, 8124, 1, 8115), (8136, 8139, 1, 8050), (8140, 8140, 1, 8131),
     (8152, 8153, 1, 8144), (8154, 8155, 1, 8054), (8168, 8169, 1, 8160), (8170, 8171, 1, 8058),
     (8172, 8172, 1, 8165), (8184, 8185, 1, 8056), (8186, 8187, 1, 8060), (8188, 8188, 1, 8179),
     (8486, 8486, 1, 969), (8490, 8490, 1, 107), (8491, 8491, 1, 229), (8498, 8498, 1, 8526),
     (8544, 8559, 1, 8560), (8579, 8579, 1, 8580), (9398, 9423, 1, 9424),
     (11264, 11311, 1, 11312), (11360, 11360, 1, 11361), (11362, 11362, 1, 619),
     (11363, 11363, 1, 7549), (11364, 11364, 1, 637), (11367, 11371, 2, 11368),
     (11373, 11373, 1, 593), (11374, 11374, 1, 625), (11375, 11375, 1, 592),
     (11376, 11376, 1, 594), (11378, 11378, 1, 11379), (11381, 11381, 1, 11382),
     (11390, 11391, 1, 575), (11392, 11490, 2, 11393), (11499, 11501, 2, 11500),
     (11506, 11506, 1, 11507), (42560, 42604, 2, 42561), (42624, 42650, 2, 42625),
     (42786, 42798, 2, 42787), (42802, 42862, 2, 42803), (42873, 42875, 2, 42874),
     (42877, 42877, 1, 7545), (42878, 42886, 2, 42879), (42891, 42891, 1, 42892),
     (42893, 42893, 1, 613), (42896, 42898, 2, 42897), (42902, 42920, 2, 42903),
     (42922, 42922, 1, 614), (42923, 42923, 1, 604), (42924, 42924, 1, 609),
     (42925, 42925, 1, 620), (42926, 42926, 1, 618), (42928, 42928, 1, 670),
     (42929, 42929, 1, 647), (42930, 42930, 1, 669), (42931, 42931, 1, 43859),
     (42932, 42946, 2, 42933), (42948, 42948, 1, 42900), (42949, 42949, 1, 642),
     (42950, 42950, 1, 7566), (42951, 42953, 2, 42952), (42960, 42960, 1, 42961),
     (42966, 42968, 2, 42967), (42997, 42997, 1, 42998), (65313, 65338, 1, 65345),
     (66560, 66599, 1, 66600), (66736, 66771, 1, 66776), (66928, 66938, 1, 66967),
     (66940, 66954, 1, 66979), (66956, 66962, 1, 66995), (66964, 66965, 1, 67003),
     (68736, 68786, 1, 68800), (71840, 71871, 1, 71872), (93760, 93791, 1, 93792),
     (125184, 125217, 1, 125218)]"

fun lookup_lower :: "nat \<Rightarrow> (nat \<times> nat \<times> nat \<times> nat) list \<Rightarrow> nat" where
  "lookup_lower c [] = c"
| "lookup_lower c ((a, b, step, t) # runs) =
     (if a \<le> c \<and> c \<le> b \<and> (c - a) mod step = 0 then t + (c - a)
      else lookup_lower c runs)"

definition lower_cp :: "nat \<Rightarrow> nat list" where
  "lower_cp c =
     (if c < 128 then (if 65 \<le> c \<and> c \<le> 90 then [c + 32] else [c])
      else if c = 304 then [105, 775]
      else [lookup_lower c lower_ranges])"

text \<open>
  The two properties of the character database that decide the form of a sigma: the code
  points that are case-ignorable and those that are cased, each as a list of intervals.
\<close>

definition case_ignorable_ranges :: "(nat \<times> nat) list" where
  "case_ignorable_ranges =
    [(39, 39), (46, 46), (58, 58), (94, 94), (96, 96), (168, 168), (173, 173), (175, 175),
     (180, 180), (183, 184), (688, 879), (884, 885), (890, 890), (900, 901), (903, 903),
     (1155, 1161), (1369, 1369), (1375, 1375), (1425, 1469), (1471, 1471), (1473, 1474),
     (1476, 1477), (1479, 1479), (1524, 1524), (1536, 1541), (1552, 1562), (1564, 1564),
     (1600, 1600), (1611, 1631), (1648, 1648), (1750, 1757), (1759, 1768), (1770, 1773),
     (1807, 1807), (1809, 1809), (1840, 1866), (1958, 1968), (2027, 2037), (2042, 2042),
     (2045, 2045), (2070, 2093), (2137, 2139), (2184, 2184), (2192, 2193), (2200, 2207),
     (2249, 2306), (2362, 2362), (2364, 2364), (2369, 2376), (2381, 2381), (2385, 2391),
     (2402, 2403), (2417, 2417), (2433, 2433), (2492, 2492), (2497, 2500), (2509, 2509),
     (2530, 2531), (2558, 2558), (2561, 2562), (2620, 2620), (2625, 2626), (2631, 2632),
     (2635, 2637), (2641, 2641), (2672, 2673), (2677, 2677), (2689, 2690), (2748, 2748),
     (2753, 2757), (2759, 2760), (2765, 2765), (2786, 2787), (2810, 2815), (2817, 2817),
     (2876, 2876), (2879, 2879), (2881, 2884), (2893, 2893), (2901, 2902), (2914, 2915),
     (2946, 2946), (3008, 3008), (3021, 3021), (3072, 3072), (3076, 3076), (3132, 3132),
     (3134, 3136), (3142, 3144), (3146, 3149), (3157, 3158), (3170, 3171), (3201, 3201),
     (3260, 3260), (3263, 3263), (3270, 3270), (3276, 3277), (3298, 3299), (3328, 3329),
     (3387, 3388), (3393, 3396), (3405, 3405), (3426, 3427), (3457, 3457), (3530, 3530),
     (3538, 3540), (3542, 3542), (3633, 3633), (3636, 3642), (3654, 3662), (3761, 3761),
     (3764, 3772), (3782, 3782), (3784, 3789), (3864, 3865), (3893, 3893), (3895, 3895),
     (3897, 3897), (3953, 3966), (3968, 3972), (3974, 3975), (3981, 3991), (3993, 4028),
     (4038, 4038), (4141, 4144), (4146, 4151), (4153, 4154), (4157, 4158), (4184, 4185),
     (4190, 4192), (4209, 4212), (4226, 4226), (4229, 4230), (4237, 4237), (4253, 4253),
     (4348, 4348), (4957, 4959), (5906, 5908), (5938, 5939), (5970, 5971), (6002, 6003),
     (6068, 6069), (6071, 6077), (6086, 6086), (6089, 6099), (6103, 6103), (6109, 6109),
     (6155, 6159), (6211, 6211), (6277, 6278), (6313, 6313), (6432, 6434), (6439, 6440),
     (6450, 6450), (6457, 6459), (6679, 6680), (6683, 6683), (6742, 6742), (6744, 6750),
     (6752, 6752), (6754, 6754), (6757, 6764), (6771, 6780), (6783, 6783), (6823, 6823),
     (6832, 6862), (6912, 6915), (6964, 6964), (6966, 6970), (6972, 6972), (6978, 6978),
     (7019, 7027), (7040, 7041), (7074, 7077), (7080, 7081), (7083, 7085), (7142, 7142),
     (7144, 7145), (7149, 7149), (7151, 7153), (7212, 7219), (7222, 7223), (7288, 7293),
     (7376, 7378), (7380, 7392), (7394, 7400), (7405, 7405), (7412, 7412), (7416, 7417),
     (7468, 7530), (7544, 7544), (7579, 7679), (8125, 8125), (8127, 8129), (8141, 8143),
     (8157, 8159), (8173, 8175), (8189, 8190), (8203, 8207), (8216, 8217), (8228, 8228),
     (8231, 8231), (8234, 8238), (8288, 8292), (8294, 8303), (8305, 8305), (8319, 8319),
     (8336, 8348), (8400, 8432), (11388, 11389), (11503, 11505), (11631, 11631), (11647, 11647),
     (11744, 11775), (11823, 11823), (12293, 12293), (12330, 12333), (12337, 12341),
     (12347, 12347), (12441, 12446), (12540, 12542), (40981, 40981), (42232, 42237),
     (42508, 42508), (42607, 42610), (42612, 42621), (42623, 42623), (42652, 42655),
     (42736, 42737), (42752, 42785), (42864, 42864), (42888, 42890), (42994, 42996),
     (43000, 43001), (43010, 43010), (43014, 43014), (43019, 43019), (43045, 43046),
     (43052, 43052), (43204, 43205), (43232, 43249), (43263, 43263), (43302, 43309),
     (43335, 43345), (43392, 43394), (43443, 43443), (43446, 43449), (43452, 43453),
     (43471, 43471), (43493, 43494), (43561, 43566), (43569, 43570), (43573, 43574),
     (43587, 43587), (43596, 43596), (43632, 43632), (43644, 43644), (43696, 43696),
     (43698, 43700), (43703, 43704), (43710, 43711), (43713, 43713), (43741, 43741),
     (43756, 43757), (43763, 43764), (43766, 43766), (43867, 43871), (43881, 43883),
     (44005, 44005), (44008, 44008), (44013, 44013), (64286, 64286), (64434, 64450),
     (65024, 65039), (65043, 65043), (65056, 65071), (65106, 65106), (65109, 65109),
     (65279, 65279), (65287, 65287), (65294, 65294), (65306, 65306), (65342, 65342),
     (65344, 65344), (65392, 65392), (65438, 65439), (65507, 65507), (65529, 65531),
     (66045, 66045), (66272, 66272), (66422, 66426), (67456, 67461), (67463, 67504),
     (67506, 67514), (68097, 68099), (68101, 68102), (68108, 68111), (68152, 68154),
     (68159, 68159), (68325, 68326), (68900, 68903), (69291, 69292), (69446, 69456),
     (69506, 69509), (69633, 69633), (69688, 69702), (69744, 69744), (69747, 69748),
     (69759, 69761), (69811, 69814), (69817, 69818), (69821, 69821), (69826, 69826),
     (69837, 69837), (69888, 69890), (69927, 69931), (69933, 69940), (70003, 70003),
     (70016, 70017), (70070, 70078), (70089, 70092), (70095, 70095), (70191, 70193),
     (70196, 70196), (70198, 70199), (70206, 70206), (70367, 70367), (70371, 70378),
     (70400, 70401), (70459, 70460), (70464, 70464), (70502, 70508), (70512, 70516),
     (70712, 70719), (70722, 70724), (70726, 70726), (70750, 70750), (70835, 70840),
     (70842, 70842), (70847, 70848), (70850, 70851), (71090, 71093), (71100, 71101),
     (71103, 71104), (71132, 71133), (71219, 71226), (71229, 71229), (71231, 71232),
     (71339, 71339), (71341, 71341), (71344, 71349), (71351, 71351), (71453, 71455),
     (71458, 71461), (71463, 71467), (71727, 71735), (71737, 71738), (71995, 71996),
     (71998, 71998), (72003, 72003), (72148, 72151), (72154, 72155), (72160, 72160),
     (72193, 72202), (72243, 72248), (72251, 72254), (72263, 72263), (72273, 72278),
     (72281, 72283), (72330, 72342), (72344, 72345), (72752, 72758), (72760, 72765),
     (72767, 72767), (72850, 72871), (72874, 72880), (72882, 72883), (72885, 72886),
     (73009, 73014), (73018, 73018), (73020, 73021), (73023, 73029), (73031, 73031),
     (73104, 73105), (73109, 73109), (73111, 73111), (73459, 73460), (78896, 78904),
     (92912, 92916), (92976, 92982), (92992, 92995), (94031, 94031), (94095, 94111),
     (94176, 94177), (94179, 94180), (110576, 110579), (110581, 110587), (110589, 110590),
     (113821, 113822), (113824, 113827), (118528, 118573), (118576, 118598), (119143, 119145),
     (119155, 119170), (119173, 119179), (119210, 119213), (119362, 119364), (121344, 121398),
     (121403, 121452), (121461, 121461), (121476, 121476), (121499, 121503), (121505, 121519),
     (122880, 122886), (122888, 122904), (122907, 122913), (122915, 122916), (122918, 122922),
     (123184, 123197), (123566, 123566), (123628, 123631), (125136, 125142), (125252, 125259),
     (127995, 127999), (917505, 917505), (917536, 917631), (917760, 917999)]"

definition cased_ranges :: "(nat \<times> nat) list" where
  "cased_ranges =
    [(65, 90), (97, 122), (170, 170), (181, 181), (186, 186), (192, 214), (216, 246), (248, 442),
     (444, 447), (452, 659), (661, 696), (704, 705), (736, 740), (837, 837), (880, 883),
     (886, 887), (890, 893), (895, 895), (902, 902), (904, 906), (908, 908), (910, 929),
     (931, 1013), (1015, 1153), (1162, 1327), (1329, 1366), (1376, 1416), (4256, 4293),
     (4295, 4295), (4301, 4301), (4304, 4346), (4349, 4351), (5024, 5109), (5112, 5117),
     (7296, 7304), (7312, 7354), (7357, 7359), (7424, 7615), (7680, 7957), (7960, 7965),
     (7968, 8005), (8008, 8013), (8016, 8023), (8025, 8025), (8027, 8027), (8029, 8029),
     (8031, 8061), (8064, 8116), (8118, 8124), (8126, 8126), (8130, 8132), (8134, 8140),
     (8144, 8147), (8150, 8155), (8160, 8172), (8178, 8180), (8182, 8188), (8305, 8305),
     (8319, 8319), (8336, 8348), (8450, 8450), (8455, 8455), (8458, 8467), (8469, 8469),
     (8473, 8477), (8484, 8484), (8486, 8486), (8488, 8488), (8490, 8493), (8495, 8500),
     (8505, 8505), (8508, 8511), (8517, 8521), (8526, 8526), (8544, 8575), (8579, 8580),
     (9398, 9449), (11264, 11492), (11499, 11502), (11506, 11507), (11520, 11557),
     (11559, 11559), (11565, 11565), (42560, 42605), (42624, 42653), (42786, 42887),
     (42891, 42894), (42896, 42954), (42960, 42961), (42963, 42963), (42965, 42969),
     (42997, 42998), (43000, 43002), (43824, 43866), (43868, 43880), (43888, 43967),
     (64256, 64262), (64275, 64279), (65313, 65338), (65345, 65370), (66560, 66639),
     (66736, 66771), (66776, 66811), (66928, 66938), (66940, 66954), (66956, 66962),
     (66964, 66965), (66967, 66977), (66979, 66993), (66995, 67001), (67003, 67004),
     (67456, 67456), (67459, 67461), (67463, 67504), (67506, 67514), (68736, 68786),
     (68800, 68850), (71840, 71903), (93760, 93823), (119808, 119892), (119894, 119964),
     (119966, 119967), (119970, 119970), (119973, 119974), (119977, 119980), (119982, 119993),
     (119995, 119995), (119997, 120003), (120005, 120069), (120071, 120074), (120077, 120084),
     (120086, 120092), (120094, 120121), (120123, 120126), (120128, 120132), (120134, 120134),
     (120138, 120144), (120146, 120485), (120488, 120512), (120514, 120538), (120540, 120570),
     (120572, 120596), (120598, 120628), (120630, 120654), (120656, 120686), (120688, 120712),
     (120714, 120744), (120746, 120770), (120772, 120779), (122624, 122633), (122635, 122654),
     (125184, 125251), (127280, 127305), (127312, 127337), (127344, 127369)]"

fun in_ranges :: "nat \<Rightarrow> (nat \<times> nat) list \<Rightarrow> bool" where
  "in_ranges c [] = False"
| "in_ranges c ((a, b) # ranges) = ((a \<le> c \<and> c \<le> b) \<or> in_ranges c ranges)"

definition case_ignorable :: "nat \<Rightarrow> bool" where
  "case_ignorable c = in_ranges c case_ignorable_ranges"

definition cased :: "nat \<Rightarrow> bool" where
  "cased c = in_ranges c cased_ranges"

text \<open>
  \<open>handle_capital_sigma\<close>: the sigma is final when, case-ignorable code points skipped,
  a cased code point comes before it and none comes after it. \<open>before\<close> is the text before
  the sigma read backwards, \<open>after\<close> the text after it; both are the text as it was given.
\<close>

definition final_sigma :: "str \<Rightarrow> str \<Rightarrow> bool" where
  "final_sigma before after =
     ((case dropWhile case_ignorable before of [] \<Rightarrow> False | c # cs \<Rightarrow> cased c) \<and>
      (case dropWhile case_ignorable after of [] \<Rightarrow> True | c # cs \<Rightarrow> \<not> cased c))"

fun lower_from :: "str \<Rightarrow> str \<Rightarrow> str" where
  "lower_from before [] = []"
| "lower_from before (c # cs) =
     (if c = 931 then [if final_sigma before cs then 962 else 963] else lower_cp c)
       @ lower_from (c # before) cs"

definition lower :: "str \<Rightarrow> str" where
  "lower s = lower_from [] s"

text \<open>
  \<open>s.split(sep)\<close> for a non-empty separator: a left-to-right scan for non-overlapping
  occurrences of \<open>sep\<close>; the result always has at least one piece. (Python raises
  ValueError for an empty separator; every call site passes a literal one.)
\<close>

function split_from :: "str \<Rightarrow> str \<Rightarrow> str \<Rightarrow> str list" where
  "split_from sep acc [] = [acc]"
| "split_from sep acc (c # cs) =
     (if sep \<noteq> [] \<and> take (length sep) (c # cs) = sep
      then acc # split_from sep [] (drop (length sep) (c # cs))
      else split_from sep (acc @ [c]) cs)"
  by pat_completeness auto
termination
  by (relation "measure (\<lambda>(sep, acc, s). length s)") auto

definition str_split :: "str \<Rightarrow> str \<Rightarrow> str list" where
  "str_split s sep = split_from sep [] s"

text \<open>\<open>sep.join(words)\<close> on a list of strings.\<close>

fun join_strs :: "str \<Rightarrow> str list \<Rightarrow> str" where
  "join_strs sep [] = []"
| "join_strs sep [w] = w"
| "join_strs sep (w # ws) = w @ sep @ join_strs sep ws"

text \<open>\<open>s.replace(old, new)\<close> for a non-empty \<open>old\<close>.\<close>

definition replace :: "str \<Rightarrow> str \<Rightarrow> str \<Rightarrow> str" where
  "replace s old new = join_strs new (str_split s old)"

text \<open>\<open>s.find(sub)\<close>: the first index at which \<open>sub\<close> occurs, \<open>None\<close> for Python's -1.\<close>

fun find_from :: "nat \<Rightarrow> str \<Rightarrow> str \<Rightarrow> nat option" where
  "find_from i sub [] = (if sub = [] then Some i else None)"
| "find_from i sub (c # cs) =
     (if take (length sub) (c # cs) = sub then Some i else find_from (Suc i) sub cs)"

definition str_find :: "str \<Rightarrow> str \<Rightarrow> nat option" where
  "str_find s sub = find_from 0 sub s"

text \<open>
  The exceptions that cross function boundaries. \<open>ExternalError\<close> stands for anything
  raised by a library outside the repository (the tokenizer's dictionary loading, the
  HTTP client, the JSON decoder).
\<close>

datatype exc =
    IndexError
  | TypeError
  | AssertionError str
  | DBAPIError
  | WikiDBExc
  | WikiResNotReceived
  | WikiNoneSearchResults
  | WikiContentNotFound
  | WikiParagraphNotFound
  | WikiSummaryNotFound
  | WikiShortSummary
  | ExternalError

text \<open>
  Modelled from the spec: \<open>exc.py\<close> is not among the sources. The transport failure
  (\<open>WikiResNotReceived\<close>), the empty search (\<open>WikiNoneSearchResults\<close>) and the four
  extraction failures are the retrieval failures, subclasses of \<open>WikiScraperExc\<close>;
  \<open>DBAPIError\<close> is SQLAlchemy's and is not a \<open>WikiDBExc\<close>.
\<close>

fun is_WikiScraperExc :: "exc \<Rightarrow> bool" where
  "is_WikiScraperExc WikiResNotReceived = True"
| "is_WikiScraperExc WikiNoneSearchResults = True"
| "is_WikiScraperExc WikiContentNotFound = True"
| "is_WikiScraperExc WikiParagraphNotFound = True"
| "is_WikiScraperExc WikiSummaryNotFound = True"
| "is_WikiScraperExc WikiShortSummary = True"
| "is_WikiScraperExc _ = False"

fun is_WikiDBExc :: "exc \<Rightarrow> bool" where
  "is_WikiDBExc WikiDBExc = True"
| "is_WikiDBExc _ = False"

fun is_AssertionError :: "exc \<Rightarrow> bool" where
  "is_AssertionError (AssertionError m) = True"
| "is_AssertionError _ = False"

text \<open>\<open>xs[i]\<close> for a non-negative index: IndexError out of range.\<close>

definition index :: "'a list \<Rightarrow> nat \<Rightarrow> exc + 'a" where
  "index xs i = (if i < length xs then Inr (xs ! i) else Inl IndexError)"

datatype logger = wiki_log | db_log | scraper_log | fast_scraper_log | api_scraper_log

datatype level = INFO | WARNING | ERROR | CRITICAL

section \<open>Search parameters, the world and queries\<close>

text \<open>
  Modelled from the spec: \<open>params.py\<close> is not among the sources. The enumerations have
  the members the code names (\<open>WPSearchModes.fast\<close>, \<open>.default\<close>,
  \<open>WPSearchPriority.content\<close>, \<open>WPQueryTreatments.without\<close>, \<open>WPDBSearch.yes\<close>,
  \<open>.no\<close>, \<open>WPDBSearchByURL.no\<close>) and the other member the spec lists for each.
\<close>

datatype WPSearchModes = mode_fast | mode_default
datatype WPSearchPriority = title | content
datatype WPQueryTreatments = without | normalize
datatype WPDBSearch = db_yes | db_no
datatype WPDBSearchByURL = url_yes | url_no

record WikiSearchParams =
  mode :: WPSearchModes
  priority :: WPSearchPriority
  number_of_results :: int
  query_treatment :: WPQueryTreatments
  db_search :: WPDBSearch
  db_search_by_url :: WPDBSearchByURL

record request =
  req_url :: str
  req_params :: "(str \<times> int) option"

text \<open>
  Everything a call can read and change: the heap of \<open>WikiSearchParams\<close> objects
  (a parameter is a reference, so that a mutation is seen by every holder of the
  object), the log records written so far, the HTTP requests issued so far, the
  database and the engine's \<open>__db_configured\<close> flag.
\<close>

record 's world =
  params_heap :: "nat \<Rightarrow> WikiSearchParams"
  logs :: "(logger \<times> level \<times> str) list"
  http :: "request list"
  db :: 's
  db_configured :: bool

definition write_log :: "logger \<Rightarrow> level \<Rightarrow> str \<Rightarrow> 's world \<Rightarrow> 's world" where
  "write_log l lv m w = w\<lparr>logs := logs w @ [(l, lv, m)]\<rparr>"

text \<open>
  \<open>logged P w w'\<close>: the world \<open>w'\<close> has the log of \<open>w\<close> followed by new records that
  all satisfy \<open>P\<close>. It is how the theorems below speak of what a call has written.
\<close>

definition logged :: "(logger \<times> level \<times> str \<Rightarrow> bool) \<Rightarrow> 's world \<Rightarrow> 's world \<Rightarrow> bool" where
  "logged P w w' = (\<exists>l. logs w' = logs w @ l \<and> list_all P l)"

text \<open>\<open>config.py\<close>: the words that will be removed.\<close>

definition query_clean_list :: "str list" where
  "query_clean_list =
     [lit ''what'', lit ''where'', lit ''who'', lit ''why'', lit ''when'', lit ''that'',
      lit ''this'', lit ''how'',
      [1095, 1090, 1086], [1090, 1072, 1082, 1086, 1077], [1075, 1076, 1077],
      [1082, 1090, 1086], [1079, 1072, 1095, 1077, 1084], [1082, 1091, 1076, 1072],
      [1082, 1086, 1075, 1076, 1072], [1090, 1072, 1082, 1080, 1077],
      [1090, 1072, 1082, 1086, 1081], [1090, 1072, 1082, 1086, 1075, 1086],
      [1082, 1072, 1082], [1082, 1072, 1082, 1086, 1081], [1090, 1072, 1082, 1072, 1103]]"

text \<open>
  An element of \<open>words_list\<close> in \<open>WikiQuery.__clean\<close>: the word itself, or the
  \<open>Ellipsis\<close> object that the conditional expression puts in a stop word's place.
\<close>

datatype word_item = Word str | Ellipsis

fun words_of :: "word_item list \<Rightarrow> str list option" where
  "words_of [] = Some []"
| "words_of (Word w # xs) = (case words_of xs of None \<Rightarrow> None | Some ws \<Rightarrow> Some (w # ws))"
| "words_of (Ellipsis # xs) = None"

text \<open>\<open>sep.join(items)\<close>: TypeError as soon as an item is not a string.\<close>

definition join :: "str \<Rightarrow> word_item list \<Rightarrow> exc + str" where
  "join sep items = (case words_of items of None \<Rightarrow> Inl TypeError | Some ws \<Rightarrow> Inr (join_strs sep ws))"

record WikiQuery =
  raw_query :: str
  q_lang :: str
  search_params :: nat
  is_link :: "bool option"
  query :: str

text \<open>
  \<open>WikiQuery.__link_checker\<close>. It returns True, False, or falls off the end of the
  function (Python's None) when the scheme is https but the host is not Wikipedia's;
  it may replace the language and may write to the shared parameters object.
\<close>

definition link_checker :: "str \<Rightarrow> str \<Rightarrow> nat \<Rightarrow> 's world \<Rightarrow> (exc + bool option \<times> str) \<times> 's world" where
  "link_checker raw lang sp w =
     (let split = str_split raw (lit ''//'') in
      case index split 0 of Inl e \<Rightarrow> (Inl e, w) | Inr s0 \<Rightarrow>
      if s0 = lit ''https:'' then
        (case index split 1 of Inl e \<Rightarrow> (Inl e, w) | Inr s1 \<Rightarrow>
         case index (str_split s1 (lit ''/'')) 0 of Inl e \<Rightarrow> (Inl e, w) | Inr host \<Rightarrow>
         let split_query = str_split host (lit ''.'');
             split_len = length split_query
         in case (if split_len = 2 then index split_query 0 else index split_query 1) of
              Inl e \<Rightarrow> (Inl e, w)
            | Inr label \<Rightarrow>
                if label = lit ''wikipedia'' then
                  (case (if split_len = 3 then index split_query 0 else Inr lang) of
                     Inl e \<Rightarrow> (Inl e, w)
                   | Inr lang' \<Rightarrow>
                       (Inr (Some True, lang'),
                        if db_search_by_url (params_heap w sp) = url_no
                        then w\<lparr>params_heap := (params_heap w)(sp := (params_heap w sp)\<lparr>db_search := db_no\<rparr>)\<rparr>
                        else w))
                else (Inr (None, lang), w))
      else (Inr (Some False, lang), w))"

text \<open>
  \<open>WikiQuery.__clean\<close>. The tokenizer \<open>SpellChecker(language=lang).split_words\<close> is
  an external library: it is the parameter \<open>tok\<close>, from the language and the raw
  query to the tokens, or to the exception it raises.
\<close>

definition clean :: "(str \<Rightarrow> str \<Rightarrow> exc + str list) \<Rightarrow> str \<Rightarrow> str \<Rightarrow> nat \<Rightarrow> bool option \<Rightarrow> 's world \<Rightarrow> (exc + str) \<times> 's world" where
  "clean tok raw lang sp il w =
     (if il = Some True then (Inr raw, w)
      else if query_treatment (params_heap w sp) = without then (Inr (replace raw (lit '' '') (lit ''_'')), w)
      else case tok lang raw of
             Inl e \<Rightarrow> (Inl e, w)
           | Inr spell_split \<Rightarrow>
               (let words_list = map (\<lambda>word. if lower word \<notin> set query_clean_list then Word word else Ellipsis) spell_split
                in case join (lit ''_'') words_list of
                     Inl e \<Rightarrow> (Inl e, w)
                   | Inr result \<Rightarrow>
                       if result = []
                       then (Inr (replace raw (lit '' '') (lit ''_'')),
                             write_log wiki_log WARNING (lit ''Failed to clean search query'') w)
                       else (Inr result, w)))"

text \<open>\<open>WikiQuery.__init__\<close>: link detection, then cleaning.\<close>

definition WikiQuery_init :: "(str \<Rightarrow> str \<Rightarrow> exc + str list) \<Rightarrow> str \<Rightarrow> str \<Rightarrow> nat \<Rightarrow> 's world \<Rightarrow> (exc + WikiQuery) \<times> 's world" where
  "WikiQuery_init tok raw lang sp w =
     (case link_checker raw lang sp w of
        (Inl e, w1) \<Rightarrow> (Inl e, w1)
      | (Inr (il, lang'), w1) \<Rightarrow>
          (case clean tok raw lang' sp il w1 of
             (Inl e, w2) \<Rightarrow> (Inl e, w2)
           | (Inr q, w2) \<Rightarrow>
               (Inr \<lparr>raw_query = raw, q_lang = lang', search_params = sp, is_link = il, query = q\<rparr>, w2)))"

section \<open>Results\<close>

definition wiki_search_url :: "str \<Rightarrow> str \<Rightarrow> str" where
  "wiki_search_url lang endpoint =
     lit ''https://api.wikimedia.org/core/v1/wikipedia/'' @ lang @ lit ''/search/'' @ endpoint"

definition wiki_page_url :: "str \<Rightarrow> str \<Rightarrow> str" where
  "wiki_page_url lang key = lit ''https://'' @ lang @ lit ''.wikipedia.org/wiki/'' @ key"

text \<open>
  \<open>WikiSimpleResult\<close> defines no \<open>__eq__\<close>, so \<open>list.remove\<close> compares objects by
  identity: \<open>oid\<close> is the identity of the object, and two records are equal exactly
  when they are the same object.
\<close>

record WikiSimpleResult =
  oid :: nat
  sr_title :: str
  sr_lang :: str
  sr_raw_link :: str
  sr_link :: str

text \<open>\<open>WikiSimpleResult.__init__\<close> with the \<open>raw_link\<close> setter.\<close>

definition WikiSimpleResult_init :: "nat \<Rightarrow> str \<Rightarrow> str \<Rightarrow> str \<Rightarrow> WikiSimpleResult" where
  "WikiSimpleResult_init i title' raw_link lang =
     (let raw_link' = (case str_find raw_link (lit ''/wiki/'') of
                         None \<Rightarrow> raw_link
                       | Some wiki \<Rightarrow> drop (wiki + length (lit ''/wiki/'')) raw_link)
      in \<lparr>oid = i, sr_title = title', sr_lang = lang, sr_raw_link = raw_link',
          sr_link = wiki_page_url lang raw_link'\<rparr>)"

text \<open>
  The loop of the \<open>simple_results\<close> setter: \<open>for result in simple_results\<close> reads the
  list by a running index while \<open>simple_results.remove(result)\<close> shortens the same list.
\<close>

function remove_self :: "str \<Rightarrow> nat \<Rightarrow> WikiSimpleResult list \<Rightarrow> WikiSimpleResult list" where
  "remove_self title' i xs =
     (if i < length xs
      then (if lower (sr_title (xs ! i)) = lower title'
            then remove_self title' (Suc i) (remove1 (xs ! i) xs)
            else remove_self title' (Suc i) xs)
      else xs)"
  by pat_completeness auto
termination
  by (relation "measure (\<lambda>(t, i, xs). length xs - i)") (auto simp: length_remove1)

text \<open>The \<open>simple_results\<close> setter: \<open>simple_results[:5] if simple_results else None\<close>.\<close>

definition set_simple_results :: "str \<Rightarrow> WikiSimpleResult list option \<Rightarrow> WikiSimpleResult list option" where
  "set_simple_results title' srs =
     (case srs of
        None \<Rightarrow> None
      | Some xs \<Rightarrow> (let xs' = remove_self title' 0 xs in if xs' \<noteq> [] then Some (take 5 xs') else None))"

record WikiResult =
  r_key :: str
  r_title :: str
  r_lang :: str
  r_url :: str
  r_summary :: str
  simple_results :: "WikiSimpleResult list option"

definition WikiResult_init :: "str \<Rightarrow> str \<Rightarrow> str \<Rightarrow> str \<Rightarrow> WikiSimpleResult list option \<Rightarrow> WikiResult" where
  "WikiResult_init key title' lang summary srs =
     \<lparr>r_key = key, r_title = title', r_lang = lang, r_url = wiki_page_url lang key,
      r_summary = summary, simple_results = set_simple_results title' srs\<rparr>"

section \<open>The database searcher\<close>

text \<open>
  Modelled from the spec: \<open>database/tables.py\<close> and \<open>database/orm.py\<close> are not among
  the sources. A page row has the columns that \<open>db_searcher.py\<close> reads; the ORM session
  is the record of the operations that \<open>db_searcher.py\<close> and \<open>engine.py\<close> call, each
  a function of the database state \<open>'s\<close> that returns its result or the exception raised.
\<close>

record WikiDBPages =
  page_id :: int
  page_key :: str
  page_title :: str
  page_lang :: str
  page_summary :: str
  simple_result1 :: "str option"
  simple_result2 :: "str option"
  simple_result3 :: "str option"
  simple_result4 :: "str option"
  simple_result5 :: "str option"

record 's WikiDBOrm =
  select_page_by_key :: "str \<Rightarrow> str \<Rightarrow> 's \<Rightarrow> exc + WikiDBPages option"
  select_page_by_query :: "str \<Rightarrow> str \<Rightarrow> 's \<Rightarrow> exc + WikiDBPages option"
  select_page_id_by_key :: "str \<Rightarrow> str \<Rightarrow> 's \<Rightarrow> exc + int option"
  add_page :: "WikiResult \<Rightarrow> 's \<Rightarrow> exc + WikiDBPages \<times> 's"
  select_query_id :: "str \<Rightarrow> str \<Rightarrow> int \<Rightarrow> 's \<Rightarrow> exc + int option"
  add_query :: "str \<Rightarrow> str \<Rightarrow> int \<Rightarrow> 's \<Rightarrow> exc + 's"
  create_all :: "'s \<Rightarrow> exc + 's"
  drop_all :: "'s \<Rightarrow> exc + 's"

text \<open>\<open>WikiDBSearcher\<close> with its engine \<open>WikiDB\<close>: the session factory and the drop flag.\<close>

record 's WikiDBSearcher =
  orm :: "'s WikiDBOrm"
  db_drop_param :: bool

definition drop_db :: "'s WikiDBSearcher \<Rightarrow> 's world \<Rightarrow> (exc + unit) \<times> 's world" where
  "drop_db D w =
     (case drop_all (orm D) (db w) of
        Inl e \<Rightarrow> (Inl e, w)
      | Inr s \<Rightarrow> (Inr (), write_log db_log INFO (lit ''Database dropped success'') (w\<lparr>db := s\<rparr>)))"

definition create_db :: "'s WikiDBSearcher \<Rightarrow> 's world \<Rightarrow> (exc + unit) \<times> 's world" where
  "create_db D w =
     (case create_all (orm D) (db w) of
        Inl e \<Rightarrow> (Inl e, w)
      | Inr s \<Rightarrow> (Inr (), write_log db_log INFO (lit ''All tables created'') (w\<lparr>db := s\<rparr>)))"

definition setup_db :: "'s WikiDBSearcher \<Rightarrow> 's world \<Rightarrow> (exc + unit) \<times> 's world" where
  "setup_db D w =
     (if db_configured w then (Inr (), write_log db_log WARNING (lit ''Database already configured'') w)
      else case (if db_drop_param D then drop_db D w else (Inr (), w)) of
             (Inl e, w1) \<Rightarrow> (Inl e, w1)
           | (Inr u, w1) \<Rightarrow>
               (case create_db D w1 of
                  (Inl e, w2) \<Rightarrow> (Inl e, w2)
                | (Inr u', w2) \<Rightarrow>
                    (Inr (), write_log db_log INFO (lit ''Database successful configured'')
                               (w2\<lparr>db_configured := True\<rparr>))))"

text \<open>
  \<open>WikiDB.orm_decorator\<close>: the wrapper sets the database up on first use and forwards
  an ORM session to the wrapped function.
\<close>

definition orm_decorator :: "'s WikiDBSearcher \<Rightarrow> ('s WikiDBOrm \<Rightarrow> 's world \<Rightarrow> (exc + 'a) \<times> 's world) \<Rightarrow> 's world \<Rightarrow> (exc + 'a) \<times> 's world" where
  "orm_decorator D func w =
     (case (if \<not> db_configured w then setup_db D w else (Inr (), w)) of
        (Inl e, w1) \<Rightarrow> (Inl e, w1)
      | (Inr u, w1) \<Rightarrow> func (orm D) w1)"

text \<open>\<open>WikiDBSearcher.__simple_results_converter\<close>; in fast mode it returns None.\<close>

definition simple_results_converter :: "WikiDBPages \<Rightarrow> WPSearchModes \<Rightarrow> WikiSimpleResult list option" where
  "simple_results_converter page search_mode =
     (if search_mode = mode_default
      then (let raw_simple_results = [simple_result1 page, simple_result2 page, simple_result3 page,
                                      simple_result4 page, simple_result5 page];
                kept = filter (\<lambda>res. res \<noteq> []) (List.map_filter id raw_simple_results)
            in Some (map (\<lambda>(i, res). WikiSimpleResult_init i (hd (str_split res (lit ''|'')))
                                       (last (str_split res (lit ''|''))) (page_lang page))
                         (enumerate 0 kept)))
      else None)"

text \<open>\<open>WikiDBSearcher.__search\<close>, for a \<open>WikiQuery\<close> argument.\<close>

definition db_search_impl :: "WikiQuery \<Rightarrow> 's WikiDBOrm \<Rightarrow> 's world \<Rightarrow> (exc + WikiResult option) \<times> 's world" where
  "db_search_impl wiki_query orm' w =
     (let w1 = write_log db_log INFO (lit ''Searching in database started'') w;
          lang = q_lang wiki_query;
          search_params' = params_heap w1 (search_params wiki_query)
      in case (if is_link wiki_query = Some True
               then select_page_by_key orm' (last (str_split (query wiki_query) (lit ''/''))) lang (db w1)
               else select_page_by_query orm' (query wiki_query) lang (db w1)) of
           Inl e \<Rightarrow> (Inl e, w1)
         | Inr None \<Rightarrow> (Inr None, write_log db_log WARNING (lit ''Page not found in database'') w1)
         | Inr (Some page) \<Rightarrow>
             (let srs = simple_results_converter page (mode search_params')
              in (Inr (Some (WikiResult_init (page_key page) (page_title page) (page_lang page)
                               (page_summary page) srs)),
                  write_log db_log INFO (lit ''Page found in database in {}'') w1)))"

text \<open>
  \<open>WikiDBSearcher.__save_result\<close>. A \<open>DBAPIError\<close> raised by an insert is logged as
  critical and raised again; any other exception passes through unlogged.
\<close>

definition save_result_impl :: "str \<Rightarrow> WikiResult \<Rightarrow> 's WikiDBOrm \<Rightarrow> 's world \<Rightarrow> (exc + unit) \<times> 's world" where
  "save_result_impl query' result orm' w =
     (if simple_results result \<noteq> None \<and> simple_results result \<noteq> Some []
      then
        (let w1 = write_log db_log INFO (lit ''Save result'') w;
             q = lower query'
         in case select_page_id_by_key orm' (r_key result) (r_lang result) (db w1) of
              Inl e \<Rightarrow> (Inl e, w1)
            | Inr found \<Rightarrow>
                (case (case found of
                         None \<Rightarrow>
                           (case add_page orm' result (db w1) of
                              Inl e \<Rightarrow>
                                (Inl e, if e = DBAPIError
                                        then write_log db_log CRITICAL (lit ''Failed to save page to database:'' @ [10] @ lit ''{}'') w1
                                        else w1)
                            | Inr (row, s) \<Rightarrow>
                                (Inr (page_id row), write_log db_log INFO (lit ''Page saved in database'') (w1\<lparr>db := s\<rparr>)))
                       | Some pid \<Rightarrow> (Inr pid, write_log db_log WARNING (lit ''This page already exist'') w1)) of
                   (Inl e, w2) \<Rightarrow> (Inl e, w2)
                 | (Inr pid, w2) \<Rightarrow>
                     (case select_query_id orm' q (r_lang result) pid (db w2) of
                        Inl e \<Rightarrow> (Inl e, w2)
                      | Inr None \<Rightarrow>
                          (case add_query orm' q (r_lang result) pid (db w2) of
                             Inl e \<Rightarrow>
                               (Inl e, if e = DBAPIError
                                       then write_log db_log CRITICAL (lit ''Failed to save search query to database:'' @ [10] @ lit ''{}'') w2
                                       else w2)
                           | Inr s \<Rightarrow>
                               (Inr (), write_log db_log INFO (lit ''Result saved in {} sec'')
                                          (write_log db_log INFO (lit ''Search query saved in database'') (w2\<lparr>db := s\<rparr>))))
                      | Inr (Some qid) \<Rightarrow>
                          (Inr (), write_log db_log INFO (lit ''Result saved in {} sec'')
                                     (write_log db_log WARNING (lit ''Search query already exist'') w2)))))
      else (Inr (), w))"

text \<open>The public \<open>WikiDBSearcher.search\<close> and \<open>WikiDBSearcher.save_result\<close>.\<close>

definition db_searcher_search :: "'s WikiDBSearcher \<Rightarrow> WikiQuery \<Rightarrow> 's world \<Rightarrow> (exc + WikiResult option) \<times> 's world" where
  "db_searcher_search D wiki_query w = orm_decorator D (db_search_impl wiki_query) w"

definition save_result :: "'s WikiDBSearcher \<Rightarrow> str \<Rightarrow> WikiResult \<Rightarrow> 's world \<Rightarrow> (exc + unit) \<times> 's world" where
  "save_result D query' result w = orm_decorator D (save_result_impl query' result) w"

section \<open>The web searchers\<close>

record response =
  status :: int
  text_body :: str
  pages :: "(str \<times> str) list"

text \<open>
  The collaborators outside the repository: the tokenizer, the remote site (a function
  of the requests issued so far and of the request; \<open>pages\<close> is the decoded list of
  (title, key) objects under the \<open>pages\<close> field of a search response), and the page
  extraction of \<open>WikipediaParser.parse\<close>, which rests on BeautifulSoup: \<open>parse\<close> for
  (key, title, summary) and \<open>parse_summary\<close> for \<open>summary_only=True\<close>. The
  \<open>WikiSearcher\<close> object holds the database searcher or None.
\<close>

record 's env =
  tok :: "str \<Rightarrow> str \<Rightarrow> exc + str list"
  remote :: "request list \<Rightarrow> request \<Rightarrow> exc + response"
  parse :: "str \<Rightarrow> exc + str \<times> str \<times> str"
  parse_summary :: "str \<Rightarrow> exc + str"
  db_searcher :: "'s WikiDBSearcher option"

text \<open>\<open>utils.get_response\<close>: one GET; any status but 200 is \<open>WikiResNotReceived\<close>.\<close>

definition get_response :: "'s env \<Rightarrow> logger \<Rightarrow> request \<Rightarrow> 's world \<Rightarrow> (exc + response) \<times> 's world" where
  "get_response E lg rq w =
     (let w1 = w\<lparr>http := http w @ [rq]\<rparr>
      in case remote E (http w) rq of
           Inl e \<Rightarrow> (Inl e, w1)
         | Inr resp \<Rightarrow>
             if status resp \<noteq> 200
             then (Inl WikiResNotReceived, write_log lg ERROR (lit ''Failed get response'') w1)
             else (Inr resp, w1))"

text \<open>\<open>WikiFastWebSearcher.fast_search\<close>.\<close>

definition fast_search :: "'s env \<Rightarrow> WikiQuery \<Rightarrow> 's world \<Rightarrow> (exc + WikiResult) \<times> 's world" where
  "fast_search E wiki_query w =
     (let w1 = write_log fast_scraper_log INFO (lit ''Fast scraper started'') w;
          lang = q_lang wiki_query;
          page_url = (if is_link wiki_query \<noteq> Some True then wiki_page_url lang (query wiki_query)
                      else query wiki_query)
      in case get_response E fast_scraper_log \<lparr>req_url = page_url, req_params = None\<rparr> w1 of
           (Inl e, w2) \<Rightarrow> (Inl e, w2)
         | (Inr resp, w2) \<Rightarrow>
             (let w3 = write_log fast_scraper_log INFO (lit ''Page received in {} sec'') w2
              in case parse E (text_body resp) of
                   Inl e \<Rightarrow> (Inl e, w3)
                 | Inr (key, title', summary) \<Rightarrow> (Inr (WikiResult_init key title' lang summary None), w3)))"

text \<open>
  The loop of \<open>__api_search_page\<close>: every page is appended, and the loop breaks when
  \<open>i + 1\<close> equals \<open>number_of_results\<close> (by then the over-fetch limit).
\<close>

function collect_pages :: "int \<Rightarrow> (str \<times> str) list \<Rightarrow> nat \<Rightarrow> str list \<Rightarrow> str list \<Rightarrow> str list \<times> str list" where
  "collect_pages n ps i title_list key_list =
     (if i < length ps
      then (let page = ps ! i;
                title_list' = title_list @ [fst page];
                key_list' = key_list @ [snd page]
            in if int i + 1 = n then (title_list', key_list')
               else collect_pages n ps (Suc i) title_list' key_list')
      else (title_list, key_list))"
  by pat_completeness auto
termination
  by (relation "measure (\<lambda>(n, ps, i, tl, kl). length ps - i)") auto

text \<open>
  \<open>WikiApiWebSearcher.__api_search_page\<close>. The two search requests are started together
  (the title one first); both are issued before either result is looked at.
\<close>

definition api_search_page :: "'s env \<Rightarrow> WikiQuery \<Rightarrow> 's world \<Rightarrow> (exc + str list \<times> str list) \<times> 's world" where
  "api_search_page E wiki_query w =
     (let search_params' = params_heap w (search_params wiki_query);
          n0 = number_of_results search_params';
          n = n0 + n0 * 5;
          title_search_url = wiki_search_url (q_lang wiki_query) (lit ''title'');
          page_search_url = wiki_search_url (q_lang wiki_query) (lit ''page'');
          kwargs = Some (query wiki_query, n)
      in case get_response E api_scraper_log \<lparr>req_url = title_search_url, req_params = kwargs\<rparr> w of
           (r1, w1) \<Rightarrow>
         case get_response E api_scraper_log \<lparr>req_url = page_search_url, req_params = kwargs\<rparr> w1 of
           (r2, w2) \<Rightarrow>
         case r1 of Inl e \<Rightarrow> (Inl e, w2) | Inr results_by_title \<Rightarrow>
         case r2 of Inl e \<Rightarrow> (Inl e, w2) | Inr results_by_content \<Rightarrow>
         (let title_pages = pages results_by_title;
              content_pages = pages results_by_content
          in case (if priority search_params' = content
                   then (if content_pages \<noteq> [] then (content_pages, w2)
                         else (title_pages, write_log api_scraper_log WARNING (lit ''Search priority changed to title'') w2))
                   else (if title_pages \<noteq> [] then (title_pages, w2)
                         else (content_pages, write_log api_scraper_log WARNING (lit ''Search priority changed to content'') w2))) of
               (ps, w3) \<Rightarrow>
                 if length ps = 0
                 then (Inl WikiNoneSearchResults, write_log api_scraper_log ERROR (lit ''Not received any results'') w3)
                 else (Inr (collect_pages n ps 0 [] []),
                       write_log api_scraper_log INFO (lit ''Search results received in {} sec'') w3)))"

definition api_get_page :: "'s env \<Rightarrow> str \<Rightarrow> str \<Rightarrow> 's world \<Rightarrow> (exc + str) \<times> 's world" where
  "api_get_page E key lang w =
     (case get_response E api_scraper_log \<lparr>req_url = wiki_page_url lang key, req_params = None\<rparr> w of
        (Inl e, w1) \<Rightarrow> (Inl e, w1)
      | (Inr resp, w1) \<Rightarrow> (Inr (text_body resp), write_log api_scraper_log INFO (lit ''Page received in {} sec'') w1))"

text \<open>\<open>__get_links\<close>: one new \<open>WikiSimpleResult\<close> per title, in order.\<close>

definition get_links :: "str list \<times> str list \<Rightarrow> str \<Rightarrow> exc + WikiSimpleResult list" where
  "get_links search_result lang =
     (let title_list = fst search_result; key_list = snd search_result
      in if length key_list < length title_list then Inl IndexError
         else Inr (map (\<lambda>i. WikiSimpleResult_init i (title_list ! i) (key_list ! i) lang)
                       [0 ..< length title_list]))"

text \<open>\<open>WikiApiWebSearcher.api_search\<close>.\<close>

definition api_search :: "'s env \<Rightarrow> WikiQuery \<Rightarrow> 's world \<Rightarrow> (exc + WikiResult) \<times> 's world" where
  "api_search E wiki_query w =
     (let w1 = write_log api_scraper_log INFO (lit ''API scraper started'') w;
          lang = q_lang wiki_query
      in case api_search_page E wiki_query w1 of
           (Inl e, w2) \<Rightarrow> (Inl e, w2)
         | (Inr search_results, w2) \<Rightarrow>
             (case index (snd search_results) 0 of Inl e \<Rightarrow> (Inl e, w2) | Inr key \<Rightarrow>
              case index (fst search_results) 0 of Inl e \<Rightarrow> (Inl e, w2) | Inr title' \<Rightarrow>
              case api_get_page E key lang w2 of
                (r1, w3) \<Rightarrow>
              case r1 of Inl e \<Rightarrow> (Inl e, w3) | Inr page \<Rightarrow>
              case get_links search_results lang of Inl e \<Rightarrow> (Inl e, w3) | Inr srs \<Rightarrow>
              case parse_summary E page of
                Inl e \<Rightarrow> (Inl e, w3)
              | Inr summary \<Rightarrow> (Inr (WikiResult_init key title' lang summary (Some srs)), w3)))"

text \<open>
  \<open>WikiWebSearcher.search\<close>, for a \<open>WikiQuery\<close> argument: the fast scraper when the
  assertion holds, then the API scraper if the fast one was skipped or failed.
\<close>

definition web_finish :: "WikiResult option \<Rightarrow> 's world \<Rightarrow> (exc + WikiResult option) \<times> 's world" where
  "web_finish result w =
     (Inr result,
      if result = None then write_log scraper_log WARNING (lit ''Scrapers not found anything'') w
      else write_log scraper_log INFO (lit ''Scraping finished in {} sec'') w)"

definition web_search :: "'s env \<Rightarrow> WikiQuery \<Rightarrow> 's world \<Rightarrow> (exc + WikiResult option) \<times> 's world" where
  "web_search E wiki_query w =
     (let w1 = write_log scraper_log INFO (lit ''Scraping started'') w;
          search_params' = params_heap w1 (search_params wiki_query)
      in case (if mode search_params' = mode_fast \<or> is_link wiki_query = Some True
               then fast_search E wiki_query (write_log scraper_log INFO (lit ''Use Fast scraper'') w1)
               else (Inl (AssertionError (lit ''Use API scraper'')), w1)) of
           (Inr result, w2) \<Rightarrow> web_finish (Some result) w2
         | (Inl error, w2) \<Rightarrow>
             if is_WikiScraperExc error \<or> is_AssertionError error
             then
               (let w3 = (case error of
                            AssertionError m \<Rightarrow> write_log scraper_log INFO m w2
                          | _ \<Rightarrow> write_log scraper_log WARNING (lit ''Scraper changed on API'')
                                  (write_log fast_scraper_log WARNING (lit ''Fast scraper not found anything'') w2))
                in case api_search E wiki_query w3 of
                     (Inr result, w4) \<Rightarrow> web_finish (Some result) w4
                   | (Inl e, w4) \<Rightarrow>
                       if is_WikiScraperExc e
                       then web_finish None (write_log api_scraper_log WARNING (lit ''API scraper not found anything'') w4)
                       else (Inl e, w4))
             else (Inl error, w2))"

section \<open>The top-level searcher\<close>

text \<open>
  The default value of the \<open>search_params\<close> argument is one \<open>WikiSearchParams()\<close>
  object built when \<open>search\<close> is defined; it lives at this address of the heap.
\<close>

definition default_search_params :: nat where
  "default_search_params = 0"

text \<open>The body of the \<open>try\<close> of \<open>WikiSearcher.search\<close>: both assertions and the lookup.\<close>

definition search_try :: "'s env \<Rightarrow> WikiQuery \<Rightarrow> nat \<Rightarrow> 's world \<Rightarrow> (exc + WikiResult) \<times> 's world" where
  "search_try E wiki_query sp w =
     (case db_searcher E of
        None \<Rightarrow> (Inl (AssertionError (lit ''Don`t search in database'')), w)
      | Some D \<Rightarrow>
          if db_search (params_heap w sp) = db_yes
          then (case db_searcher_search D wiki_query w of
                  (Inl e, w1) \<Rightarrow> (Inl e, w1)
                | (Inr None, w1) \<Rightarrow> (Inl (AssertionError []), w1)
                | (Inr (Some result), w1) \<Rightarrow> (Inr result, w1))
          else (Inl (AssertionError (lit ''Don`t search in database'')), w))"

text \<open>
  The handler \<open>except (WikiDBExc, AssertionError)\<close>: the web search, then the
  write-back. An exception raised in here is outside the \<open>try\<close> and leaves \<open>search\<close>.
\<close>

definition search_except :: "'s env \<Rightarrow> WikiQuery \<Rightarrow> nat \<Rightarrow> exc \<Rightarrow> 's world \<Rightarrow> (exc + WikiResult option) \<times> 's world" where
  "search_except E wiki_query sp error w =
     (let w1 = (case error of
                  AssertionError m \<Rightarrow> if m \<noteq> [] then write_log wiki_log WARNING m w else w
                | _ \<Rightarrow> w)
      in case web_search E wiki_query w1 of
           (Inl e, w2) \<Rightarrow> (Inl e, w2)
         | (Inr None, w2) \<Rightarrow> (Inr None, write_log wiki_log WARNING (lit ''Searchers not found anything'') w2)
         | (Inr (Some result), w2) \<Rightarrow>
             (case (case db_searcher E of
                      None \<Rightarrow> (Inr (), write_log wiki_log WARNING (lit ''Don`t save result in database'') w2)
                    | Some D \<Rightarrow>
                        if is_link wiki_query = Some True
                           \<or> query_treatment (params_heap w2 sp) = without
                        then (Inr (), write_log wiki_log WARNING (lit ''Don`t save result in database'') w2)
                        else save_result D (query wiki_query) result w2) of
                (Inl e, w3) \<Rightarrow> (Inl e, w3)
              | (Inr u, w3) \<Rightarrow>
                  (Inr (Some result), write_log wiki_log INFO (lit ''Result got in {} sec'') w3)))"

text \<open>\<open>WikiSearcher.search\<close>; \<open>None\<close> for \<open>search_params\<close> is the omitted argument.\<close>

definition search :: "'s env \<Rightarrow> str \<Rightarrow> str \<Rightarrow> nat option \<Rightarrow> 's world \<Rightarrow> (exc + WikiResult option) \<times> 's world" where
  "search E query' lang search_params' w =
     (let sp = (case search_params' of None \<Rightarrow> default_search_params | Some r \<Rightarrow> r);
          w0 = write_log wiki_log INFO (lit ''Searching started'') w
      in case WikiQuery_init (tok E) query' lang sp w0 of
           (Inl e, w1) \<Rightarrow> (Inl e, w1)
         | (Inr wiki_query, w1) \<Rightarrow>
             (let w2 = write_log wiki_log INFO
                         (lit ''Search query '' @ [39] @ query wiki_query @ [39] @ lit '' accepted'') w1
              in case search_try E wiki_query sp w2 of
                   (Inr result, w3) \<Rightarrow>
                     (Inr (Some result), write_log wiki_log INFO (lit ''Result got in {} sec'') w3)
                 | (Inl error, w3) \<Rightarrow>
                     if is_WikiDBExc error \<or> is_AssertionError error
                     then search_except E wiki_query sp error w3
                     else (Inl error, w3)))"

section \<open>The cache store\<close>

text \<open>
  Modelled from the spec: \<open>database/orm.py\<close> and \<open>database/tables.py\<close> are not among
  the sources. The store is the two tables of the spec's data model, each a list of rows
  in insertion order. \<open>findPageByKey\<close> and \<open>findPageIdByQuery\<close> return the first row
  that matches exactly; \<open>findPageByQuery\<close> follows the first matching query mapping to
  its page; \<open>insertPage\<close> stores the full row, with up to 5 related results as
  "title|reference" strings, under a fresh identity; \<open>insertQueryMapping\<close> stores the
  (query text, language, page identity) triple. \<open>createAll\<close> leaves existing rows
  alone and \<open>dropAll\<close> empties both tables.
\<close>

record WikiDBQueries =
  mq_id :: int
  mq_query :: str
  mq_lang :: str
  mq_page_id :: int

record store =
  pages_table :: "WikiDBPages list"
  queries_table :: "WikiDBQueries list"

definition next_id :: "int list \<Rightarrow> int" where
  "next_id ids = 1 + fold max ids 0"

definition stored_result :: "WikiSimpleResult list option \<Rightarrow> nat \<Rightarrow> str option" where
  "stored_result srs i =
     (case srs of
        None \<Rightarrow> None
      | Some xs \<Rightarrow> if i < length xs then Some (sr_title (xs ! i) @ lit ''|'' @ sr_raw_link (xs ! i)) else None)"

definition page_row :: "int \<Rightarrow> WikiResult \<Rightarrow> WikiDBPages" where
  "page_row i result =
     \<lparr>page_id = i, page_key = r_key result, page_title = r_title result, page_lang = r_lang result,
      page_summary = r_summary result,
      simple_result1 = stored_result (simple_results result) 0,
      simple_result2 = stored_result (simple_results result) 1,
      simple_result3 = stored_result (simple_results result) 2,
      simple_result4 = stored_result (simple_results result) 3,
      simple_result5 = stored_result (simple_results result) 4\<rparr>"

definition find_page_by_key :: "str \<Rightarrow> str \<Rightarrow> store \<Rightarrow> WikiDBPages option" where
  "find_page_by_key key lang s = List.find (\<lambda>p. page_key p = key \<and> page_lang p = lang) (pages_table s)"

definition find_page_by_query :: "str \<Rightarrow> str \<Rightarrow> store \<Rightarrow> WikiDBPages option" where
  "find_page_by_query q lang s =
     (case List.find (\<lambda>m. mq_query m = q \<and> mq_lang m = lang) (queries_table s) of
        None \<Rightarrow> None
      | Some m \<Rightarrow> List.find (\<lambda>p. page_id p = mq_page_id m) (pages_table s))"

definition find_query_id :: "str \<Rightarrow> str \<Rightarrow> int \<Rightarrow> store \<Rightarrow> int option" where
  "find_query_id q lang pid s =
     map_option mq_id
       (List.find (\<lambda>m. mq_query m = q \<and> mq_lang m = lang \<and> mq_page_id m = pid) (queries_table s))"

definition insert_page :: "WikiResult \<Rightarrow> store \<Rightarrow> WikiDBPages \<times> store" where
  "insert_page result s =
     (let row = page_row (next_id (map page_id (pages_table s))) result
      in (row, s\<lparr>pages_table := pages_table s @ [row]\<rparr>))"

definition insert_query_mapping :: "str \<Rightarrow> str \<Rightarrow> int \<Rightarrow> store \<Rightarrow> store" where
  "insert_query_mapping q lang pid s =
     s\<lparr>queries_table := queries_table s @
          [\<lparr>mq_id = next_id (map mq_id (queries_table s)), mq_query = q, mq_lang = lang, mq_page_id = pid\<rparr>]\<rparr>"

definition store_orm :: "store WikiDBOrm" where
  "store_orm =
     \<lparr>select_page_by_key = (\<lambda>key lang s. Inr (find_page_by_key key lang s)),
      select_page_by_query = (\<lambda>q lang s. Inr (find_page_by_query q lang s)),
      select_page_id_by_key = (\<lambda>key lang s. Inr (map_option page_id (find_page_by_key key lang s))),
      add_page = (\<lambda>result s. Inr (insert_page result s)),
      select_query_id = (\<lambda>q lang pid s. Inr (find_query_id q lang pid s)),
      add_query = (\<lambda>q lang pid s. Inr (insert_query_mapping q lang pid s)),
      create_all = (\<lambda>s. Inr s),
      drop_all = (\<lambda>s. Inr \<lparr>pages_table = [], queries_table = []\<rparr>)\<rparr>"

definition store_searcher :: "store WikiDBSearcher" where
  "store_searcher = \<lparr>orm = store_orm, db_drop_param = False\<rparr>"

text \<open>
  Modelled from the spec: the three invariants of the store. No two page rows share (key, language) and no two
  mappings share (query, language, page), the uniqueness the spec requires at the storage
  boundary; every mapping points to a stored page, the foreign-key linkage; and no two
  page rows share an id, the identity of a stored page.
\<close>

definition store_unique :: "store \<Rightarrow> bool" where
  "store_unique s =
     (distinct (map (\<lambda>p. (page_key p, page_lang p)) (pages_table s)) \<and>
      distinct (map (\<lambda>m. (mq_query m, mq_lang m, mq_page_id m)) (queries_table s)))"

definition store_linked :: "store \<Rightarrow> bool" where
  "store_linked s = list_all (\<lambda>m. mq_page_id m \<in> set (map page_id (pages_table s))) (queries_table s)"

definition store_keyed :: "store \<Rightarrow> bool" where
  "store_keyed s = distinct (map page_id (pages_table s))"

section \<open>Sample inputs\<close>

text \<open>
  A small closed world for the concrete evaluations below: an empty store, one shared
  parameters object, a tokenizer that splits at spaces, and a remote site that knows the
  article Entropy: both search facets return it with its disambiguation page, its page
  is served with status 200 and every other page with status 404.
\<close>

definition sample_params :: WikiSearchParams where
  "sample_params =
     \<lparr>mode = mode_default, priority = title, number_of_results = 1, query_treatment = normalize,
      db_search = db_yes, db_search_by_url = url_no\<rparr>"

definition sample_world :: "store world" where
  "sample_world =
     \<lparr>params_heap = (\<lambda>a. sample_params), logs = [], http = [],
      db = \<lparr>pages_table = [], queries_table = []\<rparr>, db_configured = False\<rparr>"

definition sample_remote :: "request list \<Rightarrow> request \<Rightarrow> exc + response" where
  "sample_remote history rq =
     (case req_params rq of
        Some kw \<Rightarrow>
          Inr \<lparr>status = 200, text_body = [],
               pages = [(lit ''Entropy'', lit ''Entropy''),
                        (lit ''Entropy (disambiguation)'', lit ''Entropy_(disambiguation)'')]\<rparr>
      | None \<Rightarrow>
          if req_url rq = wiki_page_url (lit ''en'') (lit ''Entropy'')
          then Inr \<lparr>status = 200, text_body = lit ''<p><b>Entropy</b> is a concept</p>'', pages = []\<rparr>
          else Inr \<lparr>status = 404, text_body = [], pages = []\<rparr>)"

definition sample_env :: "store env" where
  "sample_env =
     \<lparr>tok = (\<lambda>lang raw. Inr (str_split raw (lit '' ''))),
      remote = sample_remote,
      parse = (\<lambda>page. Inr (lit ''Entropy'', lit ''Entropy'', lit ''Entropy is a concept'')),
      parse_summary = (\<lambda>page. Inr (lit ''Entropy is a concept'')),
      db_searcher = Some store_searcher\<rparr>"

definition entropy_query :: WikiQuery where
  "entropy_query =
     \<lparr>raw_query = lit ''entropy'', q_lang = lit ''en'', search_params = default_search_params,
      is_link = Some False, query = lit ''entropy''\<rparr>"

text \<open>The result that the API scraper builds for Entropy from the sample remote site.\<close>

definition entropy_result :: WikiResult where
  "entropy_result =
     WikiResult_init (lit ''Entropy'') (lit ''Entropy'') (lit ''en'') (lit ''Entropy is a concept'')
       (Some [WikiSimpleResult_init 0 (lit ''Entropy'') (lit ''Entropy'') (lit ''en''),
              WikiSimpleResult_init 1 (lit ''Entropy (disambiguation)'') (lit ''Entropy_(disambiguation)'') (lit ''en'')])"

text \<open>The same world with the parameters object in fast mode, and with the cache switched off.\<close>

definition fast_world :: "store world" where
  "fast_world = sample_world\<lparr>params_heap := (\<lambda>a. sample_params\<lparr>mode := mode_fast\<rparr>)\<rparr>"

definition nocache_world :: "store world" where
  "nocache_world = sample_world\<lparr>params_heap := (\<lambda>a. sample_params\<lparr>db_search := db_no\<rparr>)\<rparr>"

text \<open>The same environment with a page extraction that fails inside the HTML library.\<close>

definition broken_env :: "store env" where
  "broken_env = sample_env\<lparr>parse_summary := (\<lambda>page. Inl ExternalError)\<rparr>"

text \<open>The same searcher over a store whose page insert fails.\<close>

definition failing_env :: "store env" where
  "failing_env =
     sample_env\<lparr>db_searcher := Some \<lparr>orm = store_orm\<lparr>add_page := (\<lambda>result s. Inl DBAPIError)\<rparr>,
                                     db_drop_param = False\<rparr>\<rparr>"

section \<open>Lowercasing\<close>

text \<open>
  \<open>lower\<close> outside Basic Latin: a Latin-1 capital, the dotted capital I that becomes two
  code points, a Cyrillic letter outside the basic block, and the capital sigma at the end
  and at the start of a word.
\<close>

lemma lower_beyond_ascii:
  "lower [201, 99, 111, 108, 101] = [233, 99, 111, 108, 101]
   \<and> lower [304] = [105, 775]
   \<and> lower [1168] = [1169]
   \<and> lower [927, 916, 927, 931] = [959, 948, 959, 962]
   \<and> lower [931, 913] = [963, 945]"
  by (simp add: lower_def lower_cp_def lower_ranges_def final_sigma_def case_ignorable_def cased_def
      case_ignorable_ranges_def cased_ranges_def)

text \<open>On Basic Latin \<open>lower\<close> maps A-Z to a-z and leaves the rest.\<close>

lemma lower_from_ascii:
  "\<forall>c\<in>set s. c < 128 \<Longrightarrow> lower_from before s = map (\<lambda>c. if 65 \<le> c \<and> c \<le> 90 then c + 32 else c) s"
  by (induction s arbitrary: before) (auto simp: lower_cp_def)

lemma lower_ascii:
  "\<forall>c\<in>set s. c < 128 \<Longrightarrow> lower s = map (\<lambda>c. if 65 \<le> c \<and> c \<le> 90 then c + 32 else c) s"
  by (simp add: lower_def lower_from_ascii)

section \<open>Query construction\<close>

lemma split_from_nonempty: "split_from sep acc s \<noteq> []"
  by (induction sep acc s rule: split_from.induct) auto

lemma hd_split_from_char: "hd (split_from [c] acc s) = acc @ takeWhile (\<lambda>x. x \<noteq> c) s"
  by (induction "[c]" acc s rule: split_from.induct) auto

lemma hd_split_from_two:
  "\<exists>p. hd (split_from [c, c] acc s) = acc @ p \<and> takeWhile (\<lambda>x. x \<noteq> c) p = takeWhile (\<lambda>x. x \<noteq> c) s"
proof (induction "[c, c]" acc s rule: split_from.induct)
  case (1 acc)
  then show ?case by simp
next
  case (2 acc x xs)
  show ?case
  proof (cases "take 2 (x # xs) = [c, c]")
    case True
    then have "x = c" by (cases xs) auto
    with True show ?thesis by simp
  next
    case False
    with 2 obtain p where p: "hd (split_from [c, c] (acc @ [x]) xs) = (acc @ [x]) @ p"
      "takeWhile (\<lambda>x. x \<noteq> c) p = takeWhile (\<lambda>x. x \<noteq> c) xs" by auto
    show ?thesis
      using False p by (intro exI[of _ "x # p"]) auto
  qed
qed

lemma host_of_rest:
  "hd (str_split (hd (str_split rest [47, 47])) [47]) = takeWhile (\<lambda>c. c \<noteq> 47) rest"
proof -
  obtain p where p: "hd (split_from [47, 47] [] rest) = [] @ p"
    "takeWhile (\<lambda>x. x \<noteq> 47) p = takeWhile (\<lambda>x. x \<noteq> 47) rest"
    using hd_split_from_two[of 47 "[]" rest] by blast
  show ?thesis
    using p by (simp add: str_split_def hd_split_from_char)
qed

lemma split_https: "str_split (lit ''https://'' @ rest) (lit ''//'') = lit ''https:'' # str_split rest (lit ''//'')"
  by (simp add: str_split_def lit_def)

lemma index_0: "xs \<noteq> [] \<Longrightarrow> index xs 0 = Inr (hd xs)"
  by (cases xs) (auto simp: index_def)

lemma index_1: "xs \<noteq> [] \<Longrightarrow> index (x # xs) (Suc 0) = Inr (hd xs)"
  by (cases xs) (auto simp: index_def)

lemma str_split_nonempty: "str_split s sep \<noteq> []"
  by (simp add: str_split_def split_from_nonempty)

lemma lit_slash: "lit ''/'' = [47]" "lit ''//'' = [47, 47]" by (simp_all add: lit_def)

lemma link_checker_wikipedia:
  assumes raw: "raw = lit ''https://'' @ rest"
    and labels: "labels = str_split (takeWhile (\<lambda>c. c \<noteq> 47) rest) (lit ''.'')"
    and host: "(length labels = 2 \<and> labels ! 0 = lit ''wikipedia'') \<or>
               (length labels = 3 \<and> labels ! 1 = lit ''wikipedia'')"
  shows "fst (link_checker raw lang sp w) = Inr (Some True, if length labels = 3 then labels ! 0 else lang)"
proof -
  have h: "index (str_split (hd (str_split rest (lit ''//''))) (lit ''/'')) 0 = Inr (takeWhile (\<lambda>c. c \<noteq> 47) rest)"
    using host_of_rest[of rest] by (simp add: index_0 str_split_nonempty lit_slash)
  have s1: "index (str_split raw (lit ''//'')) (Suc 0) = Inr (hd (str_split rest (lit ''//'')))"
    by (simp add: raw split_https index_1 str_split_nonempty)
  have s0: "index (str_split raw (lit ''//'')) 0 = Inr (lit ''https:'')"
    by (simp add: raw split_https index_def)
  from host show ?thesis
  proof
    assume a: "length labels = 2 \<and> labels ! 0 = lit ''wikipedia''"
    then have i0: "index labels 0 = Inr (lit ''wikipedia'')" by (simp add: index_def)
    show ?thesis
      using a i0 unfolding labels by (simp add: link_checker_def s0 s1 h)
  next
    assume a: "length labels = 3 \<and> labels ! 1 = lit ''wikipedia''"
    then have i1: "index labels (Suc 0) = Inr (lit ''wikipedia'')" "index labels 0 = Inr (labels ! 0)"
      by (simp_all add: index_def)
    show ?thesis
      using a i1 unfolding labels by (simp add: link_checker_def s0 s1 h)
  qed
qed

text \<open>
  C9. A raw query that starts with \<open>https://\<close> and whose host (the text up to the next
  slash) has two dot-separated labels with the first one \<open>wikipedia\<close>, or three with the
  second one \<open>wikipedia\<close>, is a link: \<open>is_link\<close> is True and the key is the raw query
  unchanged; with three labels the first label replaces the caller's language code.
\<close>

theorem link_query_recognised:
  assumes raw: "raw = lit ''https://'' @ rest"
    and labels: "labels = str_split (takeWhile (\<lambda>c. c \<noteq> 47) rest) (lit ''.'')"
    and host: "(length labels = 2 \<and> labels ! 0 = lit ''wikipedia'') \<or>
               (length labels = 3 \<and> labels ! 1 = lit ''wikipedia'')"
  shows "fst (WikiQuery_init tk raw lang sp w) =
           Inr \<lparr>raw_query = raw, q_lang = (if length labels = 3 then labels ! 0 else lang),
                search_params = sp, is_link = Some True, query = raw\<rparr>"
proof -
  obtain w1 where lc: "link_checker raw lang sp w = (Inr (Some True, if length labels = 3 then labels ! 0 else lang), w1)"
    using link_checker_wikipedia[OF assms, of lang sp w] by (cases "link_checker raw lang sp w") auto
  show ?thesis
    by (simp add: WikiQuery_init_def lc clean_def)
qed

theorem link_query_recognised_witness:
  "fst (WikiQuery_init (tok sample_env) (lit ''https://ru.wikipedia.org/wiki/X'') (lit ''en'')
          default_search_params sample_world) =
     Inr \<lparr>raw_query = lit ''https://ru.wikipedia.org/wiki/X'', q_lang = lit ''ru'',
          search_params = default_search_params, is_link = Some True, query = lit ''https://ru.wikipedia.org/wiki/X''\<rparr>"
proof -
  have l: "str_split (takeWhile (\<lambda>c. c \<noteq> 47) (lit ''ru.wikipedia.org/wiki/X'')) (lit ''.'')
           = [lit ''ru'', lit ''wikipedia'', lit ''org'']"
    by (simp add: str_split_def lit_def)
  have r: "lit ''https://ru.wikipedia.org/wiki/X'' = lit ''https://'' @ lit ''ru.wikipedia.org/wiki/X''"
    by (simp add: lit_def)
  show ?thesis
    using link_query_recognised[OF r l[symmetric], of "tok sample_env" "lit ''en''" default_search_params sample_world]
    by simp
qed

text \<open>
  C2. The normalize treatment is meant to drop the stop words and join the other tokens
  with underscores. On \<open>what is entropy\<close> the tokens are what, is, entropy; the stop
  word \<open>what\<close> is replaced by the Ellipsis object instead of being dropped, and the
  join raises TypeError: no key \<open>is_entropy\<close> is produced.
\<close>

theorem clean_stop_word_raises_TypeError:
  "fst (WikiQuery_init (tok sample_env) (lit ''what is entropy'') (lit ''en'') default_search_params sample_world)
     = Inl TypeError"
  by (simp add: WikiQuery_init_def link_checker_def clean_def str_split_def index_def lit_def
      sample_env_def sample_world_def sample_params_def join_def lower_def lower_cp_def
      query_clean_list_def)

text \<open>
  C3. Query construction is not total. The raw query \<open>https:\<close> has no part after a
  double slash, and reading that part raises IndexError, whatever the tokenizer, the
  language and the parameters; and for an https URL of another host the link checker
  falls off its end, so that \<open>is_link\<close> is None, neither True nor False.
\<close>

theorem link_checker_bare_scheme_raises_IndexError:
  "fst (WikiQuery_init tk (lit ''https:'') lang sp w) = Inl IndexError \<and>
   fst (link_checker (lit ''https://example.com/x'') lang sp w) = Inr (None, lang)"
  by (simp add: WikiQuery_init_def link_checker_def str_split_def index_def lit_def)

section \<open>Related results of a result\<close>

text \<open>
  C4. The setter of \<open>simple_results\<close> removes entries from the list it is iterating
  over, so the entry after a removed one is skipped: of two neighbouring self-matches
  the second stays in the stored list. And an empty list is stored as None, as is a
  list holding only the result's own title.
\<close>

theorem simple_results_setter_keeps_self_match:
  "simple_results (WikiResult_init (lit ''Entropy'') (lit ''Entropy'') (lit ''en'') (lit ''Entropy is a concept'')
      (Some [WikiSimpleResult_init 0 (lit ''Entropy'') (lit ''Entropy'') (lit ''en''),
             WikiSimpleResult_init 1 (lit ''entropy'') (lit ''entropy'') (lit ''en''),
             WikiSimpleResult_init 2 (lit ''Gravity'') (lit ''Gravity'') (lit ''en'')]))
     = Some [WikiSimpleResult_init 1 (lit ''entropy'') (lit ''entropy'') (lit ''en''),
             WikiSimpleResult_init 2 (lit ''Gravity'') (lit ''Gravity'') (lit ''en'')]
   \<and> lower (sr_title (WikiSimpleResult_init 1 (lit ''entropy'') (lit ''entropy'') (lit ''en''))) = lower (lit ''Entropy'')
   \<and> simple_results (WikiResult_init key title' lang summary (Some [])) = None
   \<and> simple_results (WikiResult_init key (lit ''Entropy'') lang summary
        (Some [WikiSimpleResult_init 0 (lit ''Entropy'') (lit ''Entropy'') lang])) = None"
  by (simp add: WikiResult_init_def set_simple_results_def WikiSimpleResult_init_def Let_def
      str_find_def lit_def lower_def lower_cp_def wiki_page_url_def)

section \<open>The API searcher\<close>

lemma collect_pages_eq:
  "collect_pages n ps i ts ks =
     (ts @ map fst (if int i < n then take (nat n - i) (drop i ps) else drop i ps),
      ks @ map snd (if int i < n then take (nat n - i) (drop i ps) else drop i ps))"
proof (induction n ps i ts ks rule: collect_pages.induct)
  case (1 n ps i ts ks)
  show ?case
  proof (cases "i < length ps")
    case False
    then show ?thesis by (subst collect_pages.simps) simp
  next
    case True
    note lt = True
    have d: "drop i ps = ps ! i # drop (Suc i) ps" using lt by (simp add: Cons_nth_drop_Suc)
    show ?thesis
    proof (cases "int i + 1 = n")
      case True
      then have "nat n - i = 1" by auto
      with True lt show ?thesis
        by (subst collect_pages.simps) (simp add: d Let_def)
    next
      case False
      note ne = False
      show ?thesis
      proof (cases "int i < n")
        case True
        with ne have lt2: "int (Suc i) < n" by auto
        then have k: "nat n - i = Suc (nat n - Suc i)" by auto
        show ?thesis
          using 1[OF lt refl refl refl ne] lt ne True lt2
          by (subst collect_pages.simps) (simp add: d k Let_def)
      next
        case False
        then have lt2: "\<not> int (Suc i) < n" by auto
        show ?thesis
          using 1[OF lt refl refl refl ne] lt ne False lt2
          by (subst collect_pages.simps) (simp add: d Let_def)
      qed
    qed
  qed
qed

lemma get_response_http: "http (snd (get_response E lg rq w)) = http w @ [rq]"
  by (simp add: get_response_def write_log_def Let_def split: sum.splits)

lemma get_response_ok:
  "remote E (http w) rq = Inr r \<Longrightarrow> status r = 200 \<Longrightarrow> get_response E lg rq w = (Inr r, w\<lparr>http := http w @ [rq]\<rparr>)"
  by (simp add: get_response_def)

text \<open>
  C5, as the code has it. Each of the two facet requests asks for \<open>number_of_results * 6\<close>
  candidates. When both answer with status 200 and the list chosen by priority is not
  empty, the titles and keys returned are those of the first \<open>number_of_results * 6\<close>
  entries of the chosen list (of all its entries when \<open>number_of_results\<close> is not
  positive), in the remote order.
\<close>

theorem api_search_page_overfetch:
  assumes n: "n = number_of_results (params_heap w (search_params q))"
    and rq_t: "rq_t = \<lparr>req_url = wiki_search_url (q_lang q) (lit ''title''), req_params = Some (query q, n * 6)\<rparr>"
    and rq_c: "rq_c = \<lparr>req_url = wiki_search_url (q_lang q) (lit ''page''), req_params = Some (query q, n * 6)\<rparr>"
    and rt: "remote E (http w) rq_t = Inr rt" "status rt = 200"
    and rc: "remote E (http w @ [rq_t]) rq_c = Inr rc" "status rc = 200"
    and chosen: "chosen = (if priority (params_heap w (search_params q)) = content
                           then (if pages rc \<noteq> [] then pages rc else pages rt)
                           else (if pages rt \<noteq> [] then pages rt else pages rc))"
    and ne: "chosen \<noteq> []"
    and kept: "kept = (if 0 < n then take (nat (n * 6)) chosen else chosen)"
  shows "http (snd (api_search_page E q w)) = http w @ [rq_t, rq_c] \<and>
         fst (api_search_page E q w) = Inr (map fst kept, map snd kept)"
proof -
  have six: "n + n * 5 = n * 6" by simp
  have g1: "get_response E api_scraper_log rq_t w = (Inr rt, w\<lparr>http := http w @ [rq_t]\<rparr>)"
    using rt by (rule get_response_ok)
  have g2: "get_response E api_scraper_log rq_c (w\<lparr>http := http w @ [rq_t]\<rparr>)
              = (Inr rc, w\<lparr>http := http w @ [rq_t, rq_c]\<rparr>)"
    using get_response_ok[of E "w\<lparr>http := http w @ [rq_t]\<rparr>" rq_c rc api_scraper_log] rc by simp
  have k: "(if (0::int) < n * 6 then take (nat (n * 6) - 0) (drop 0 chosen) else drop 0 chosen) = kept"
    by (simp add: kept zero_less_mult_iff)
  show ?thesis
    unfolding api_search_page_def Let_def n[symmetric] six rq_t[symmetric] rq_c[symmetric]
    using ne k by (auto simp: g1 g2 chosen collect_pages_eq write_log_def simp del: collect_pages.simps split: if_splits)
qed

theorem api_search_page_overfetch_witness:
  "http (snd (api_search_page sample_env entropy_query sample_world)) =
     [\<lparr>req_url = wiki_search_url (lit ''en'') (lit ''title''), req_params = Some (lit ''entropy'', 6)\<rparr>,
      \<lparr>req_url = wiki_search_url (lit ''en'') (lit ''page''), req_params = Some (lit ''entropy'', 6)\<rparr>] \<and>
   fst (api_search_page sample_env entropy_query sample_world) =
     Inr ([lit ''Entropy'', lit ''Entropy (disambiguation)''],
          [lit ''Entropy'', lit ''Entropy_(disambiguation)''])"
  using api_search_page_overfetch[of 1 sample_world entropy_query
      "\<lparr>req_url = wiki_search_url (lit ''en'') (lit ''title''), req_params = Some (lit ''entropy'', 6)\<rparr>"
      "\<lparr>req_url = wiki_search_url (lit ''en'') (lit ''page''), req_params = Some (lit ''entropy'', 6)\<rparr>"
      sample_env
      "\<lparr>status = 200, text_body = [],
        pages = [(lit ''Entropy'', lit ''Entropy''),
                 (lit ''Entropy (disambiguation)'', lit ''Entropy_(disambiguation)'')]\<rparr>"
      "\<lparr>status = 200, text_body = [],
        pages = [(lit ''Entropy'', lit ''Entropy''),
                 (lit ''Entropy (disambiguation)'', lit ''Entropy_(disambiguation)'')]\<rparr>"
      "[(lit ''Entropy'', lit ''Entropy''),
        (lit ''Entropy (disambiguation)'', lit ''Entropy_(disambiguation)'')]"
      "[(lit ''Entropy'', lit ''Entropy''),
        (lit ''Entropy (disambiguation)'', lit ''Entropy_(disambiguation)'')]"]
  by (simp add: sample_env_def sample_remote_def sample_world_def sample_params_def
      entropy_query_def default_search_params_def)

text \<open>
  C5, as stated, fails: with \<open>number_of_results = 1\<close> and two candidates in the chosen
  facet, both candidates are kept, not one. The loop compares \<open>i + 1\<close> with the
  over-fetch limit, which \<open>number_of_results\<close> holds by then.
\<close>

theorem api_search_page_keeps_more_than_result_count:
  "number_of_results (params_heap sample_world (search_params entropy_query)) = 1 \<and>
   map_sum id (\<lambda>r. length (fst r)) (fst (api_search_page sample_env entropy_query sample_world)) = Inr 2"
  by (simp add: api_search_page_def get_response_def sample_env_def sample_remote_def
      sample_world_def sample_params_def entropy_query_def default_search_params_def Let_def)

section \<open>The web orchestrator\<close>

lemma logged_refl: "logged P w w"
  by (simp add: logged_def)

lemma logged_trans: "logged P w w1 \<Longrightarrow> logged P w1 w2 \<Longrightarrow> logged P w w2"
  by (auto simp: logged_def)

lemma logged_write_log: "P (l, lv, m) \<Longrightarrow> logged P w (write_log l lv m w)"
  by (simp add: logged_def write_log_def)

lemma logged_write_log': "logged P w w1 \<Longrightarrow> P (l, lv, m) \<Longrightarrow> logged P w (write_log l lv m w1)"
  by (auto simp: logged_def write_log_def)

lemma logged_mono: "logged P w w' \<Longrightarrow> (\<And>x. P x \<Longrightarrow> Q x) \<Longrightarrow> logged Q w w'"
  by (auto simp: logged_def list_all_iff)

lemma logged_update: "logs w1 = logs w \<Longrightarrow> logged P w w1"
  by (simp add: logged_def)

lemma logged_new: "logged P w w' \<Longrightarrow> x \<in> set (drop (length (logs w)) (logs w')) \<Longrightarrow> P x"
  by (auto simp: logged_def list_all_iff)

lemma get_response_logged:
  assumes "get_response E lg rq w = (r, w')" and "P (lg, ERROR, lit ''Failed get response'')"
  shows "logged P w w'"
  using assms
  by (auto simp: get_response_def Let_def logged_def write_log_def split: sum.splits if_splits)


lemma api_search_page_logged:
  assumes "api_search_page E q w = (r, w')" and P: "\<And>lv m. P (api_scraper_log, lv, m)"
  shows "logged P w w'"
proof -
  define rq1 where "rq1 = \<lparr>req_url = wiki_search_url (q_lang q) (lit ''title''),
      req_params = Some (query q, number_of_results (params_heap w (search_params q)) + number_of_results (params_heap w (search_params q)) * 5)\<rparr>"
  define rq2 where "rq2 = \<lparr>req_url = wiki_search_url (q_lang q) (lit ''page''),
      req_params = Some (query q, number_of_results (params_heap w (search_params q)) + number_of_results (params_heap w (search_params q)) * 5)\<rparr>"
  obtain r1 w1 where g1: "get_response E api_scraper_log rq1 w = (r1, w1)" by fastforce
  obtain r2 w2 where g2: "get_response E api_scraper_log rq2 w1 = (r2, w2)" by fastforce
  have l2: "logged P w w2"
    by (rule logged_trans[OF get_response_logged[where P=P, OF g1 P] get_response_logged[where P=P, OF g2 P]])
  have wl: "\<And>lv m. logged P w (write_log api_scraper_log lv m w2)"
    by (rule logged_write_log'[where P=P, OF l2 P])
  show ?thesis
    using assms(1) l2
    unfolding api_search_page_def Let_def rq1_def[symmetric] rq2_def[symmetric]
    by (auto simp: g1 g2 P simp del: collect_pages.simps intro!: logged_write_log' split: sum.splits if_splits)
qed


lemma api_get_page_logged:
  assumes "api_get_page E key lang w = (r, w')" and P: "\<And>lv m. P (api_scraper_log, lv, m)"
  shows "logged P w w'"
proof -
  obtain r1 w1 where g1: "get_response E api_scraper_log \<lparr>req_url = wiki_page_url lang key, req_params = None\<rparr> w = (r1, w1)" by fastforce
  have l1: "logged P w w1" by (rule get_response_logged[where P=P, OF g1 P])
  show ?thesis
    using assms(1) l1 by (auto simp: api_get_page_def g1 P intro!: logged_write_log' split: sum.splits)
qed

lemma api_search_logged:
  assumes "api_search E q w = (r, w')" and P: "\<And>lv m. P (api_scraper_log, lv, m)"
  shows "logged P w w'"
proof -
  define w1 where "w1 = write_log api_scraper_log INFO (lit ''API scraper started'') w"
  obtain r2 w2 where g: "api_search_page E q w1 = (r2, w2)" by fastforce
  have l1: "logged P w w1" unfolding w1_def by (rule logged_write_log[where P=P, OF P])
  have l2: "logged P w w2"
    by (rule logged_trans[OF l1 api_search_page_logged[where P=P, OF g P]])
  have pg: "logged P w w3" if "api_get_page E key (q_lang q) w2 = (r3, w3)" for key r3 w3
    by (rule logged_trans[OF l2 api_get_page_logged[where P=P, OF that P]])
  show ?thesis
    using assms(1) l2 pg
    unfolding api_search_def Let_def w1_def[symmetric]
    by (auto simp: g split: sum.splits prod.splits)
qed

lemma fast_search_logged:
  assumes "fast_search E q w = (r, w')" and P: "\<And>lv m. P (fast_scraper_log, lv, m)"
  shows "logged P w w'"
proof -
  define w1 where "w1 = write_log fast_scraper_log INFO (lit ''Fast scraper started'') w"
  define rq where "rq = \<lparr>req_url = (if is_link q \<noteq> Some True then wiki_page_url (q_lang q) (query q) else query q), req_params = None\<rparr>"
  obtain r2 w2 where g: "get_response E fast_scraper_log rq w1 = (r2, w2)" by fastforce
  have l1: "logged P w w1" unfolding w1_def by (rule logged_write_log[where P=P, OF P])
  have l2: "logged P w w2"
    by (rule logged_trans[OF l1 get_response_logged[where P=P, OF g P]])
  show ?thesis
    using assms(1) l2
    unfolding fast_search_def Let_def w1_def[symmetric] rq_def[symmetric]
    by (auto simp: g P intro!: logged_write_log' split: sum.splits prod.splits)
qed

lemma fast_search_started:
  assumes "fast_search E q w = (r, w')"
  shows "(fast_scraper_log, INFO, lit ''Fast scraper started'') \<in> set (drop (length (logs w)) (logs w'))"
proof -
  define w1 where "w1 = write_log fast_scraper_log INFO (lit ''Fast scraper started'') w"
  define rq where "rq = \<lparr>req_url = (if is_link q \<noteq> Some True then wiki_page_url (q_lang q) (query q) else query q), req_params = None\<rparr>"
  obtain r2 w2 where g: "get_response E fast_scraper_log rq w1 = (r2, w2)" by fastforce
  have "logged (\<lambda>x. True) w1 w2" by (rule get_response_logged[where P="\<lambda>x. True", OF g]) simp
  then obtain l where l: "logs w2 = logs w @ (fast_scraper_log, INFO, lit ''Fast scraper started'') # l"
    by (auto simp: logged_def w1_def write_log_def)
  show ?thesis
    using assms(1) l
    unfolding fast_search_def Let_def w1_def[symmetric] rq_def[symmetric]
    by (auto simp: g write_log_def split: sum.splits prod.splits)
qed


lemma web_finish_logged: "logged (\<lambda>x. fst x \<noteq> fast_scraper_log) w1 (snd (web_finish res w1))"
  by (auto simp: web_finish_def write_log_def logged_def)

lemma web_finish_fst: "fst (web_finish res w1) = Inr res"
  by (simp add: web_finish_def)

lemma logged_True: "logged P w w' \<Longrightarrow> logged (\<lambda>x. True) w w'"
  by (auto simp: logged_def list_all_iff)

lemma in_new_logs:
  assumes "logs w1 = logs w @ l" "logged (\<lambda>x. True) w1 w2" "logged (\<lambda>x. True) w2 w3"
    and "x \<in> set (drop (length (logs w1)) (logs w2))"
  shows "x \<in> set (drop (length (logs w)) (logs w3))"
  using assms by (auto simp: logged_def)

lemma web_search_api_stage:
  assumes "api_search E q w3 = (r, w4)"
  shows "logged (\<lambda>x. fst x \<noteq> fast_scraper_log) w3
           (snd (case api_search E q w3 of
                   (Inr result, w4) \<Rightarrow> web_finish (Some result) w4
                 | (Inl e, w4) \<Rightarrow>
                     if is_WikiScraperExc e
                     then web_finish None (write_log api_scraper_log WARNING (lit ''API scraper not found anything'') w4)
                     else (Inl e, w4)))"
proof -
  have a: "logged (\<lambda>x. fst x \<noteq> fast_scraper_log) w3 w4"
    by (rule api_search_logged[where P="\<lambda>x. fst x \<noteq> fast_scraper_log", OF assms]) simp
  have b: "logged (\<lambda>x. fst x \<noteq> fast_scraper_log) w3 (write_log api_scraper_log WARNING m w4)" for m
    by (rule logged_write_log'[OF a]) simp
  show ?thesis
  proof (cases r)
    case (Inl e)
    show ?thesis
      using logged_trans[OF b web_finish_logged] a by (simp add: assms Inl)
  next
    case (Inr res)
    show ?thesis
      using logged_trans[OF a web_finish_logged] by (simp add: assms Inr)
  qed
qed


lemma web_search_skip_fast:
  assumes "\<not> (mode (params_heap w (search_params q)) = mode_fast \<or> is_link q = Some True)"
  shows "web_search E q w =
          (case api_search E q (write_log scraper_log INFO (lit ''Use API scraper'')
                                 (write_log scraper_log INFO (lit ''Scraping started'') w)) of
             (Inr result, w4) \<Rightarrow> web_finish (Some result) w4
           | (Inl e, w4) \<Rightarrow>
               if is_WikiScraperExc e
               then web_finish None (write_log api_scraper_log WARNING (lit ''API scraper not found anything'') w4)
               else (Inl e, w4))"
  using assms by (simp add: web_search_def Let_def write_log_def)

lemma web_search_after_fast:
  assumes "mode (params_heap w (search_params q)) = mode_fast \<or> is_link q = Some True"
    and "fast_search E q (write_log scraper_log INFO (lit ''Use Fast scraper'')
                            (write_log scraper_log INFO (lit ''Scraping started'') w)) = (Inl e, w2)"
    and "is_WikiScraperExc e"
  shows "web_search E q w =
          (case api_search E q (write_log scraper_log WARNING (lit ''Scraper changed on API'')
                                 (write_log fast_scraper_log WARNING (lit ''Fast scraper not found anything'') w2)) of
             (Inr result, w4) \<Rightarrow> web_finish (Some result) w4
           | (Inl e, w4) \<Rightarrow>
               if is_WikiScraperExc e
               then web_finish None (write_log api_scraper_log WARNING (lit ''API scraper not found anything'') w4)
               else (Inl e, w4))"
proof -
  have c: "mode (params_heap (write_log scraper_log INFO (lit ''Scraping started'') w) (search_params q)) = mode_fast
           \<or> is_link q = Some True"
    using assms(1) by (simp add: write_log_def)
  show ?thesis
    using assms(3) c by (cases e) (simp_all add: web_search_def Let_def assms(2))
qed

lemma web_search_no_scraper_exc:
  assumes "fst (web_search E q w) = Inl e"
  shows "\<not> is_WikiScraperExc e"
proof -
  have api: "\<not> is_WikiScraperExc e"
    if "fst (case api_search E q w3 of
             (Inr result, w4) \<Rightarrow> web_finish (Some result) w4
           | (Inl e, w4) \<Rightarrow>
               if is_WikiScraperExc e
               then web_finish None (write_log api_scraper_log WARNING (lit ''API scraper not found anything'') w4)
               else (Inl e, w4)) = Inl e" for w3
    using that by (auto simp: web_finish_fst split: prod.splits sum.splits if_splits)
  show ?thesis
  proof (cases "mode (params_heap w (search_params q)) = mode_fast \<or> is_link q = Some True")
    case False
    then show ?thesis using assms api by (simp add: web_search_skip_fast)
  next
    case True
    obtain r w2 where f: "fast_search E q (write_log scraper_log INFO (lit ''Use Fast scraper'')
                            (write_log scraper_log INFO (lit ''Scraping started'') w)) = (r, w2)"
      by fastforce
    have c: "mode (params_heap (write_log scraper_log INFO (lit ''Scraping started'') w) (search_params q)) = mode_fast
           \<or> is_link q = Some True"
      using True by (simp add: write_log_def)
    show ?thesis
    proof (cases r)
      case (Inr res)
      then show ?thesis using assms c f by (simp add: web_search_def Let_def web_finish_fst)
    next
      case (Inl e1)
      show ?thesis
      proof (cases "is_WikiScraperExc e1")
        case True
        then show ?thesis
          using assms api web_search_after_fast[OF \<open>mode (params_heap w (search_params q)) = mode_fast \<or> is_link q = Some True\<close> f[unfolded Inl] True]
          by simp
      next
        case False
        note nf = False
        show ?thesis
        proof (cases "is_AssertionError e1")
          case False
          then show ?thesis using assms c f Inl nf by (simp add: web_search_def Let_def)
        next
          case True
          then obtain m where m: "e1 = AssertionError m" by (cases e1) auto
          show ?thesis using assms c f Inl api by (simp add: web_search_def Let_def m)
        qed
      qed
    qed
  qed
qed


lemma web_search_fast_attempted:
  "(fast_scraper_log, INFO, lit ''Fast scraper started'')
      \<in> set (drop (length (logs w)) (logs (snd (web_search E q w))))
   \<longleftrightarrow> (mode (params_heap w (search_params q)) = mode_fast \<or> is_link q = Some True)"
proof (cases "mode (params_heap w (search_params q)) = mode_fast \<or> is_link q = Some True")
  case False
  define w3 where "w3 = write_log scraper_log INFO (lit ''Use API scraper'')
                                 (write_log scraper_log INFO (lit ''Scraping started'') w)"
  have a: "logged (\<lambda>x. fst x \<noteq> fast_scraper_log) w w3"
    by (simp add: w3_def logged_def write_log_def)
  have "logged (\<lambda>x. fst x \<noteq> fast_scraper_log) w (snd (web_search E q w))"
    unfolding web_search_skip_fast[OF False] w3_def[symmetric]
    by (rule logged_trans[OF a web_search_api_stage[OF surjective_pairing]])
  from logged_new[OF this] False show ?thesis by fastforce
next
  case True
  define wf where "wf = write_log scraper_log INFO (lit ''Use Fast scraper'')
                            (write_log scraper_log INFO (lit ''Scraping started'') w)"
  obtain r w2 where f: "fast_search E q wf = (r, w2)" by fastforce
  have c: "mode (params_heap (write_log scraper_log INFO (lit ''Scraping started'') w) (search_params q)) = mode_fast
           \<or> is_link q = Some True"
    using True by (simp add: write_log_def)
  have wfl: "logs wf = logs w @ [(scraper_log, INFO, lit ''Scraping started''), (scraper_log, INFO, lit ''Use Fast scraper'')]"
    by (simp add: wf_def write_log_def)
  have f2: "logged (\<lambda>x. True) wf w2"
    by (rule fast_search_logged[where P="\<lambda>x. True", OF f]) simp
  have tail: "logged (\<lambda>x. True) w2 (snd (web_search E q w))"
  proof (cases r)
    case (Inr res)
    then show ?thesis
      using c f logged_True[OF web_finish_logged]
      by (simp add: web_search_def Let_def wf_def[symmetric])
  next
    case (Inl e1)
    have api: "logged (\<lambda>x. True) w2
       (snd (case api_search E q w3 of
             (Inr result, w4) \<Rightarrow> web_finish (Some result) w4
           | (Inl e, w4) \<Rightarrow>
               if is_WikiScraperExc e
               then web_finish None (write_log api_scraper_log WARNING (lit ''API scraper not found anything'') w4)
               else (Inl e, w4)))" if "logged (\<lambda>x. True) w2 w3" for w3
      by (rule logged_trans[OF that logged_True[OF web_search_api_stage[OF surjective_pairing]]])
    show ?thesis
    proof (cases "is_WikiScraperExc e1")
      case True
      show ?thesis
        unfolding web_search_after_fast[OF \<open>mode (params_heap w (search_params q)) = mode_fast \<or> is_link q = Some True\<close> f[unfolded Inl wf_def] True]
        by (rule api) (simp add: logged_def write_log_def)
    next
      case False
      note nf = False
      show ?thesis
      proof (cases "is_AssertionError e1")
        case False
        then show ?thesis using c f Inl nf by (simp add: web_search_def Let_def wf_def[symmetric] logged_refl)
      next
        case True
        then obtain m where m: "e1 = AssertionError m" by (cases e1) auto
        have "logged (\<lambda>x. True) w2 (write_log scraper_log INFO m w2)"
          by (simp add: logged_def write_log_def)
        from api[OF this] show ?thesis using c f Inl by (simp add: web_search_def Let_def wf_def[symmetric] m)
      qed
    qed
  qed
  have "(fast_scraper_log, INFO, lit ''Fast scraper started'') \<in> set (drop (length (logs wf)) (logs w2))"
    by (rule fast_search_started[OF f])
  from in_new_logs[OF wfl f2 tail this] True show ?thesis by simp
qed


text \<open>
  C8. The fast scraper is started (its first log record is written) exactly when the mode
  is fast or the query is a link. When the fast attempt fails with a retrieval failure,
  the API scraper is tried, in the world the fast attempt left plus the two warnings: its
  result is returned, its retrieval failure gives None (nothing found), and only another
  kind of exception leaves the call. The same holds when the API scraper is entered
  directly. No retrieval failure ever leaves \<open>WikiWebSearcher.search\<close>.
\<close>

theorem web_search_fallback_ordering:
  "((fast_scraper_log, INFO, lit ''Fast scraper started'')
       \<in> set (drop (length (logs w)) (logs (snd (web_search E q w))))
     \<longleftrightarrow> (mode (params_heap w (search_params q)) = mode_fast \<or> is_link q = Some True))
   \<and> ((mode (params_heap w (search_params q)) = mode_fast \<or> is_link q = Some True)
        \<and> fast_search E q (write_log scraper_log INFO (lit ''Use Fast scraper'')
                            (write_log scraper_log INFO (lit ''Scraping started'') w)) = (Inl e, wa)
        \<and> is_WikiScraperExc e
        \<and> api_search E q (write_log scraper_log WARNING (lit ''Scraper changed on API'')
                            (write_log fast_scraper_log WARNING (lit ''Fast scraper not found anything'') wa))
            = (res, wb)
      \<longrightarrow> fst (web_search E q w) =
            (case res of Inr r \<Rightarrow> Inr (Some r)
                       | Inl e' \<Rightarrow> if is_WikiScraperExc e' then Inr None else Inl e'))
   \<and> (\<not> (mode (params_heap w (search_params q)) = mode_fast \<or> is_link q = Some True)
        \<and> api_search E q (write_log scraper_log INFO (lit ''Use API scraper'')
                            (write_log scraper_log INFO (lit ''Scraping started'') w)) = (res', wd)
      \<longrightarrow> fst (web_search E q w) =
            (case res' of Inr r \<Rightarrow> Inr (Some r)
                        | Inl e' \<Rightarrow> if is_WikiScraperExc e' then Inr None else Inl e'))
   \<and> (fst (web_search E q w) = Inl e'' \<longrightarrow> \<not> is_WikiScraperExc e'')"
proof (intro conjI impI)
  show "((fast_scraper_log, INFO, lit ''Fast scraper started'')
       \<in> set (drop (length (logs w)) (logs (snd (web_search E q w)))))
     = (mode (params_heap w (search_params q)) = mode_fast \<or> is_link q = Some True)"
    by (rule web_search_fast_attempted)
next
  assume a: "(mode (params_heap w (search_params q)) = mode_fast \<or> is_link q = Some True)
        \<and> fast_search E q (write_log scraper_log INFO (lit ''Use Fast scraper'')
                            (write_log scraper_log INFO (lit ''Scraping started'') w)) = (Inl e, wa)
        \<and> is_WikiScraperExc e
        \<and> api_search E q (write_log scraper_log WARNING (lit ''Scraper changed on API'')
                            (write_log fast_scraper_log WARNING (lit ''Fast scraper not found anything'') wa))
            = (res, wb)"
  then have "web_search E q w = (case (res, wb) of
             (Inr result, wb) \<Rightarrow> web_finish (Some result) wb
           | (Inl e, wb) \<Rightarrow>
               if is_WikiScraperExc e
               then web_finish None (write_log api_scraper_log WARNING (lit ''API scraper not found anything'') wb)
               else (Inl e, wb))"
    using web_search_after_fast[of w q E e wa] by simp
  then show "fst (web_search E q w) =
            (case res of Inr r \<Rightarrow> Inr (Some r)
                       | Inl e' \<Rightarrow> if is_WikiScraperExc e' then Inr None else Inl e')"
    by (simp add: web_finish_fst split: sum.splits)
next
  assume a: "\<not> (mode (params_heap w (search_params q)) = mode_fast \<or> is_link q = Some True)
        \<and> api_search E q (write_log scraper_log INFO (lit ''Use API scraper'')
                            (write_log scraper_log INFO (lit ''Scraping started'') w)) = (res', wd)"
  then show "fst (web_search E q w) =
            (case res' of Inr r \<Rightarrow> Inr (Some r)
                        | Inl e' \<Rightarrow> if is_WikiScraperExc e' then Inr None else Inl e')"
    using web_search_skip_fast[of w q E] by (simp add: web_finish_fst split: sum.splits)
next
  assume "fst (web_search E q w) = Inl e''"
  then show "\<not> is_WikiScraperExc e''" by (rule web_search_no_scraper_exc)
qed

lemma sample_fast_fails:
  "fst (fast_search sample_env entropy_query
          (write_log scraper_log INFO (lit ''Use Fast scraper'')
             (write_log scraper_log INFO (lit ''Scraping started'') fast_world))) = Inl WikiResNotReceived"
  by (simp add: fast_search_def get_response_def sample_env_def sample_remote_def entropy_query_def
      wiki_page_url_def lit_def Let_def)

lemma sample_api_succeeds:
  "fst (api_search sample_env entropy_query w) = Inr entropy_result"
  by (simp add: api_search_def api_search_page_def api_get_page_def get_links_def get_response_def
      sample_env_def sample_remote_def entropy_query_def entropy_result_def index_def
      wiki_page_url_def wiki_search_url_def lit_def Let_def)

lemma sample_api_raises:
  "fst (api_search broken_env entropy_query w) = Inl ExternalError"
  by (simp add: api_search_def api_search_page_def api_get_page_def get_links_def get_response_def
      broken_env_def sample_env_def sample_remote_def entropy_query_def index_def
      wiki_page_url_def wiki_search_url_def lit_def Let_def)

theorem web_search_fallback_ordering_witness:
  "fst (fast_search sample_env entropy_query
          (write_log scraper_log INFO (lit ''Use Fast scraper'')
             (write_log scraper_log INFO (lit ''Scraping started'') fast_world))) = Inl WikiResNotReceived
   \<and> is_WikiScraperExc WikiResNotReceived
   \<and> fst (web_search sample_env entropy_query fast_world) = Inr (Some entropy_result)
   \<and> (fast_scraper_log, INFO, lit ''Fast scraper started'')
       \<in> set (drop (length (logs fast_world)) (logs (snd (web_search sample_env entropy_query fast_world))))
   \<and> fst (web_search sample_env entropy_query sample_world) = Inr (Some entropy_result)
   \<and> (fast_scraper_log, INFO, lit ''Fast scraper started'')
       \<notin> set (drop (length (logs sample_world)) (logs (snd (web_search sample_env entropy_query sample_world))))
   \<and> fst (web_search broken_env entropy_query sample_world) = Inl ExternalError
   \<and> \<not> is_WikiScraperExc ExternalError"
proof -
  define wf where "wf = write_log scraper_log INFO (lit ''Use Fast scraper'')
             (write_log scraper_log INFO (lit ''Scraping started'') fast_world)"
  define w2 where "w2 = snd (fast_search sample_env entropy_query wf)"
  define wa where "wa = write_log scraper_log WARNING (lit ''Scraper changed on API'')
             (write_log fast_scraper_log WARNING (lit ''Fast scraper not found anything'') w2)"
  define wd where "wd = write_log scraper_log INFO (lit ''Use API scraper'')
             (write_log scraper_log INFO (lit ''Scraping started'') sample_world)"
  have c: "mode (params_heap fast_world (search_params entropy_query)) = mode_fast \<or> is_link entropy_query = Some True"
    by (simp add: fast_world_def sample_world_def sample_params_def)
  have nc: "\<not> (mode (params_heap sample_world (search_params entropy_query)) = mode_fast
              \<or> is_link entropy_query = Some True)"
    by (simp add: sample_world_def sample_params_def entropy_query_def)
  have f: "fast_search sample_env entropy_query wf = (Inl WikiResNotReceived, w2)"
    using sample_fast_fails by (simp add: prod_eq_iff wf_def w2_def)
  have a: "api_search sample_env entropy_query wa = (Inr entropy_result, snd (api_search sample_env entropy_query wa))"
    using sample_api_succeeds[of wa] by (simp add: prod_eq_iff)
  have d: "api_search sample_env entropy_query wd = (Inr entropy_result, snd (api_search sample_env entropy_query wd))"
    using sample_api_succeeds[of wd] by (simp add: prod_eq_iff)
  have b: "api_search broken_env entropy_query wd = (Inl ExternalError, snd (api_search broken_env entropy_query wd))"
    using sample_api_raises[of wd] by (simp add: prod_eq_iff)
  have 1: "fst (web_search sample_env entropy_query fast_world) = Inr (Some entropy_result)"
    using web_search_fallback_ordering[where w=fast_world and q=entropy_query and E=sample_env
        and e=WikiResNotReceived and wa=w2 and res="Inr entropy_result"
        and wb="snd (api_search sample_env entropy_query wa)"] c f a
    by (simp add: wf_def wa_def)
  have 2: "(fast_scraper_log, INFO, lit ''Fast scraper started'')
       \<in> set (drop (length (logs fast_world)) (logs (snd (web_search sample_env entropy_query fast_world))))"
    using web_search_fallback_ordering[where w=fast_world and q=entropy_query and E=sample_env] c by blast
  have 3: "fst (web_search sample_env entropy_query sample_world) = Inr (Some entropy_result)"
    using web_search_fallback_ordering[where w=sample_world and q=entropy_query and E=sample_env
        and res'="Inr entropy_result" and wd="snd (api_search sample_env entropy_query wd)"] nc d
    by (simp add: wd_def)
  have 4: "(fast_scraper_log, INFO, lit ''Fast scraper started'')
       \<notin> set (drop (length (logs sample_world)) (logs (snd (web_search sample_env entropy_query sample_world))))"
    using web_search_fallback_ordering[where w=sample_world and q=entropy_query and E=sample_env] nc by blast
  have 5: "fst (web_search broken_env entropy_query sample_world) = Inl ExternalError"
    using web_search_fallback_ordering[where w=sample_world and q=entropy_query and E=broken_env
        and res'="Inl ExternalError" and wd="snd (api_search broken_env entropy_query wd)"] nc b
    by (simp add: wd_def)
  have 6: "\<not> is_WikiScraperExc ExternalError"
    using web_search_fallback_ordering[where w=sample_world and q=entropy_query and E=broken_env
        and e''=ExternalError] 5 by blast
  show ?thesis
    using sample_fast_fails 1 2 3 4 5 6 by simp
qed

section \<open>What the calls leave unchanged, and what they log\<close>

text \<open>
  The web searchers never touch the parameters heap or the database, and every record
  they write comes from a scraper logger. The database searcher never touches the heap
  or the HTTP history.
\<close>

lemma write_log_frame [simp]:
  "params_heap (write_log l lv m w) = params_heap w"
  "http (write_log l lv m w) = http w"
  "db (write_log l lv m w) = db w"
  "db_configured (write_log l lv m w) = db_configured w"
  by (simp_all add: write_log_def)

lemma get_response_frame:
  assumes "get_response E lg rq w = (r, w')"
  shows "params_heap w' = params_heap w \<and> db w' = db w \<and> db_configured w' = db_configured w"
  using assms by (auto simp: get_response_def Let_def split: sum.splits if_splits)

lemma fast_search_frame:
  assumes "fast_search E q w = (r, w')"
  shows "params_heap w' = params_heap w \<and> db w' = db w \<and> db_configured w' = db_configured w"
proof -
  define w1 where "w1 = write_log fast_scraper_log INFO (lit ''Fast scraper started'') w"
  define rq where "rq = \<lparr>req_url = (if is_link q \<noteq> Some True then wiki_page_url (q_lang q) (query q) else query q), req_params = None\<rparr>"
  obtain r2 w2 where g: "get_response E fast_scraper_log rq w1 = (r2, w2)" by fastforce
  have "params_heap w2 = params_heap w \<and> db w2 = db w \<and> db_configured w2 = db_configured w"
    using get_response_frame[OF g] by (simp add: w1_def)
  then show ?thesis
    using assms unfolding fast_search_def Let_def w1_def[symmetric] rq_def[symmetric]
    by (auto simp: g split: sum.splits prod.splits)
qed

lemma api_search_page_frame:
  assumes "api_search_page E q w = (r, w')"
  shows "params_heap w' = params_heap w \<and> db w' = db w \<and> db_configured w' = db_configured w"
proof -
  define rq1 where "rq1 = \<lparr>req_url = wiki_search_url (q_lang q) (lit ''title''),
      req_params = Some (query q, number_of_results (params_heap w (search_params q)) + number_of_results (params_heap w (search_params q)) * 5)\<rparr>"
  define rq2 where "rq2 = \<lparr>req_url = wiki_search_url (q_lang q) (lit ''page''),
      req_params = Some (query q, number_of_results (params_heap w (search_params q)) + number_of_results (params_heap w (search_params q)) * 5)\<rparr>"
  obtain r1 w1 where g1: "get_response E api_scraper_log rq1 w = (r1, w1)" by fastforce
  obtain r2 w2 where g2: "get_response E api_scraper_log rq2 w1 = (r2, w2)" by fastforce
  have "params_heap w2 = params_heap w \<and> db w2 = db w \<and> db_configured w2 = db_configured w"
    using get_response_frame[OF g1] get_response_frame[OF g2] by simp
  then show ?thesis
    using assms unfolding api_search_page_def Let_def rq1_def[symmetric] rq2_def[symmetric]
    by (auto simp: g1 g2 simp del: collect_pages.simps split: sum.splits if_splits)
qed

lemma api_get_page_frame:
  assumes "api_get_page E key lang w = (r, w')"
  shows "params_heap w' = params_heap w \<and> db w' = db w \<and> db_configured w' = db_configured w"
proof -
  obtain r1 w1 where g1: "get_response E api_scraper_log \<lparr>req_url = wiki_page_url lang key, req_params = None\<rparr> w = (r1, w1)" by fastforce
  show ?thesis
    using assms get_response_frame[OF g1] by (auto simp: api_get_page_def g1 split: sum.splits)
qed

lemma api_search_frame:
  assumes "api_search E q w = (r, w')"
  shows "params_heap w' = params_heap w \<and> db w' = db w \<and> db_configured w' = db_configured w"
proof -
  define w1 where "w1 = write_log api_scraper_log INFO (lit ''API scraper started'') w"
  obtain r2 w2 where g: "api_search_page E q w1 = (r2, w2)" by fastforce
  have l2: "params_heap w2 = params_heap w \<and> db w2 = db w \<and> db_configured w2 = db_configured w"
    using api_search_page_frame[OF g] by (simp add: w1_def)
  have pg: "params_heap w3 = params_heap w \<and> db w3 = db w \<and> db_configured w3 = db_configured w"
    if "api_get_page E key (q_lang q) w2 = (r3, w3)" for key r3 w3
    using api_get_page_frame[OF that] l2 by simp
  show ?thesis
    using assms l2 pg
    unfolding api_search_def Let_def w1_def[symmetric]
    by (auto simp: g split: sum.splits prod.splits)
qed

lemma web_finish_frame:
  "params_heap (snd (web_finish res w)) = params_heap w \<and> db (snd (web_finish res w)) = db w
   \<and> db_configured (snd (web_finish res w)) = db_configured w"
  by (simp add: web_finish_def)

lemma web_search_frame:
  assumes "web_search E q w = (r, w')"
  shows "params_heap w' = params_heap w \<and> db w' = db w \<and> db_configured w' = db_configured w"
proof -
  have api: "params_heap (snd K) = params_heap w \<and> db (snd K) = db w \<and> db_configured (snd K) = db_configured w"
    if "params_heap w3 = params_heap w \<and> db w3 = db w \<and> db_configured w3 = db_configured w"
      and "K = (case api_search E q w3 of
             (Inr result, w4) \<Rightarrow> web_finish (Some result) w4
           | (Inl e, w4) \<Rightarrow>
               if is_WikiScraperExc e
               then web_finish None (write_log api_scraper_log WARNING (lit ''API scraper not found anything'') w4)
               else (Inl e, w4))" for w3 K
  proof -
    obtain ra w4 where a: "api_search E q w3 = (ra, w4)" by fastforce
    show ?thesis
      using api_search_frame[OF a] that(1) by (cases ra) (simp_all add: that(2) a web_finish_frame)
  qed
  show ?thesis
  proof (cases "mode (params_heap w (search_params q)) = mode_fast \<or> is_link q = Some True")
    case False
    show ?thesis using api[OF _ web_search_skip_fast[OF False, of E]] assms by simp
  next
    case True
    obtain rf w2 where f: "fast_search E q (write_log scraper_log INFO (lit ''Use Fast scraper'')
                            (write_log scraper_log INFO (lit ''Scraping started'') w)) = (rf, w2)"
      by fastforce
    have f2: "params_heap w2 = params_heap w \<and> db w2 = db w \<and> db_configured w2 = db_configured w"
      using fast_search_frame[OF f] by simp
    show ?thesis
    proof (cases rf)
      case (Inr res)
      then show ?thesis using assms True f f2 by (auto simp: web_search_def Let_def web_finish_def)
    next
      case (Inl e1)
      show ?thesis
      proof (cases "is_WikiScraperExc e1")
        case True
        show ?thesis
          using api[OF _ web_search_after_fast[OF \<open>mode (params_heap w (search_params q)) = mode_fast \<or> is_link q = Some True\<close> f[unfolded Inl] True]] f2 assms
          by simp
      next
        case False
        note nf = False
        show ?thesis
        proof (cases "is_AssertionError e1")
          case False
          then show ?thesis using assms True f f2 Inl nf by (auto simp: web_search_def Let_def)
        next
          case True
          then obtain m where m: "e1 = AssertionError m" by (cases e1) auto
          have eq: "web_search E q w = (case api_search E q (write_log scraper_log INFO m w2) of
             (Inr result, w4) \<Rightarrow> web_finish (Some result) w4
           | (Inl e, w4) \<Rightarrow>
               if is_WikiScraperExc e
               then web_finish None (write_log api_scraper_log WARNING (lit ''API scraper not found anything'') w4)
               else (Inl e, w4))"
            using \<open>mode (params_heap w (search_params q)) = mode_fast \<or> is_link q = Some True\<close> f Inl
            by (simp add: web_search_def Let_def m)
          show ?thesis using api[OF _ eq] f2 assms by simp
        qed
      qed
    qed
  qed
qed


lemma web_search_logged:
  assumes "web_search E q w = (r, w')" and P: "\<And>lg lv m. lg \<noteq> db_log \<Longrightarrow> P (lg, lv, m)"
  shows "logged P w w'"
proof -
  have fin: "logged P w3 (snd (web_finish res w3))" for res w3
    by (auto simp: web_finish_def logged_def write_log_def P)
  have api: "logged P w (snd K)"
    if "logged P w w3"
      and "K = (case api_search E q w3 of
             (Inr result, w4) \<Rightarrow> web_finish (Some result) w4
           | (Inl e, w4) \<Rightarrow>
               if is_WikiScraperExc e
               then web_finish None (write_log api_scraper_log WARNING (lit ''API scraper not found anything'') w4)
               else (Inl e, w4))" for w3 K
  proof -
    obtain ra w4 where a: "api_search E q w3 = (ra, w4)" by fastforce
    have l4: "logged P w w4"
      by (rule logged_trans[OF that(1) api_search_logged[where P=P, OF a]]) (simp add: P)
    have l5: "logged P w (write_log api_scraper_log WARNING m w4)" for m
      by (rule logged_write_log'[where P=P, OF l4]) (simp add: P)
    show ?thesis
      using l4 logged_trans[OF l4 fin] logged_trans[OF l5 fin]
      by (cases ra) (simp_all add: that(2) a)
  qed
  have s2: "logged P w (write_log scraper_log lv2 m2 (write_log scraper_log lv1 m1 w))" for lv1 m1 lv2 m2
    by (simp add: logged_def write_log_def P)
  show ?thesis
  proof (cases "mode (params_heap w (search_params q)) = mode_fast \<or> is_link q = Some True")
    case False
    show ?thesis using api[OF s2 web_search_skip_fast[OF False, of E]] assms(1) by simp
  next
    case True
    obtain rf w2 where f: "fast_search E q (write_log scraper_log INFO (lit ''Use Fast scraper'')
                            (write_log scraper_log INFO (lit ''Scraping started'') w)) = (rf, w2)"
      by fastforce
    have f2: "logged P w w2"
      by (rule logged_trans[OF s2 fast_search_logged[where P=P, OF f]]) (simp add: P)
    show ?thesis
    proof (cases rf)
      case (Inr res)
      have "web_search E q w = web_finish (Some res) w2"
        using True f Inr by (simp add: web_search_def Let_def)
      then have "w' = snd (web_finish (Some res) w2)" using assms(1) by (metis snd_conv)
      then show ?thesis using logged_trans[OF f2 fin, of "Some res"] by simp
    next
      case (Inl e1)
      show ?thesis
      proof (cases "is_WikiScraperExc e1")
        case True
        have "logged P w (write_log scraper_log WARNING (lit ''Scraper changed on API'')
                 (write_log fast_scraper_log WARNING (lit ''Fast scraper not found anything'') w2))"
          using f2 by (auto simp: logged_def write_log_def P)
        from api[OF this web_search_after_fast[OF \<open>mode (params_heap w (search_params q)) = mode_fast \<or> is_link q = Some True\<close> f[unfolded Inl] True]]
        show ?thesis using assms(1) by simp
      next
        case False
        note nf = False
        show ?thesis
        proof (cases "is_AssertionError e1")
          case False
          then show ?thesis using assms(1) True f f2 Inl nf by (auto simp: web_search_def Let_def)
        next
          case True
          then obtain m where m: "e1 = AssertionError m" by (cases e1) auto
          have eq: "web_search E q w = (case api_search E q (write_log scraper_log INFO m w2) of
             (Inr result, w4) \<Rightarrow> web_finish (Some result) w4
           | (Inl e, w4) \<Rightarrow>
               if is_WikiScraperExc e
               then web_finish None (write_log api_scraper_log WARNING (lit ''API scraper not found anything'') w4)
               else (Inl e, w4))"
            using \<open>mode (params_heap w (search_params q)) = mode_fast \<or> is_link q = Some True\<close> f Inl
            by (simp add: web_search_def Let_def m)
          have "logged P w (write_log scraper_log INFO m w2)"
            by (rule logged_write_log'[where P=P, OF f2]) (simp add: P)
          from api[OF this eq] show ?thesis using assms(1) by simp
        qed
      qed
    qed
  qed
qed

text \<open>The link checker writes to the parameters object only to switch the cache search off.\<close>

lemma link_checker_frame:
  assumes "link_checker raw lang sp w = (r, w')"
  shows "logs w' = logs w \<and> http w' = http w \<and> db w' = db w \<and> db_configured w' = db_configured w
         \<and> (\<forall>a. a \<noteq> sp \<longrightarrow> params_heap w' a = params_heap w a)
         \<and> (params_heap w' sp = params_heap w sp \<or> params_heap w' sp = (params_heap w sp)\<lparr>db_search := db_no\<rparr>)"
  using assms
  by (auto simp: link_checker_def Let_def split: sum.splits if_splits)

lemma link_checker_not_link_frame:
  assumes "link_checker raw lang sp w = (Inr (il, lang'), w')" "il \<noteq> Some True"
  shows "w' = w"
  using assms
  by (auto simp: link_checker_def Let_def split: sum.splits if_splits)

lemma link_checker_link_sets_no:
  assumes "link_checker raw lang sp w = (Inr (Some True, lang'), w')"
    and "db_search_by_url (params_heap w sp) = url_no"
  shows "db_search (params_heap w' sp) = db_no"
  using assms
  by (auto simp: link_checker_def Let_def split: sum.splits if_splits)

lemma clean_frame:
  assumes "clean tk raw lang sp il w = (r, w')"
  shows "params_heap w' = params_heap w \<and> http w' = http w \<and> db w' = db w \<and> db_configured w' = db_configured w"
  using assms
  by (auto simp: clean_def Let_def write_log_def split: sum.splits if_splits)

lemma clean_logged:
  assumes "clean tk raw lang sp il w = (r, w')" and P: "\<And>lg lv m. lg \<noteq> db_log \<Longrightarrow> P (lg, lv, m)"
  shows "logged P w w'"
  using assms(1)
  by (auto simp: clean_def Let_def logged_def write_log_def P split: sum.splits if_splits)

lemma setup_db_frame:
  assumes "setup_db D w = (r, w')"
  shows "params_heap w' = params_heap w \<and> http w' = http w"
  using assms
  by (auto simp: setup_db_def drop_db_def create_db_def split: sum.splits if_splits prod.splits)

lemma setup_db_logged:
  assumes "setup_db D w = (r, w')"
    and P: "\<And>lv m. lv \<noteq> CRITICAL \<Longrightarrow> (lv, m) \<noteq> (INFO, lit ''Searching in database started'') \<Longrightarrow> P (db_log, lv, m)"
  shows "logged P w w'"
proof -
  have p: "P (db_log, WARNING, lit ''Database already configured'')"
    "P (db_log, INFO, lit ''Database dropped success'')"
    "P (db_log, INFO, lit ''All tables created'')"
    "P (db_log, INFO, lit ''Database successful configured'')"
    by (rule P; simp add: lit_def)+
  show ?thesis
    using assms(1)
    by (auto simp: setup_db_def drop_db_def create_db_def logged_def write_log_def p
        split: sum.splits if_splits prod.splits)
qed

lemma orm_decorator_frame:
  assumes "orm_decorator D func w = (r, w')"
    and fr: "\<And>w1. func (orm D) w1 = (r, w') \<Longrightarrow> params_heap w' = params_heap w1 \<and> http w' = http w1"
  shows "params_heap w' = params_heap w \<and> http w' = http w"
proof (cases "db_configured w")
  case True
  then have "func (orm D) w = (r, w')" using assms(1) by (simp add: orm_decorator_def)
  from fr[OF this] show ?thesis .
next
  case False
  obtain rs w1 where s: "setup_db D w = (rs, w1)" by fastforce
  note f1 = setup_db_frame[OF s]
  show ?thesis
  proof (cases rs)
    case (Inl e)
    then have "w' = w1" using assms(1) False by (simp add: orm_decorator_def s)
    then show ?thesis using f1 by simp
  next
    case (Inr u)
    then have "func (orm D) w1 = (r, w')" using assms(1) False by (simp add: orm_decorator_def s)
    from fr[OF this] f1 show ?thesis by simp
  qed
qed

lemma orm_decorator_logged:
  assumes "orm_decorator D func w = (r, w')"
    and P: "\<And>lv m. lv \<noteq> CRITICAL \<Longrightarrow> (lv, m) \<noteq> (INFO, lit ''Searching in database started'') \<Longrightarrow> P (db_log, lv, m)"
    and "\<And>w1. func (orm D) w1 = (r, w') \<Longrightarrow> logged P w1 w'"
  shows "logged P w w'"
proof (cases "db_configured w")
  case True
  then show ?thesis using assms(1,3) by (simp add: orm_decorator_def)
next
  case False
  obtain rs w1 where s: "setup_db D w = (rs, w1)" by fastforce
  have l1: "logged P w w1" by (rule setup_db_logged[where P=P, OF s P])
  show ?thesis
  proof (cases rs)
    case (Inl e)
    then have "w' = w1" using assms(1) False by (simp add: orm_decorator_def s)
    then show ?thesis using l1 by simp
  next
    case (Inr u)
    then have "func (orm D) w1 = (r, w')" using assms(1) False by (simp add: orm_decorator_def s)
    from logged_trans[OF l1 assms(3)[OF this]] show ?thesis .
  qed
qed

lemma db_search_impl_frame:
  assumes "db_search_impl q orm' w = (r, w')"
  shows "params_heap w' = params_heap w \<and> http w' = http w"
  using assms
  by (auto simp: db_search_impl_def Let_def split: sum.splits option.splits if_splits)

lemma db_search_impl_logged:
  assumes "db_search_impl q orm' w = (r, w')"
    and P: "\<And>lv m. lv \<noteq> CRITICAL \<Longrightarrow> P (db_log, lv, m)"
  shows "logged P w w'"
  using assms(1)
  by (auto simp: db_search_impl_def Let_def logged_def write_log_def P split: sum.splits option.splits if_splits)

lemma save_result_impl_frame:
  assumes "save_result_impl qy res orm' w = (r, w')"
  shows "params_heap w' = params_heap w \<and> http w' = http w"
  using assms
  by (auto simp: save_result_impl_def Let_def split: sum.splits option.splits if_splits prod.splits)

lemma save_result_impl_logged:
  assumes "save_result_impl qy res orm' w = (r, w')"
    and P: "\<And>lv m. lv \<noteq> CRITICAL \<Longrightarrow> (lv, m) \<noteq> (INFO, lit ''Searching in database started'') \<Longrightarrow> P (db_log, lv, m)"
    and B: "(\<forall>m. P (db_log, CRITICAL, m)) \<or> r \<noteq> Inl DBAPIError"
  shows "logged P w w'"
proof -
  have p: "P (db_log, INFO, lit ''Save result'')"
    "P (db_log, INFO, lit ''Page saved in database'')"
    "P (db_log, WARNING, lit ''This page already exist'')"
    "P (db_log, INFO, lit ''Search query saved in database'')"
    "P (db_log, WARNING, lit ''Search query already exist'')"
    "P (db_log, INFO, lit ''Result saved in {} sec'')"
    by (rule P; simp add: lit_def)+
  show ?thesis
    using assms(1) B
    by (auto simp: save_result_impl_def Let_def logged_def write_log_def p
        split: sum.splits option.splits if_splits prod.splits)
qed

lemma db_searcher_search_frame:
  assumes "db_searcher_search D q w = (r, w')"
  shows "params_heap w' = params_heap w \<and> http w' = http w"
  using assms unfolding db_searcher_search_def
  by (rule orm_decorator_frame) (rule db_search_impl_frame)

lemma db_searcher_search_logged:
  assumes "db_searcher_search D q w = (r, w')"
    and P: "\<And>lv m. lv \<noteq> CRITICAL \<Longrightarrow> P (db_log, lv, m)"
  shows "logged P w w'"
  using assms(1) unfolding db_searcher_search_def
  by (rule orm_decorator_logged) (auto intro: P db_search_impl_logged[where P=P])

lemma save_result_frame:
  assumes "save_result D qy res w = (r, w')"
  shows "params_heap w' = params_heap w \<and> http w' = http w"
  using assms unfolding save_result_def
  by (rule orm_decorator_frame) (rule save_result_impl_frame)

lemma save_result_logged:
  assumes "save_result D qy res w = (r, w')"
    and P: "\<And>lv m. lv \<noteq> CRITICAL \<Longrightarrow> (lv, m) \<noteq> (INFO, lit ''Searching in database started'') \<Longrightarrow> P (db_log, lv, m)"
    and B: "(\<forall>m. P (db_log, CRITICAL, m)) \<or> r \<noteq> Inl DBAPIError"
  shows "logged P w w'"
  using assms(1) unfolding save_result_def
proof (rule orm_decorator_logged)
  show "\<And>lv m. lv \<noteq> CRITICAL \<Longrightarrow> (lv, m) \<noteq> (INFO, lit ''Searching in database started'') \<Longrightarrow> P (db_log, lv, m)"
    by (rule P)
  show "\<And>w1. save_result_impl qy res (orm D) w1 = (r, w') \<Longrightarrow> logged P w1 w'"
    by (rule save_result_impl_logged[where P=P, OF _ P B])
qed

lemma search_try_frame:
  assumes "search_try E q sp w = (r, w')"
  shows "params_heap w' = params_heap w \<and> http w' = http w"
proof (cases "db_searcher E")
  case None
  then show ?thesis using assms by (simp add: search_try_def)
next
  case (Some D)
  show ?thesis
  proof (cases "db_search (params_heap w sp) = db_yes")
    case False
    then show ?thesis using assms Some by (simp add: search_try_def)
  next
    case True
    obtain r1 w1 where d: "db_searcher_search D q w = (r1, w1)" by fastforce
    show ?thesis
      using assms Some True db_searcher_search_frame[OF d]
      by (auto simp: search_try_def d split: sum.splits option.splits)
  qed
qed

lemma search_try_skipped:
  assumes "db_search (params_heap w sp) = db_no"
  shows "search_try E q sp w = (Inl (AssertionError (lit ''Don`t search in database'')), w)"
  using assms by (simp add: search_try_def split: option.splits)

lemma search_try_logged:
  assumes "search_try E q sp w = (r, w')"
    and P: "\<And>lv m. lv \<noteq> CRITICAL \<Longrightarrow> (lv, m) \<noteq> (INFO, lit ''Searching in database started'') \<Longrightarrow> P (db_log, lv, m)"
    and C: "P (db_log, INFO, lit ''Searching in database started'') \<or> db_search (params_heap w sp) = db_no"
  shows "logged P w w'"
proof (cases "db_search (params_heap w sp) = db_yes \<and> db_searcher E \<noteq> None")
  case False
  then have "w' = w" using assms(1) by (auto simp: search_try_def split: option.splits if_splits)
  then show ?thesis by (simp add: logged_refl)
next
  case True
  then obtain D where D: "db_searcher E = Some D" by auto
  from True C have c: "P (db_log, INFO, lit ''Searching in database started'')" by auto
  have P': "P (db_log, lv, m)" if "lv \<noteq> CRITICAL" for lv m
    using that P[of lv m] c by (cases "(lv, m) = (INFO, lit ''Searching in database started'')") auto
  obtain r1 w1 where d: "db_searcher_search D q w = (r1, w1)" by fastforce
  have "logged P w w1" by (rule db_searcher_search_logged[where P=P, OF d P'])
  moreover have "w' = w1"
    using assms(1) True D by (auto simp: search_try_def d split: sum.splits option.splits)
  ultimately show ?thesis by simp
qed


lemma search_except_frame:
  assumes "search_except E q sp error w = (r, w')"
  shows "params_heap w' = params_heap w"
proof -
  define w1 where "w1 = (case error of
                  AssertionError m \<Rightarrow> if m \<noteq> [] then write_log wiki_log WARNING m w else w
                | _ \<Rightarrow> w)"
  have h1: "params_heap w1 = params_heap w" by (simp add: w1_def split: exc.splits)
  obtain rw w2 where ws: "web_search E q w1 = (rw, w2)" by fastforce
  have h2: "params_heap w2 = params_heap w" using web_search_frame[OF ws] h1 by simp
  have sv: "params_heap w3 = params_heap w" if "save_result D (query q) res w2 = (r3, w3)" for D res r3 w3
    using save_result_frame[OF that] h2 by simp
  show ?thesis
    using assms h2 sv unfolding search_except_def Let_def w1_def[symmetric]
    by (auto simp: ws split: sum.splits option.splits prod.splits if_splits)
qed

lemma search_except_logged:
  assumes "search_except E q sp error w = (r, w')"
    and N: "\<And>lg lv m. lg \<noteq> db_log \<Longrightarrow> P (lg, lv, m)"
    and A: "\<And>lv m. lv \<noteq> CRITICAL \<Longrightarrow> (lv, m) \<noteq> (INFO, lit ''Searching in database started'') \<Longrightarrow> P (db_log, lv, m)"
    and B: "(\<forall>m. P (db_log, CRITICAL, m)) \<or> r \<noteq> Inl DBAPIError"
  shows "logged P w w'"
proof -
  define w1 where "w1 = (case error of
                  AssertionError m \<Rightarrow> if m \<noteq> [] then write_log wiki_log WARNING m w else w
                | _ \<Rightarrow> w)"
  have h1: "logged P w w1"
    by (auto simp: w1_def logged_def write_log_def N split: exc.splits)
  obtain rw w2 where ws: "web_search E q w1 = (rw, w2)" by fastforce
  have h2: "logged P w w2"
    by (rule logged_trans[OF h1 web_search_logged[where P=P, OF ws]]) (simp add: N)
  have wl: "logged P w (write_log wiki_log lv m w2)" for lv m
    by (rule logged_write_log'[where P=P, OF h2]) (simp add: N)
  show ?thesis
  proof (cases rw)
    case (Inl e)
    then show ?thesis using assms(1) h2 unfolding search_except_def Let_def w1_def[symmetric] by (simp add: ws)
  next
    case (Inr ro)
    show ?thesis
    proof (cases ro)
      case None
      then show ?thesis using assms(1) wl Inr unfolding search_except_def Let_def w1_def[symmetric]
        by (auto simp: ws)
    next
      case (Some res)
      define sv where "sv = (case db_searcher E of
                      None \<Rightarrow> (Inr (), write_log wiki_log WARNING (lit ''Don`t save result in database'') w2)
                    | Some D \<Rightarrow>
                        if is_link q = Some True
                           \<or> query_treatment (params_heap w2 sp) = without
                        then (Inr (), write_log wiki_log WARNING (lit ''Don`t save result in database'') w2)
                        else save_result D (query q) res w2)"
      have eq: "(r, w') = (case sv of
                (Inl e, w3) \<Rightarrow> (Inl e, w3)
              | (Inr u, w3) \<Rightarrow>
                  (Inr (Some res), write_log wiki_log INFO (lit ''Result got in {} sec'') w3))"
        using assms(1) Inr Some unfolding search_except_def Let_def w1_def[symmetric] sv_def
        by (simp add: ws)
      obtain rs w3 where svv: "sv = (rs, w3)" by fastforce
      have b3: "(\<forall>m. P (db_log, CRITICAL, m)) \<or> rs \<noteq> Inl DBAPIError"
        using B eq svv by (cases rs) auto
      have l3: "logged P w w3"
      proof (cases "\<exists>D. db_searcher E = Some D \<and> \<not> (is_link q = Some True \<or> query_treatment (params_heap w2 sp) = without)")
        case False
        then have "w3 = write_log wiki_log WARNING (lit ''Don`t save result in database'') w2"
          using svv by (auto simp: sv_def split: option.splits if_splits)
        then show ?thesis using wl by simp
      next
        case True
        then obtain D where D: "db_searcher E = Some D" "save_result D (query q) res w2 = (rs, w3)"
          using svv by (auto simp: sv_def)
        show ?thesis
          by (rule logged_trans[OF h2 save_result_logged[where P=P, OF D(2) A b3]])
      qed
      have "logged P w (write_log wiki_log INFO (lit ''Result got in {} sec'') w3)"
        by (rule logged_write_log'[where P=P, OF l3]) (simp add: N)
      then show ?thesis using eq svv l3 by (cases rs) auto
    qed
  qed
qed

lemma link_checker_fst_indep:
  "fst (link_checker raw lang sp w) = fst (link_checker raw lang sp w2)"
  by (auto simp: link_checker_def Let_def split: sum.splits if_splits)

lemma WikiQuery_init_logged:
  assumes "WikiQuery_init tk raw lang sp w = (r, w')" and N: "\<And>lg lv m. lg \<noteq> db_log \<Longrightarrow> P (lg, lv, m)"
  shows "logged P w w'"
proof -
  obtain r1 w1 where lc: "link_checker raw lang sp w = (r1, w1)" by fastforce
  have l1: "logged P w w1" using link_checker_frame[OF lc] by (simp add: logged_def)
  show ?thesis
  proof (cases r1)
    case (Inl e)
    then show ?thesis using assms(1) l1 by (simp add: WikiQuery_init_def lc)
  next
    case (Inr p)
    obtain il lang' where p: "p = (il, lang')" by fastforce
    obtain r2 w2 where cl: "clean tk raw lang' sp il w1 = (r2, w2)" by fastforce
    have "logged P w w2" by (rule logged_trans[OF l1 clean_logged[where P=P, OF cl N]])
    then show ?thesis using assms(1) by (cases r2) (auto simp: WikiQuery_init_def lc Inr p cl)
  qed
qed

lemma WikiQuery_init_heap:
  assumes "WikiQuery_init tk raw lang sp w = (r, w')"
  shows "(\<forall>a. a \<noteq> sp \<longrightarrow> params_heap w' a = params_heap w a)
         \<and> (params_heap w' sp = params_heap w sp \<or> params_heap w' sp = (params_heap w sp)\<lparr>db_search := db_no\<rparr>)"
proof -
  obtain r1 w1 where lc: "link_checker raw lang sp w = (r1, w1)" by fastforce
  note f1 = link_checker_frame[OF lc]
  show ?thesis
  proof (cases r1)
    case (Inl e)
    then show ?thesis using assms(1) f1 by (simp add: WikiQuery_init_def lc)
  next
    case (Inr p)
    obtain il lang' where p: "p = (il, lang')" by fastforce
    obtain r2 w2 where cl: "clean tk raw lang' sp il w1 = (r2, w2)" by fastforce
    have "params_heap w2 = params_heap w1" using clean_frame[OF cl] by simp
    then show ?thesis using assms(1) f1 by (cases r2) (auto simp: WikiQuery_init_def lc Inr p cl)
  qed
qed

lemma WikiQuery_init_keeps_no:
  assumes "WikiQuery_init tk raw lang sp w = (r, w')" "db_search (params_heap w sp) = db_no"
  shows "db_search (params_heap w' sp) = db_no"
  using WikiQuery_init_heap[OF assms(1)] assms(2) by auto

lemma WikiQuery_init_link:
  assumes "fst (link_checker raw lang sp w) = Inr (Some True, lang')"
  shows "\<exists>q w'. WikiQuery_init tk raw lang sp w = (Inr q, w') \<and> is_link q = Some True
           \<and> (db_search_by_url (params_heap w sp) = url_no \<longrightarrow> db_search (params_heap w' sp) = db_no)"
proof -
  obtain w1 where lc: "link_checker raw lang sp w = (Inr (Some True, lang'), w1)"
    using assms by (cases "link_checker raw lang sp w") auto
  show ?thesis
    using link_checker_link_sets_no[OF lc]
    by (auto simp: WikiQuery_init_def lc clean_def)
qed

lemma search_unfold:
  assumes "WikiQuery_init (tok E) raw lang (case sp_arg of None \<Rightarrow> default_search_params | Some a \<Rightarrow> a)
             (write_log wiki_log INFO (lit ''Searching started'') w) = (Inr q, w1)"
    and "search_try E q (case sp_arg of None \<Rightarrow> default_search_params | Some a \<Rightarrow> a)
           (write_log wiki_log INFO (lit ''Search query '' @ [39] @ query q @ [39] @ lit '' accepted'') w1) = (rt, w3)"
  shows "search E raw lang sp_arg w =
          (case rt of
             Inr result \<Rightarrow> (Inr (Some result), write_log wiki_log INFO (lit ''Result got in {} sec'') w3)
           | Inl error \<Rightarrow>
               if is_WikiDBExc error \<or> is_AssertionError error
               then search_except E q (case sp_arg of None \<Rightarrow> default_search_params | Some a \<Rightarrow> a) error w3
               else (Inl error, w3))"
  using assms by (simp add: search_def Let_def split: sum.splits)

lemma search_logged:
  assumes N: "\<And>lg lv m. lg \<noteq> db_log \<Longrightarrow> P (lg, lv, m)"
    and A: "\<And>lv m. lv \<noteq> CRITICAL \<Longrightarrow> (lv, m) \<noteq> (INFO, lit ''Searching in database started'') \<Longrightarrow> P (db_log, lv, m)"
    and C: "P (db_log, INFO, lit ''Searching in database started'')
            \<or> db_search (params_heap w (case sp_arg of None \<Rightarrow> default_search_params | Some a \<Rightarrow> a)) = db_no"
    and B: "(\<forall>m. P (db_log, CRITICAL, m)) \<or> fst (search E raw lang sp_arg w) \<noteq> Inl DBAPIError"
  shows "logged P w (snd (search E raw lang sp_arg w))"
proof -
  define sp where "sp = (case sp_arg of None \<Rightarrow> default_search_params | Some a \<Rightarrow> a)"
  define w0 where "w0 = write_log wiki_log INFO (lit ''Searching started'') w"
  have l0: "logged P w w0" unfolding w0_def by (rule logged_write_log[where P=P]) (simp add: N)
  obtain rq w1 where wq: "WikiQuery_init (tok E) raw lang sp w0 = (rq, w1)" by fastforce
  have l1: "logged P w w1" by (rule logged_trans[OF l0 WikiQuery_init_logged[where P=P, OF wq N]])
  show ?thesis
  proof (cases rq)
    case (Inl e)
    then show ?thesis using l1 by (simp add: search_def Let_def sp_def[symmetric] w0_def[symmetric] wq)
  next
    case (Inr q)
    define w2 where "w2 = write_log wiki_log INFO (lit ''Search query '' @ [39] @ query q @ [39] @ lit '' accepted'') w1"
    have l2: "logged P w w2" unfolding w2_def by (rule logged_write_log'[where P=P, OF l1]) (simp add: N)
    obtain rt w3 where st: "search_try E q sp w2 = (rt, w3)" by fastforce
    have c2: "P (db_log, INFO, lit ''Searching in database started'') \<or> db_search (params_heap w2 sp) = db_no"
    proof -
      have "db_search (params_heap w sp) = db_no \<Longrightarrow> db_search (params_heap w2 sp) = db_no"
        using WikiQuery_init_keeps_no[OF wq] by (simp add: w0_def w2_def)
      then show ?thesis using C by (auto simp: sp_def)
    qed
    have l3: "logged P w w3" by (rule logged_trans[OF l2 search_try_logged[where P=P, OF st A c2]])
    note eq = search_unfold[OF wq[unfolded sp_def w0_def Inr] st[unfolded sp_def w2_def], folded sp_def]
    show ?thesis
    proof (cases rt)
      case (Inr result)
      have "logged P w (write_log wiki_log INFO (lit ''Result got in {} sec'') w3)"
        by (rule logged_write_log'[where P=P, OF l3]) (simp add: N)
      then show ?thesis by (simp add: eq Inr)
    next
      case (Inl error)
      show ?thesis
      proof (cases "is_WikiDBExc error \<or> is_AssertionError error")
        case False
        then show ?thesis using l3 by (simp add: eq Inl)
      next
        case True
        obtain r5 w5 where se: "search_except E q sp error w3 = (r5, w5)" by fastforce
        have s5: "search E raw lang sp_arg w = (r5, w5)" using True by (simp add: eq Inl se)
        have b5: "(\<forall>m. P (db_log, CRITICAL, m)) \<or> r5 \<noteq> Inl DBAPIError" using B s5 by simp
        have "logged P w w5"
          by (rule logged_trans[OF l3 search_except_logged[where P=P, OF se N A b5]])
        then show ?thesis by (simp add: s5)
      qed
    qed
  qed
qed

section \<open>The top-level search\<close>

lemmas sample_defs = sample_env_def failing_env_def sample_remote_def sample_world_def sample_params_def
  store_searcher_def store_orm_def default_search_params_def

lemmas search_defs = search_def search_try_def search_except_def db_searcher_search_def save_result_def
  orm_decorator_def setup_db_def create_db_def drop_db_def db_search_impl_def save_result_impl_def
  web_search_def web_finish_def fast_search_def api_search_def api_search_page_def api_get_page_def
  get_links_def get_response_def WikiQuery_init_def link_checker_def clean_def join_def
  str_split_def index_def lower_def lower_cp_def query_clean_list_def
  find_page_by_key_def find_page_by_query_def find_query_id_def insert_page_def insert_query_mapping_def
  page_row_def stored_result_def next_id_def
  WikiResult_init_def set_simple_results_def WikiSimpleResult_init_def str_find_def
  wiki_page_url_def wiki_search_url_def write_log_def Let_def




text \<open>
  C10. When the raw query is a link and the parameters object has the link-cache option
  off, \<open>search\<close> leaves the cache-search field of that object, the default instance
  included, at \<open>no\<close>; and a later \<open>search\<close> with the same object, whatever its query,
  never starts the database lookup.
\<close>

theorem search_link_switches_cache_off:
  assumes sp: "sp = (case sp_arg of None \<Rightarrow> default_search_params | Some a \<Rightarrow> a)"
    and link: "fst (link_checker raw lang sp w) = Inr (Some True, lang')"
    and url_no: "db_search_by_url (params_heap w sp) = url_no"
    and w': "w' = snd (search E raw lang sp_arg w)"
  shows "db_search (params_heap w' sp) = db_no
         \<and> (db_log, INFO, lit ''Searching in database started'')
             \<notin> set (drop (length (logs w')) (logs (snd (search E raw2 lang2 sp_arg w'))))"
proof -
  define w0 where "w0 = write_log wiki_log INFO (lit ''Searching started'') w"
  have link0: "fst (link_checker raw lang sp w0) = Inr (Some True, lang')"
    using link link_checker_fst_indep[of raw lang sp w0 w] by simp
  have url0: "db_search_by_url (params_heap w0 sp) = url_no" using url_no by (simp add: w0_def)
  obtain q w1 where wq: "WikiQuery_init (tok E) raw lang sp w0 = (Inr q, w1)"
    and no1: "db_search (params_heap w1 sp) = db_no"
    using WikiQuery_init_link[OF link0, of "tok E"] url0 by auto
  define w2 where "w2 = write_log wiki_log INFO (lit ''Search query '' @ [39] @ query q @ [39] @ lit '' accepted'') w1"
  have no2: "db_search (params_heap w2 sp) = db_no" using no1 by (simp add: w2_def)
  note st = search_try_skipped[OF no2, of E q]
  obtain r5 w5 where se: "search_except E q sp (AssertionError (lit ''Don`t search in database'')) w2 = (r5, w5)"
    by fastforce
  have "search E raw lang sp_arg w = (r5, w5)"
    using search_unfold[OF wq[unfolded sp w0_def] st[unfolded sp w2_def]] se by (simp add: sp w2_def)
  then have "w' = w5" using w' by simp
  then have heap: "db_search (params_heap w' sp) = db_no"
    using search_except_frame[OF se] no2 by simp
  have "logged (\<lambda>x. x \<noteq> (db_log, INFO, lit ''Searching in database started'')) w'
          (snd (search E raw2 lang2 sp_arg w'))"
    by (rule search_logged) (use heap sp in auto)
  from logged_new[OF this] heap show ?thesis by blast
qed

theorem search_link_switches_cache_off_witness:
  "db_search (params_heap sample_world default_search_params) = db_yes
   \<and> db_search (params_heap (snd (search sample_env (lit ''https://en.wikipedia.org/wiki/Entropy'') (lit ''en'') None sample_world))
        default_search_params) = db_no
   \<and> (db_log, INFO, lit ''Searching in database started'')
       \<notin> set (drop (length (logs (snd (search sample_env (lit ''https://en.wikipedia.org/wiki/Entropy'') (lit ''en'') None sample_world))))
                 (logs (snd (search sample_env (lit ''entropy'') (lit ''en'') None
                   (snd (search sample_env (lit ''https://en.wikipedia.org/wiki/Entropy'') (lit ''en'') None sample_world))))))"
proof -
  have l: "fst (link_checker (lit ''https://en.wikipedia.org/wiki/Entropy'') (lit ''en'') default_search_params sample_world)
             = Inr (Some True, lit ''en'')"
    by (simp add: link_checker_def str_split_def index_def lit_def)
  have u: "db_search_by_url (params_heap sample_world default_search_params) = url_no"
    by (simp add: sample_world_def sample_params_def)
  have y: "db_search (params_heap sample_world default_search_params) = db_yes"
    by (simp add: sample_world_def sample_params_def)
  have s: "default_search_params = (case None of None \<Rightarrow> default_search_params | Some a \<Rightarrow> a)" by simp
  from search_link_switches_cache_off[OF s l u refl, of sample_env "lit ''entropy''" "lit ''en''"] y
  show ?thesis by simp
qed

section \<open>Write-back into the cache store\<close>

lemma find_append:
  "List.find P (xs @ ys) = (case List.find P xs of None \<Rightarrow> List.find P ys | Some x \<Rightarrow> Some x)"
  by (induction xs) auto

lemma find_Some_in: "List.find P xs = Some x \<Longrightarrow> x \<in> set xs \<and> P x"
  by (induction xs) (auto split: if_splits)

lemma distinct_filter_le1:
  "distinct (map f xs) \<Longrightarrow> length (filter (\<lambda>x. f x = y) xs) \<le> 1"
proof (induction xs)
  case Nil
  then show ?case by simp
next
  case (Cons a xs)
  show ?case
  proof (cases "f a = y")
    case True
    have "f a \<notin> f ` set xs" using Cons.prems by simp
    then have "\<forall>x\<in>set xs. f x \<noteq> y" using True by blast
    then have "filter (\<lambda>x. f x = y) xs = []" by (simp add: filter_empty_conv)
    then show ?thesis using True by simp
  next
    case False
    then show ?thesis using Cons by simp
  qed
qed

lemma find_Some_filter_ge1: "List.find P xs = Some x \<Longrightarrow> 1 \<le> length (filter P xs)"
  by (induction xs) (auto split: if_splits)

lemma insert_page_props:
  assumes none: "find_page_by_key (r_key res) (r_lang res) s = None"
    and ip: "insert_page res s = (row, s')"
  shows "find_page_by_key (r_key res) (r_lang res) s' = Some row"
    and "queries_table s' = queries_table s"
    and "pages_table s' = pages_table s @ [row]"
    and "page_key row = r_key res" "page_lang row = r_lang res"
    and "store_unique s \<Longrightarrow> store_unique s'"
    and "store_linked s \<Longrightarrow> store_linked s'"
proof -
  have row: "row = page_row (next_id (map page_id (pages_table s))) res"
    and s': "s' = s\<lparr>pages_table := pages_table s @ [row]\<rparr>"
    using ip by (auto simp: insert_page_def Let_def)
  show k: "page_key row = r_key res" "page_lang row = r_lang res" by (simp_all add: row page_row_def)
  show "pages_table s' = pages_table s @ [row]" "queries_table s' = queries_table s" by (simp_all add: s')
  have f: "List.find (\<lambda>p. page_key p = r_key res \<and> page_lang p = r_lang res) (pages_table s) = None"
    using none by (simp add: find_page_by_key_def)
  show "find_page_by_key (r_key res) (r_lang res) s' = Some row"
    by (simp add: find_page_by_key_def s' find_append f k)
  have nin: "(r_key res, r_lang res) \<notin> set (map (\<lambda>p. (page_key p, page_lang p)) (pages_table s))"
    using f by (auto simp: find_None_iff)
  show "store_unique s \<Longrightarrow> store_unique s'"
    using nin by (simp add: store_unique_def s' k)
  show "store_linked s \<Longrightarrow> store_linked s'"
    by (auto simp: store_linked_def s' list_all_iff)
qed

lemma insert_query_mapping_props:
  assumes none: "find_query_id q l pid s = None"
    and s': "s' = insert_query_mapping q l pid s"
  shows "find_query_id q l pid s' \<noteq> None"
    and "pages_table s' = pages_table s"
    and "store_unique s \<Longrightarrow> store_unique s'"
    and "pid \<in> set (map page_id (pages_table s)) \<Longrightarrow> store_linked s \<Longrightarrow> store_linked s'"
proof -
  have f: "List.find (\<lambda>m. mq_query m = q \<and> mq_lang m = l \<and> mq_page_id m = pid) (queries_table s) = None"
    using none by (simp add: find_query_id_def)
  show "find_query_id q l pid s' \<noteq> None"
    by (simp add: find_query_id_def s' insert_query_mapping_def find_append f)
  show "pages_table s' = pages_table s" by (simp add: s' insert_query_mapping_def)
  have nin: "(q, l, pid) \<notin> set (map (\<lambda>m. (mq_query m, mq_lang m, mq_page_id m)) (queries_table s))"
    using f by (auto simp: find_None_iff)
  show "store_unique s \<Longrightarrow> store_unique s'"
    using nin by (simp add: store_unique_def s' insert_query_mapping_def)
  show "pid \<in> set (map page_id (pages_table s)) \<Longrightarrow> store_linked s \<Longrightarrow> store_linked s'"
    by (auto simp: store_linked_def s' insert_query_mapping_def list_all_iff)
qed

lemma save_result_impl_store:
  assumes t: "simple_results res \<noteq> None" "simple_results res \<noteq> Some []"
    and sv: "save_result_impl qy res store_orm w = (r, w')"
  shows "r = Inr ()
     \<and> (\<exists>p. find_page_by_key (r_key res) (r_lang res) (db w') = Some p
            \<and> find_query_id (lower qy) (r_lang res) (page_id p) (db w') \<noteq> None)
     \<and> (store_unique (db w) \<longrightarrow> store_unique (db w'))
     \<and> (store_linked (db w) \<longrightarrow> store_linked (db w'))
     \<and> params_heap w' = params_heap w \<and> http w' = http w \<and> db_configured w' = db_configured w"
proof -
  define w1 where "w1 = write_log db_log INFO (lit ''Save result'') w"
  have d1: "db w1 = db w" "params_heap w1 = params_heap w" "http w1 = http w"
    "db_configured w1 = db_configured w" by (simp_all add: w1_def write_log_def)
  show ?thesis
  proof (cases "find_page_by_key (r_key res) (r_lang res) (db w)")
    case None
    obtain row s1 where ip: "insert_page res (db w) = (row, s1)" by fastforce
    note ps = insert_page_props[OF None ip]
    have pid_in: "page_id row \<in> set (map page_id (pages_table s1))" using ps(3) by simp
    show ?thesis
    proof (cases "find_query_id (lower qy) (r_lang res) (page_id row) s1")
      case None2: None
      note qs = insert_query_mapping_props[OF None2 refl]
      have fp: "find_page_by_key (r_key res) (r_lang res) (insert_query_mapping (lower qy) (r_lang res) (page_id row) s1) = Some row"
        using ps(1) qs(2) by (simp add: find_page_by_key_def)
      show ?thesis
        using sv t None ip None2 ps(6,7) qs(1) qs(3) qs(4)[OF pid_in] fp
        unfolding save_result_impl_def Let_def w1_def[symmetric]
        by (auto simp: store_orm_def d1)
    next
      case (Some qid)
      show ?thesis
        using sv t None ip Some ps(1,6,7)
        unfolding save_result_impl_def Let_def w1_def[symmetric]
        by (auto simp: store_orm_def d1)
    qed
  next
    case (Some p)
    have pid_in: "page_id p \<in> set (map page_id (pages_table (db w)))"
      using find_Some_in[OF Some[unfolded find_page_by_key_def]] by auto
    show ?thesis
    proof (cases "find_query_id (lower qy) (r_lang res) (page_id p) (db w)")
      case None2: None
      note qs = insert_query_mapping_props[OF None2 refl]
      have fp: "find_page_by_key (r_key res) (r_lang res) (insert_query_mapping (lower qy) (r_lang res) (page_id p) (db w)) = Some p"
        using Some qs(2) by (simp add: find_page_by_key_def)
      show ?thesis
        using sv t Some None2 qs(1) qs(3) qs(4)[OF pid_in] fp
        unfolding save_result_impl_def Let_def w1_def[symmetric]
        by (auto simp: store_orm_def d1)
    next
      case Some2: (Some qid)
      show ?thesis
        using sv t Some Some2
        unfolding save_result_impl_def Let_def w1_def[symmetric]
        by (auto simp: store_orm_def d1)
    qed
  qed
qed

lemma fold_max_ge: "(a::int) \<le> fold max ids a \<and> (\<forall>x\<in>set ids. x \<le> fold max ids a)"
proof (induction ids arbitrary: a)
  case Nil
  then show ?case by simp
next
  case (Cons i ids)
  have "max i a \<le> fold max ids (max i a)" using Cons[of "max i a"] by blast
  moreover have "\<forall>x\<in>set ids. x \<le> fold max ids (max i a)" using Cons[of "max i a"] by blast
  ultimately show ?case by auto
qed

lemma next_id_fresh: "next_id ids \<notin> set ids"
proof
  assume "next_id ids \<in> set ids"
  then have "next_id ids \<le> fold max ids 0" using fold_max_ge[of 0 ids] by blast
  then show False by (simp add: next_id_def)
qed

lemma find_distinct_key:
  "distinct (map f xs) \<Longrightarrow> x \<in> set xs \<Longrightarrow> List.find (\<lambda>y. f y = f x) xs = Some x"
proof (induction xs)
  case Nil
  then show ?case by simp
next
  case (Cons y ys)
  show ?case
  proof (cases "x = y")
    case True
    then show ?thesis by simp
  next
    case False
    then have xin: "x \<in> set ys" using Cons.prems by simp
    then have "f y \<noteq> f x" using Cons.prems(1) by force
    then show ?thesis using Cons.IH xin Cons.prems(1) by simp
  qed
qed

lemma save_result_impl_store_page:
  assumes t: "simple_results res \<noteq> None" "simple_results res \<noteq> Some []"
    and sv: "save_result_impl qy res store_orm w = (r, w')"
  shows "\<exists>p. find_page_by_key (r_key res) (r_lang res) (db w') = Some p
           \<and> (\<forall>m\<in>set (queries_table (db w')). m \<in> set (queries_table (db w)) \<or> mq_page_id m = page_id p)
           \<and> (store_keyed (db w) \<longrightarrow> store_keyed (db w'))"
proof -
  define w1 where "w1 = write_log db_log INFO (lit ''Save result'') w"
  have d1: "db w1 = db w" by (simp add: w1_def write_log_def)
  show ?thesis
  proof (cases "find_page_by_key (r_key res) (r_lang res) (db w)")
    case None
    obtain row s1 where ip: "insert_page res (db w) = (row, s1)" by fastforce
    note ps = insert_page_props[OF None ip]
    have "page_id row = next_id (map page_id (pages_table (db w)))"
      using ip by (auto simp: insert_page_def Let_def page_row_def)
    then have fresh: "page_id row \<notin> set (map page_id (pages_table (db w)))"
      using next_id_fresh[of "map page_id (pages_table (db w))"] by simp
    have k1: "store_keyed (db w) \<longrightarrow> store_keyed s1"
      using fresh ps(3) by (simp add: store_keyed_def)
    show ?thesis
    proof (cases "find_query_id (lower qy) (r_lang res) (page_id row) s1")
      case None2: None
      define s2 where "s2 = insert_query_mapping (lower qy) (r_lang res) (page_id row) s1"
      have fp: "find_page_by_key (r_key res) (r_lang res) s2 = Some row"
        using ps(1) by (simp add: find_page_by_key_def s2_def insert_query_mapping_def)
      have qt: "\<forall>m\<in>set (queries_table s2). m \<in> set (queries_table (db w)) \<or> mq_page_id m = page_id row"
        using ps(2) by (auto simp: s2_def insert_query_mapping_def)
      have k2: "store_keyed (db w) \<longrightarrow> store_keyed s2"
        using k1 by (simp add: store_keyed_def s2_def insert_query_mapping_def)
      have "db w' = s2"
        using sv t None ip None2
        unfolding save_result_impl_def Let_def w1_def[symmetric] s2_def
        by (auto simp: store_orm_def d1)
      then show ?thesis using fp qt k2 by simp
    next
      case (Some qid)
      have "db w' = s1"
        using sv t None ip Some
        unfolding save_result_impl_def Let_def w1_def[symmetric]
        by (auto simp: store_orm_def d1)
      then show ?thesis using ps(1,2) k1 by simp
    qed
  next
    case (Some p)
    show ?thesis
    proof (cases "find_query_id (lower qy) (r_lang res) (page_id p) (db w)")
      case None2: None
      define s2 where "s2 = insert_query_mapping (lower qy) (r_lang res) (page_id p) (db w)"
      have fp: "find_page_by_key (r_key res) (r_lang res) s2 = Some p"
        using Some by (simp add: find_page_by_key_def s2_def insert_query_mapping_def)
      have qt: "\<forall>m\<in>set (queries_table s2). m \<in> set (queries_table (db w)) \<or> mq_page_id m = page_id p"
        by (auto simp: s2_def insert_query_mapping_def)
      have k2: "store_keyed (db w) \<longrightarrow> store_keyed s2"
        by (simp add: store_keyed_def s2_def insert_query_mapping_def)
      have "db w' = s2"
        using sv t Some None2
        unfolding save_result_impl_def Let_def w1_def[symmetric] s2_def
        by (auto simp: store_orm_def d1)
      then show ?thesis using fp qt k2 by simp
    next
      case Some2: (Some qid)
      have "db w' = db w"
        using sv t Some Some2
        unfolding save_result_impl_def Let_def w1_def[symmetric]
        by (auto simp: store_orm_def d1)
      then show ?thesis using Some by simp
    qed
  qed
qed

lemma setup_db_store:
  assumes "\<not> db_configured w"
  shows "setup_db store_searcher w =
           (Inr (), write_log db_log INFO (lit ''Database successful configured'')
                      ((write_log db_log INFO (lit ''All tables created'') w)\<lparr>db_configured := True\<rparr>))"
  using assms
  by (simp add: setup_db_def create_db_def store_searcher_def store_orm_def write_log_def)

lemma save_result_store:
  assumes t: "simple_results res \<noteq> None" "simple_results res \<noteq> Some []"
    and sv: "save_result store_searcher qy res w = (r, w')"
  shows "r = Inr ()
     \<and> (\<exists>p. find_page_by_key (r_key res) (r_lang res) (db w') = Some p
            \<and> find_query_id (lower qy) (r_lang res) (page_id p) (db w') \<noteq> None)
     \<and> (store_unique (db w) \<longrightarrow> store_unique (db w'))
     \<and> (store_linked (db w) \<longrightarrow> store_linked (db w'))
     \<and> params_heap w' = params_heap w \<and> http w' = http w \<and> db_configured w'"
proof (cases "db_configured w")
  case True
  then have "save_result_impl qy res store_orm w = (r, w')"
    using sv by (simp add: save_result_def orm_decorator_def store_searcher_def)
  from save_result_impl_store[OF t this] True show ?thesis by simp
next
  case False
  define w1 where "w1 = write_log db_log INFO (lit ''Database successful configured'')
                      ((write_log db_log INFO (lit ''All tables created'') w)\<lparr>db_configured := True\<rparr>)"
  have "save_result_impl qy res store_orm w1 = (r, w')"
    using sv False setup_db_store[OF False]
    by (simp add: save_result_def orm_decorator_def w1_def) (simp add: store_searcher_def)
  from save_result_impl_store[OF t this] show ?thesis by (simp add: w1_def write_log_def)
qed

lemma save_result_store_page:
  assumes t: "simple_results res \<noteq> None" "simple_results res \<noteq> Some []"
    and sv: "save_result store_searcher qy res w = (r, w')"
  shows "\<exists>p. find_page_by_key (r_key res) (r_lang res) (db w') = Some p
           \<and> (\<forall>m\<in>set (queries_table (db w')). m \<in> set (queries_table (db w)) \<or> mq_page_id m = page_id p)
           \<and> (store_keyed (db w) \<longrightarrow> store_keyed (db w'))"
proof (cases "db_configured w")
  case True
  then have "save_result_impl qy res store_orm w = (r, w')"
    using sv by (simp add: save_result_def orm_decorator_def store_searcher_def)
  from save_result_impl_store_page[OF t this] show ?thesis .
next
  case False
  define w1 where "w1 = write_log db_log INFO (lit ''Database successful configured'')
                      ((write_log db_log INFO (lit ''All tables created'') w)\<lparr>db_configured := True\<rparr>)"
  have d: "db w1 = db w" by (simp add: w1_def write_log_def)
  have "save_result_impl qy res store_orm w1 = (r, w')"
    using sv False setup_db_store[OF False]
    by (simp add: save_result_def orm_decorator_def w1_def) (simp add: store_searcher_def)
  from save_result_impl_store_page[OF t this] show ?thesis by (simp add: d)
qed

lemma save_result_store_again:
  assumes t: "simple_results res \<noteq> None" "simple_results res \<noteq> Some []"
    and c: "db_configured w"
    and p: "find_page_by_key (r_key res) (r_lang res) (db w) = Some p"
    and m: "find_query_id (lower qy) (r_lang res) (page_id p) (db w) \<noteq> None"
  shows "save_result store_searcher qy res w =
           (Inr (), write_log db_log INFO (lit ''Result saved in {} sec'')
                      (write_log db_log WARNING (lit ''Search query already exist'')
                         (write_log db_log WARNING (lit ''This page already exist'')
                            (write_log db_log INFO (lit ''Save result'') w))))"
proof -
  obtain qid where q: "find_query_id (lower qy) (r_lang res) (page_id p) (db w) = Some qid"
    using m by auto
  show ?thesis
    using t c p q
    by (simp add: save_result_def orm_decorator_def store_searcher_def save_result_impl_def
        store_orm_def Let_def)
qed

text \<open>
  C7. For a result with a non-empty list of related results and a store that satisfies the
  uniqueness invariant, two calls of \<open>save_result\<close> with the same query and result both
  return normally; after them the store holds exactly one page row for (key, lang) and
  exactly one mapping row for (lowercased query, lang, that page); the second call leaves
  the store as it was and writes four log records: the start of the save, page already
  exists, search query already exists, and the end of the save.
\<close>

theorem save_result_idempotent:
  assumes t: "simple_results res \<noteq> None" "simple_results res \<noteq> Some []"
    and u: "store_unique (db w)"
    and s1: "save_result store_searcher qy res w = (r1, w1)"
    and s2: "save_result store_searcher qy res w1 = (r2, w2)"
  shows "r1 = Inr () \<and> r2 = Inr ()
     \<and> db w2 = db w1
     \<and> length (filter (\<lambda>p. page_key p = r_key res \<and> page_lang p = r_lang res) (pages_table (db w2))) = 1
     \<and> (\<exists>p. find_page_by_key (r_key res) (r_lang res) (db w2) = Some p
            \<and> length (filter (\<lambda>m. mq_query m = lower qy \<and> mq_lang m = r_lang res \<and> mq_page_id m = page_id p)
                         (queries_table (db w2))) = 1)
     \<and> drop (length (logs w1)) (logs w2) =
         [(db_log, INFO, lit ''Save result''), (db_log, WARNING, lit ''This page already exist''),
          (db_log, WARNING, lit ''Search query already exist''), (db_log, INFO, lit ''Result saved in {} sec'')]"
proof -
  note a = save_result_store[OF t s1]
  then obtain p where p: "find_page_by_key (r_key res) (r_lang res) (db w1) = Some p"
    and m: "find_query_id (lower qy) (r_lang res) (page_id p) (db w1) \<noteq> None" by blast
  have c1: "db_configured w1" and u1: "store_unique (db w1)" using a u by auto
  have eq: "(r2, w2) = (Inr (), write_log db_log INFO (lit ''Result saved in {} sec'')
                      (write_log db_log WARNING (lit ''Search query already exist'')
                         (write_log db_log WARNING (lit ''This page already exist'')
                            (write_log db_log INFO (lit ''Save result'') w1))))"
    using save_result_store_again[OF t c1 p m] s2 by simp
  then have db2: "db w2 = db w1" and lg: "drop (length (logs w1)) (logs w2) =
         [(db_log, INFO, lit ''Save result''), (db_log, WARNING, lit ''This page already exist''),
          (db_log, WARNING, lit ''Search query already exist''), (db_log, INFO, lit ''Result saved in {} sec'')]"
    by (simp_all add: write_log_def)
  have pg1: "1 \<le> length (filter (\<lambda>p. page_key p = r_key res \<and> page_lang p = r_lang res) (pages_table (db w1)))"
    using find_Some_filter_ge1[OF p[unfolded find_page_by_key_def]] .
  have pg2: "length (filter (\<lambda>p. (page_key p, page_lang p) = (r_key res, r_lang res)) (pages_table (db w1))) \<le> 1"
    using u1 by (intro distinct_filter_le1) (simp add: store_unique_def)
  obtain mm where mm: "List.find (\<lambda>m. mq_query m = lower qy \<and> mq_lang m = r_lang res \<and> mq_page_id m = page_id p)
                         (queries_table (db w1)) = Some mm"
    using m by (auto simp: find_query_id_def)
  have mq1: "1 \<le> length (filter (\<lambda>m. mq_query m = lower qy \<and> mq_lang m = r_lang res \<and> mq_page_id m = page_id p)
                         (queries_table (db w1)))"
    using find_Some_filter_ge1[OF mm] .
  have mq2: "length (filter (\<lambda>m. (mq_query m, mq_lang m, mq_page_id m) = (lower qy, r_lang res, page_id p))
                         (queries_table (db w1))) \<le> 1"
    using u1 by (intro distinct_filter_le1) (simp add: store_unique_def)
  show ?thesis
    using a eq db2 lg p pg1 pg2 mq1 mq2 by auto
qed


theorem save_result_idempotent_witness:
  "store_unique (db sample_world)
   \<and> simple_results entropy_result \<noteq> None \<and> simple_results entropy_result \<noteq> Some []
   \<and> db (snd (save_result store_searcher (lit ''entropy'') entropy_result
               (snd (save_result store_searcher (lit ''entropy'') entropy_result sample_world))))
       = db (snd (save_result store_searcher (lit ''entropy'') entropy_result sample_world))
   \<and> length (filter (\<lambda>p. page_key p = lit ''Entropy'' \<and> page_lang p = lit ''en'')
        (pages_table (db (snd (save_result store_searcher (lit ''entropy'') entropy_result
               (snd (save_result store_searcher (lit ''entropy'') entropy_result sample_world))))))) = 1"
proof -
  have t: "simple_results entropy_result \<noteq> None" "simple_results entropy_result \<noteq> Some []"
    by (simp_all add: entropy_result_def WikiResult_init_def set_simple_results_def
        WikiSimpleResult_init_def Let_def str_find_def lit_def lower_def lower_cp_def)
  have u: "store_unique (db sample_world)" by (simp add: store_unique_def sample_world_def)
  have k: "r_key entropy_result = lit ''Entropy''" "r_lang entropy_result = lit ''en''"
    by (simp_all add: entropy_result_def WikiResult_init_def)
  note th = save_result_idempotent[where qy="lit ''entropy''", OF t u surjective_pairing surjective_pairing]
  have a: "db (snd (save_result store_searcher (lit ''entropy'') entropy_result
               (snd (save_result store_searcher (lit ''entropy'') entropy_result sample_world))))
       = db (snd (save_result store_searcher (lit ''entropy'') entropy_result sample_world))"
    using th by blast
  have b: "length (filter (\<lambda>p. page_key p = r_key entropy_result \<and> page_lang p = r_lang entropy_result)
        (pages_table (db (snd (save_result store_searcher (lit ''entropy'') entropy_result
               (snd (save_result store_searcher (lit ''entropy'') entropy_result sample_world))))))) = 1"
    using th by blast
  show ?thesis using a b[unfolded k] t u by blast
qed

section \<open>The cache round trip\<close>

lemma clean_fst_indep:
  assumes "query_treatment (params_heap w sp) = query_treatment (params_heap w2 sp)"
  shows "fst (clean tk raw lang sp il w) = fst (clean tk raw lang sp il w2)"
  using assms by (auto simp: clean_def Let_def split: sum.splits)

lemma WikiQuery_init_not_link:
  assumes "WikiQuery_init tk raw lang sp w = (Inr q, w')" "is_link q \<noteq> Some True"
  shows "params_heap w' = params_heap w \<and> http w' = http w \<and> db w' = db w
         \<and> db_configured w' = db_configured w \<and> search_params q = sp"
proof -
  obtain r1 w1 where lc: "link_checker raw lang sp w = (r1, w1)" by fastforce
  show ?thesis
  proof (cases r1)
    case (Inl e)
    then show ?thesis using assms(1) by (simp add: WikiQuery_init_def lc)
  next
    case (Inr p)
    obtain il lang' where p: "p = (il, lang')" by fastforce
    obtain r2 w2 where cl: "clean tk raw lang' sp il w1 = (r2, w2)" by fastforce
    have q: "is_link q = il \<and> search_params q = sp \<and> w' = w2"
      using assms(1) by (cases r2) (auto simp: WikiQuery_init_def lc Inr p cl)
    then have "il \<noteq> Some True" using assms(2) by simp
    from link_checker_not_link_frame[OF lc[unfolded Inr p] this] have "w1 = w" .
    then show ?thesis using clean_frame[OF cl] q by simp
  qed
qed

lemma WikiQuery_init_fst_indep:
  assumes "fst (WikiQuery_init tk raw lang sp w) = Inr q" "is_link q \<noteq> Some True"
    and "query_treatment (params_heap w2 sp) = query_treatment (params_heap w sp)"
  shows "fst (WikiQuery_init tk raw lang sp w2) = Inr q"
proof -
  obtain r1 w1 where lc: "link_checker raw lang sp w = (r1, w1)" by fastforce
  obtain w1' where lc2: "link_checker raw lang sp w2 = (r1, w1')"
    using link_checker_fst_indep[of raw lang sp w w2] lc by (cases "link_checker raw lang sp w2") auto
  show ?thesis
  proof (cases r1)
    case (Inl e)
    then show ?thesis using assms(1) by (simp add: WikiQuery_init_def lc)
  next
    case (Inr p)
    obtain il lang' where p: "p = (il, lang')" by fastforce
    obtain r2 w3 where cl: "clean tk raw lang' sp il w1 = (r2, w3)" by fastforce
    have q: "is_link q = il \<and> r2 = Inr (query q)
             \<and> q = \<lparr>raw_query = raw, q_lang = lang', search_params = sp, is_link = il, query = query q\<rparr>"
      using assms(1) by (cases r2) (auto simp: WikiQuery_init_def lc Inr p cl)
    then have nl: "il \<noteq> Some True" using assms(2) by simp
    have e1: "w1 = w" by (rule link_checker_not_link_frame[OF lc[unfolded Inr p] nl])
    have e2: "w1' = w2" by (rule link_checker_not_link_frame[OF lc2[unfolded Inr p] nl])
    have "fst (clean tk raw lang' sp il w2) = fst (clean tk raw lang' sp il w)"
      by (rule clean_fst_indep) (rule assms(3))
    then have "fst (clean tk raw lang' sp il w2) = Inr (query q)" using cl q e1 by simp
    then obtain w4 where "clean tk raw lang' sp il w2 = (Inr (query q), w4)"
      by (cases "clean tk raw lang' sp il w2") auto
    then show ?thesis using q by (simp add: WikiQuery_init_def lc2 Inr p e2)
  qed
qed

lemma fast_search_lang:
  assumes "fast_search E q w = (Inr r, w')"
  shows "r_lang r = q_lang q"
  using assms
  by (auto simp: fast_search_def Let_def WikiResult_init_def split: sum.splits prod.splits)

lemma api_search_lang:
  assumes "api_search E q w = (Inr r, w')"
  shows "r_lang r = q_lang q"
  using assms
  by (auto simp: api_search_def Let_def WikiResult_init_def split: sum.splits prod.splits)


lemma web_search_result:
  assumes "web_search E q w = (Inr (Some r), w')"
  shows "(\<exists>wf w2. fast_search E q wf = (Inr r, w2)) \<or> (\<exists>wa w4. api_search E q wa = (Inr r, w4))"
proof -
  have api: "\<exists>wa w4. api_search E q wa = (Inr r, w4)"
    if "(Inr (Some r), w') = (case api_search E q w3 of
             (Inr result, w4) \<Rightarrow> web_finish (Some result) w4
           | (Inl e, w4) \<Rightarrow>
               if is_WikiScraperExc e
               then web_finish None (write_log api_scraper_log WARNING (lit ''API scraper not found anything'') w4)
               else (Inl e, w4))" for w3
  proof -
    obtain ra w4 where a: "api_search E q w3 = (ra, w4)" by fastforce
    have "ra = Inr r" using that by (cases ra) (auto simp: a web_finish_def split: if_splits)
    then show ?thesis using a by blast
  qed
  show ?thesis
  proof (cases "mode (params_heap w (search_params q)) = mode_fast \<or> is_link q = Some True")
    case False
    show ?thesis using api[of "write_log scraper_log INFO (lit ''Use API scraper'')
                                 (write_log scraper_log INFO (lit ''Scraping started'') w)"]
        web_search_skip_fast[OF False, of E] assms by simp
  next
    case True
    obtain rf w2 where f: "fast_search E q (write_log scraper_log INFO (lit ''Use Fast scraper'')
                            (write_log scraper_log INFO (lit ''Scraping started'') w)) = (rf, w2)"
      by fastforce
    show ?thesis
    proof (cases rf)
      case (Inr res)
      then have "web_search E q w = web_finish (Some res) w2"
        using True f by (simp add: web_search_def Let_def)
      then have "res = r" using assms by (simp add: web_finish_def)
      then show ?thesis using f Inr by blast
    next
      case (Inl e1)
      show ?thesis
      proof (cases "is_WikiScraperExc e1")
        case True
        show ?thesis
          using api web_search_after_fast[OF \<open>mode (params_heap w (search_params q)) = mode_fast \<or> is_link q = Some True\<close> f[unfolded Inl] True] assms
          by simp
      next
        case False
        note nf = False
        show ?thesis
        proof (cases "is_AssertionError e1")
          case False
          then show ?thesis using assms True f Inl nf by (auto simp: web_search_def Let_def)
        next
          case True
          then obtain m where m: "e1 = AssertionError m" by (cases e1) auto
          have eq: "web_search E q w = (case api_search E q (write_log scraper_log INFO m w2) of
             (Inr result, w4) \<Rightarrow> web_finish (Some result) w4
           | (Inl e, w4) \<Rightarrow>
               if is_WikiScraperExc e
               then web_finish None (write_log api_scraper_log WARNING (lit ''API scraper not found anything'') w4)
               else (Inl e, w4))"
            using \<open>mode (params_heap w (search_params q)) = mode_fast \<or> is_link q = Some True\<close> f Inl
            by (simp add: web_search_def Let_def m)
          show ?thesis using api eq assms by simp
        qed
      qed
    qed
  qed
qed

lemma web_search_lang:
  assumes "web_search E q w = (Inr (Some r), w')"
  shows "r_lang r = q_lang q"
  using web_search_result[OF assms] fast_search_lang api_search_lang by blast

lemma find_page_by_query_hit:
  assumes "find_query_id ql l pid s \<noteq> None" "store_linked s"
  shows "\<exists>p. find_page_by_query ql l s = Some p"
proof -
  obtain m where m: "m \<in> set (queries_table s)" "mq_query m = ql" "mq_lang m = l"
    using assms(1) by (auto simp: find_query_id_def find_None_iff)
  then have "List.find (\<lambda>m. mq_query m = ql \<and> mq_lang m = l) (queries_table s) \<noteq> None"
    by (auto simp: find_None_iff)
  then obtain m0 where m0: "List.find (\<lambda>m. mq_query m = ql \<and> mq_lang m = l) (queries_table s) = Some m0"
    by auto
  have "m0 \<in> set (queries_table s)" using find_Some_in[OF m0] by simp
  then have "mq_page_id m0 \<in> set (map page_id (pages_table s))"
    using assms(2) by (auto simp: store_linked_def list_all_iff)
  then have "List.find (\<lambda>p. page_id p = mq_page_id m0) (pages_table s) \<noteq> None"
    by (auto simp: find_None_iff)
  then show ?thesis by (auto simp: find_page_by_query_def m0)
qed

lemma orm_decorator_store:
  "\<exists>w1. orm_decorator store_searcher func w = func store_orm w1
        \<and> db w1 = db w \<and> http w1 = http w \<and> params_heap w1 = params_heap w \<and> db_configured w1"
proof (cases "db_configured w")
  case True
  then show ?thesis by (intro exI[of _ w]) (simp add: orm_decorator_def store_searcher_def)
next
  case False
  show ?thesis
    using False setup_db_store[OF False]
    by (intro exI[of _ "write_log db_log INFO (lit ''Database successful configured'')
                      ((write_log db_log INFO (lit ''All tables created'') w)\<lparr>db_configured := True\<rparr>)"])
       (simp add: orm_decorator_def, simp add: store_searcher_def write_log_def)
qed

lemma db_search_impl_store:
  assumes "is_link q \<noteq> Some True" "db_search_impl q store_orm w = (r, w')"
  shows "r = Inr (map_option (\<lambda>page. WikiResult_init (page_key page) (page_title page) (page_lang page)
                  (page_summary page) (simple_results_converter page (mode (params_heap w (search_params q)))))
                (find_page_by_query (query q) (q_lang q) (db w)))
         \<and> db w' = db w \<and> http w' = http w \<and> params_heap w' = params_heap w"
  using assms
  by (auto simp: db_search_impl_def store_orm_def Let_def split: option.splits)

lemma db_searcher_search_store:
  assumes "is_link q \<noteq> Some True" "db_searcher_search store_searcher q w = (r, w')"
  shows "r = Inr (map_option (\<lambda>page. WikiResult_init (page_key page) (page_title page) (page_lang page)
                  (page_summary page) (simple_results_converter page (mode (params_heap w (search_params q)))))
                (find_page_by_query (query q) (q_lang q) (db w)))
         \<and> db w' = db w \<and> http w' = http w \<and> params_heap w' = params_heap w"
proof -
  obtain w1 where w1: "orm_decorator store_searcher (db_search_impl q) w = db_search_impl q store_orm w1"
    "db w1 = db w" "http w1 = http w" "params_heap w1 = params_heap w"
    using orm_decorator_store[of "db_search_impl q" w] by blast
  then have "db_search_impl q store_orm w1 = (r, w')" using assms(2) by (simp add: db_searcher_search_def)
  from db_search_impl_store[OF assms(1) this] w1 show ?thesis by simp
qed


lemma search_try_store:
  assumes env: "db_searcher E = Some store_searcher"
    and nolink: "is_link q \<noteq> Some True"
    and policy: "db_search (params_heap w sp) = db_yes"
    and st: "search_try E q sp w = (rt, w3)"
  shows "rt = (case find_page_by_query (query q) (q_lang q) (db w) of
                 None \<Rightarrow> Inl (AssertionError [])
               | Some page \<Rightarrow> Inr (WikiResult_init (page_key page) (page_title page) (page_lang page)
                  (page_summary page) (simple_results_converter page (mode (params_heap w (search_params q))))))
         \<and> db w3 = db w \<and> http w3 = http w \<and> params_heap w3 = params_heap w"
proof -
  obtain rd wd where d: "db_searcher_search store_searcher q w = (rd, wd)" by fastforce
  note ds = db_searcher_search_store[OF nolink d]
  show ?thesis
    using st env policy ds
    by (auto simp: search_try_def d split: option.splits)
qed

lemma search_except_store:
  assumes env: "db_searcher E = Some store_searcher"
    and nolink: "is_link q \<noteq> Some True"
    and treat: "query_treatment (params_heap w sp) \<noteq> without"
    and related: "simple_results r \<noteq> None" "simple_results r \<noteq> Some []"
    and se: "search_except E q sp error w = (Inr (Some r), w1)"
  shows "(\<exists>p. find_page_by_key (r_key r) (r_lang r) (db w1) = Some p
            \<and> find_query_id (lower (query q)) (r_lang r) (page_id p) (db w1) \<noteq> None)
         \<and> (store_linked (db w) \<longrightarrow> store_linked (db w1))
         \<and> params_heap w1 = params_heap w \<and> r_lang r = q_lang q"
proof -
  define wa where "wa = (case error of
                  AssertionError m \<Rightarrow> if m \<noteq> [] then write_log wiki_log WARNING m w else w
                | _ \<Rightarrow> w)"
  have ha: "params_heap wa = params_heap w" "db wa = db w"
    by (simp_all add: wa_def split: exc.splits)
  obtain rw w5 where ws: "web_search E q wa = (rw, w5)" by fastforce
  note f5 = web_search_frame[OF ws]
  have t5: "query_treatment (params_heap w5 sp) \<noteq> without" using treat f5 ha by simp
  have rw: "rw = Inr (Some r)"
    using se env nolink t5 unfolding search_except_def Let_def wa_def[symmetric]
    by (auto simp: ws split: sum.splits option.splits prod.splits)
  obtain rs w6 where sv: "save_result store_searcher (query q) r w5 = (rs, w6)" by fastforce
  have w1: "w1 = write_log wiki_log INFO (lit ''Result got in {} sec'') w6"
    using se env nolink t5 unfolding search_except_def Let_def wa_def[symmetric]
    by (auto simp: ws rw sv split: sum.splits)
  note post = save_result_store[OF related sv]
  have "r_lang r = q_lang q" using web_search_lang[OF ws[unfolded rw]] .
  then show ?thesis using post f5 ha by (auto simp: w1)
qed


lemma search_except_store_page:
  assumes env: "db_searcher E = Some store_searcher"
    and nolink: "is_link q \<noteq> Some True"
    and treat: "query_treatment (params_heap w sp) \<noteq> without"
    and related: "simple_results r \<noteq> None" "simple_results r \<noteq> Some []"
    and se: "search_except E q sp error w = (Inr (Some r), w1)"
  shows "\<exists>p. find_page_by_key (r_key r) (r_lang r) (db w1) = Some p
           \<and> (\<forall>m\<in>set (queries_table (db w1)). m \<in> set (queries_table (db w)) \<or> mq_page_id m = page_id p)
           \<and> (store_keyed (db w) \<longrightarrow> store_keyed (db w1))"
proof -
  define wa where "wa = (case error of
                  AssertionError m \<Rightarrow> if m \<noteq> [] then write_log wiki_log WARNING m w else w
                | _ \<Rightarrow> w)"
  have ha: "params_heap wa = params_heap w" "db wa = db w"
    by (simp_all add: wa_def split: exc.splits)
  obtain rw w5 where ws: "web_search E q wa = (rw, w5)" by fastforce
  note f5 = web_search_frame[OF ws]
  have t5: "query_treatment (params_heap w5 sp) \<noteq> without" using treat f5 ha by simp
  have rw: "rw = Inr (Some r)"
    using se env nolink t5 unfolding search_except_def Let_def wa_def[symmetric]
    by (auto simp: ws split: sum.splits option.splits prod.splits)
  obtain rs w6 where sv: "save_result store_searcher (query q) r w5 = (rs, w6)" by fastforce
  have w1: "w1 = write_log wiki_log INFO (lit ''Result got in {} sec'') w6"
    using se env nolink t5 unfolding search_except_def Let_def wa_def[symmetric]
    by (auto simp: ws rw sv split: sum.splits)
  have d5: "db w5 = db w" using f5 ha by simp
  from save_result_store_page[OF related sv] show ?thesis by (simp add: w1 d5)
qed

lemma find_page_by_query_miss:
  assumes "find_page_by_query ql l s = None" "store_linked s" "m \<in> set (queries_table s)"
  shows "\<not> (mq_query m = ql \<and> mq_lang m = l)"
proof
  assume "mq_query m = ql \<and> mq_lang m = l"
  then have "List.find (\<lambda>m. mq_query m = ql \<and> mq_lang m = l) (queries_table s) \<noteq> None"
    using assms(3) by (auto simp: find_None_iff)
  then obtain m0 where m0: "List.find (\<lambda>m. mq_query m = ql \<and> mq_lang m = l) (queries_table s) = Some m0"
    by auto
  have "m0 \<in> set (queries_table s)" using find_Some_in[OF m0] by simp
  then have "mq_page_id m0 \<in> set (map page_id (pages_table s))"
    using assms(2) by (auto simp: store_linked_def list_all_iff)
  then have "List.find (\<lambda>p. page_id p = mq_page_id m0) (pages_table s) \<noteq> None"
    by (auto simp: find_None_iff)
  then show False using assms(1) by (auto simp: find_page_by_query_def m0)
qed

lemma find_page_by_query_written:
  assumes p: "find_page_by_key k l s = Some p"
    and m: "find_query_id ql l' (page_id p) s \<noteq> None"
    and keyed: "store_keyed s"
    and only: "\<forall>m\<in>set (queries_table s). mq_query m = ql \<and> mq_lang m = l' \<longrightarrow> mq_page_id m = page_id p"
  shows "find_page_by_query ql l' s = Some p"
proof -
  obtain m1 where "m1 \<in> set (queries_table s)" "mq_query m1 = ql" "mq_lang m1 = l'"
    using m by (auto simp: find_query_id_def find_None_iff)
  then have "List.find (\<lambda>m. mq_query m = ql \<and> mq_lang m = l') (queries_table s) \<noteq> None"
    by (auto simp: find_None_iff)
  then obtain m0 where m0: "List.find (\<lambda>m. mq_query m = ql \<and> mq_lang m = l') (queries_table s) = Some m0"
    by auto
  have "mq_page_id m0 = page_id p" using find_Some_in[OF m0] only by blast
  moreover have "p \<in> set (pages_table s)"
    using find_Some_in[OF p[unfolded find_page_by_key_def]] by simp
  then have "List.find (\<lambda>y. page_id y = page_id p) (pages_table s) = Some p"
    using find_distinct_key[of page_id "pages_table s" p] keyed by (simp add: store_keyed_def)
  ultimately show ?thesis by (simp add: find_page_by_query_def m0)
qed

text \<open>
  C6, as the code has it. Let a first \<open>search\<close> for a non-link query under the normalize
  treatment be answered from the web (it issued HTTP requests) with a result that has
  related results, over the list store, so that the result was written back. If the
  cache search is on and the normalized key equals its lowercase form, then the same
  \<open>search\<close> called again finds, through the query mapping, the page stored under the key
  and language of that result, returns the result built from that page, and issues no
  HTTP request.
\<close>

theorem search_served_from_cache_after_write_back:
  assumes env: "db_searcher E = Some store_searcher"
    and sp: "sp = (case sp_arg of None \<Rightarrow> default_search_params | Some a \<Rightarrow> a)"
    and q: "fst (WikiQuery_init (tok E) raw lang sp w) = Inr q"
    and nolink: "is_link q \<noteq> Some True"
    and treat: "query_treatment (params_heap w sp) \<noteq> without"
    and first: "search E raw lang sp_arg w = (Inr (Some r), w1)"
    and web: "http w1 \<noteq> http w"
    and related: "simple_results r \<noteq> None" "simple_results r \<noteq> Some []"
    and linked: "store_linked (db w)"
    and keyed: "store_keyed (db w)"
    and policy: "db_search (params_heap w sp) = db_yes"
    and lowerq: "lower (query q) = query q"
  shows "\<exists>p. find_page_by_key (r_key r) (r_lang r) (db w1) = Some p
           \<and> find_page_by_query (query q) (q_lang q) (db w1) = Some p
           \<and> fst (search E raw lang sp_arg w1) =
               Inr (Some (WikiResult_init (page_key p) (page_title p) (page_lang p) (page_summary p)
                            (simple_results_converter p (mode (params_heap w sp)))))
           \<and> http (snd (search E raw lang sp_arg w1)) = http w1"
proof -
  \<comment> \<open>the first call\<close>
  define w0 where "w0 = write_log wiki_log INFO (lit ''Searching started'') w"
  have "fst (WikiQuery_init (tok E) raw lang sp w0) = Inr q"
    by (rule WikiQuery_init_fst_indep[OF q nolink]) (simp add: w0_def)
  then obtain wa where wq: "WikiQuery_init (tok E) raw lang sp w0 = (Inr q, wa)"
    by (cases "WikiQuery_init (tok E) raw lang sp w0") auto
  note fa = WikiQuery_init_not_link[OF wq nolink]
  define w2 where "w2 = write_log wiki_log INFO (lit ''Search query '' @ [39] @ query q @ [39] @ lit '' accepted'') wa"
  have f2: "params_heap w2 = params_heap w" "http w2 = http w" "db w2 = db w"
    using fa by (simp_all add: w2_def w0_def)
  obtain rt w3 where st: "search_try E q sp w2 = (rt, w3)" by fastforce
  have p2: "db_search (params_heap w2 sp) = db_yes" using policy f2 by simp
  note t3 = search_try_store[OF env nolink p2 st]
  note eq = search_unfold[OF wq[unfolded sp w0_def] st[unfolded sp w2_def], folded sp]
  have miss: "find_page_by_query (query q) (q_lang q) (db w2) = None"
  proof (rule ccontr)
    assume "find_page_by_query (query q) (q_lang q) (db w2) \<noteq> None"
    then obtain page where "find_page_by_query (query q) (q_lang q) (db w2) = Some page" by auto
    then have "w1 = write_log wiki_log INFO (lit ''Result got in {} sec'') w3"
      using t3 eq first by simp
    then show False using web t3 f2 by simp
  qed
  then have rt: "rt = Inl (AssertionError [])" using t3 by simp
  have se: "search_except E q sp (AssertionError []) w3 = (Inr (Some r), w1)"
    using eq first by (simp add: rt)
  have tr3: "query_treatment (params_heap w3 sp) \<noteq> without" using treat t3 f2 by simp
  note post = search_except_store[OF env nolink tr3 related se]
  have d3: "db w3 = db w" using t3 f2 by simp
  have l1: "store_linked (db w1)" using post linked d3 by simp
  have h1: "params_heap w1 = params_heap w" using post t3 f2 by simp
  have lang: "r_lang r = q_lang q" using post by blast
  from search_except_store_page[OF env nolink tr3 related se] obtain p :: WikiDBPages
    where pk: "find_page_by_key (r_key r) (r_lang r) (db w1) = Some p"
      and new: "\<forall>m\<in>set (queries_table (db w1)). m \<in> set (queries_table (db w)) \<or> mq_page_id m = page_id p"
      and k1: "store_keyed (db w1)"
    using keyed d3 by auto
  have "find_query_id (lower (query q)) (r_lang r) (page_id p) (db w1) \<noteq> None"
    using post pk by auto
  then have mp: "find_query_id (query q) (q_lang q) (page_id p) (db w1) \<noteq> None"
    using lowerq lang by simp
  have only: "\<forall>m\<in>set (queries_table (db w1)). mq_query m = query q \<and> mq_lang m = q_lang q \<longrightarrow> mq_page_id m = page_id p"
    using new find_page_by_query_miss[OF miss[unfolded f2] linked] by blast
  have p: "find_page_by_query (query q) (q_lang q) (db w1) = Some p"
    by (rule find_page_by_query_written[OF pk mp k1 only])
  \<comment> \<open>the second call\<close>
  define v0 where "v0 = write_log wiki_log INFO (lit ''Searching started'') w1"
  have "fst (WikiQuery_init (tok E) raw lang sp v0) = Inr q"
    by (rule WikiQuery_init_fst_indep[OF q nolink]) (simp add: v0_def h1)
  then obtain va where vq: "WikiQuery_init (tok E) raw lang sp v0 = (Inr q, va)"
    by (cases "WikiQuery_init (tok E) raw lang sp v0") auto
  note ga = WikiQuery_init_not_link[OF vq nolink]
  define v2 where "v2 = write_log wiki_log INFO (lit ''Search query '' @ [39] @ query q @ [39] @ lit '' accepted'') va"
  have g2: "params_heap v2 = params_heap w" "http v2 = http w1" "db v2 = db w1"
    using ga h1 by (simp_all add: v2_def v0_def)
  obtain rv v3 where sv: "search_try E q sp v2 = (rv, v3)" by fastforce
  have pv: "db_search (params_heap v2 sp) = db_yes" using policy g2 by simp
  note u3 = search_try_store[OF env nolink pv sv]
  note eq2 = search_unfold[OF vq[unfolded sp v0_def] sv[unfolded sp v2_def], folded sp]
  have spq: "search_params q = sp" using fa by simp
  have "search E raw lang sp_arg w1 =
          (Inr (Some (WikiResult_init (page_key p) (page_title p) (page_lang p) (page_summary p)
                            (simple_results_converter p (mode (params_heap w sp))))),
           write_log wiki_log INFO (lit ''Result got in {} sec'') v3)"
    using u3 p g2 by (simp add: eq2 spq)
  then show ?thesis using p pk u3 g2 by simp
qed

theorem search_served_from_cache_after_write_back_witness:
  "http (snd (search sample_env (lit ''entropy'') (lit ''en'') None sample_world)) \<noteq> http sample_world
   \<and> fst (search sample_env (lit ''entropy'') (lit ''en'') None sample_world) = Inr (Some entropy_result)
   \<and> lower (query entropy_query) = query entropy_query
   \<and> (\<exists>p. find_page_by_key (r_key entropy_result) (r_lang entropy_result)
              (db (snd (search sample_env (lit ''entropy'') (lit ''en'') None sample_world))) = Some p
          \<and> find_page_by_query (query entropy_query) (q_lang entropy_query)
              (db (snd (search sample_env (lit ''entropy'') (lit ''en'') None sample_world))) = Some p)
   \<and> http (snd (search sample_env (lit ''entropy'') (lit ''en'') None
                (snd (search sample_env (lit ''entropy'') (lit ''en'') None sample_world))))
       = http (snd (search sample_env (lit ''entropy'') (lit ''en'') None sample_world))"
proof -
  have env: "db_searcher sample_env = Some store_searcher" by (simp add: sample_env_def)
  have sp: "default_search_params = (case None of None \<Rightarrow> default_search_params | Some a \<Rightarrow> a)" by simp
  have q: "fst (WikiQuery_init (tok sample_env) (lit ''entropy'') (lit ''en'') default_search_params sample_world)
             = Inr entropy_query"
    by (simp add: search_defs sample_defs entropy_query_def lit_def)
  have nolink: "is_link entropy_query \<noteq> Some True" by (simp add: entropy_query_def)
  have treat: "query_treatment (params_heap sample_world default_search_params) \<noteq> without"
    by (simp add: sample_world_def sample_params_def)
  have f: "fst (search sample_env (lit ''entropy'') (lit ''en'') None sample_world) = Inr (Some entropy_result)"
    by (simp add: search_defs sample_defs entropy_result_def lit_def)
  then have first: "search sample_env (lit ''entropy'') (lit ''en'') None sample_world
      = (Inr (Some entropy_result), snd (search sample_env (lit ''entropy'') (lit ''en'') None sample_world))"
    by (simp add: prod_eq_iff)
  have web: "http (snd (search sample_env (lit ''entropy'') (lit ''en'') None sample_world)) \<noteq> http sample_world"
    by (simp add: search_defs sample_defs lit_def)
  have related: "simple_results entropy_result \<noteq> None" "simple_results entropy_result \<noteq> Some []"
    by (simp_all add: entropy_result_def WikiResult_init_def set_simple_results_def
        WikiSimpleResult_init_def Let_def str_find_def lit_def lower_def lower_cp_def)
  have linked: "store_linked (db sample_world)" by (simp add: store_linked_def sample_world_def)
  have keyed: "store_keyed (db sample_world)" by (simp add: store_keyed_def sample_world_def)
  have policy: "db_search (params_heap sample_world default_search_params) = db_yes"
    by (simp add: sample_world_def sample_params_def)
  have lowerq: "lower (query entropy_query) = query entropy_query"
    by (simp add: entropy_query_def lower_def lower_cp_def lit_def)
  from search_served_from_cache_after_write_back[OF env sp q nolink treat first web related linked keyed policy lowerq]
  show ?thesis using web f lowerq by blast
qed

text \<open>
  C6, as stated, fails. With the cache search off the first call still writes the result
  back, and the second call goes to the web again. And with the cache search on, the
  query \<open>Entropy\<close> is stored under the lowercased text \<open>entropy\<close> but looked up as
  \<open>Entropy\<close>, so the second call misses the cache and goes to the web again; so does
  a query with a capital outside Basic Latin, U+00C9 followed by \<open>cole\<close>.
\<close>

theorem search_repeats_requests_after_write_back:
  "find_page_by_query (lit ''entropy'') (lit ''en'')
      (db (snd (search sample_env (lit ''entropy'') (lit ''en'') None nocache_world))) \<noteq> None
   \<and> http (snd (search sample_env (lit ''entropy'') (lit ''en'') None
                (snd (search sample_env (lit ''entropy'') (lit ''en'') None nocache_world))))
       \<noteq> http (snd (search sample_env (lit ''entropy'') (lit ''en'') None nocache_world))
   \<and> find_page_by_key (lit ''Entropy'') (lit ''en'')
      (db (snd (search sample_env (lit ''Entropy'') (lit ''en'') None sample_world))) \<noteq> None
   \<and> http (snd (search sample_env (lit ''Entropy'') (lit ''en'') None
                (snd (search sample_env (lit ''Entropy'') (lit ''en'') None sample_world))))
       \<noteq> http (snd (search sample_env (lit ''Entropy'') (lit ''en'') None sample_world))
   \<and> find_page_by_key (lit ''Entropy'') (lit ''en'')
      (db (snd (search sample_env [201, 99, 111, 108, 101] (lit ''en'') None sample_world))) \<noteq> None
   \<and> http (snd (search sample_env [201, 99, 111, 108, 101] (lit ''en'') None
                (snd (search sample_env [201, 99, 111, 108, 101] (lit ''en'') None sample_world))))
       \<noteq> http (snd (search sample_env [201, 99, 111, 108, 101] (lit ''en'') None sample_world))"
  by (simp add: search_defs sample_defs nocache_world_def lit_def lower_ranges_def)

end
